(* ===== verification/Prelude.thy ===== *)
theory Prelude
  imports Main "HOL-Library.Word"
begin

text \<open>
  Shared vocabulary of the development: the machine integers of the sources, the byte order of the
  host, fixed-width chunks of a list, and the little-endian encoding of a word as a list of bytes.
  The collections \<open>len_simps\<close> (lengths of fixed-size buffers) and \<open>endian_simps\<close> (effect of the
  byte-order helpers) are filled by the component theories and drive their proofs.
\<close>

unbundle bit_operations_syntax

named_theorems len_simps \<open>lengths of fixed-size buffers\<close>
named_theorems endian_simps \<open>effect of the byte-order helpers\<close>

type_synonym u8 = "8 word"
type_synonym u16 = "16 word"
type_synonym u32 = "32 word"
type_synonym u64 = "64 word"

section \<open>Lists in chunks\<close>

fun chunks :: "nat \<Rightarrow> 'a list \<Rightarrow> 'a list list" where
  "chunks n xs = (if n = 0 \<or> xs = [] then [] else take n xs # chunks n (drop n xs))"

declare chunks.simps [simp del]

lemma chunks_Nil [simp]: "chunks n [] = []"
  by (simp add: chunks.simps)

lemma chunks_append:
  assumes "length ys = n" and "0 < n"
  shows "chunks n (ys @ xs) = ys # chunks n xs"
  using assms by (subst chunks.simps) auto

lemma concat_chunks [simp]: "0 < n \<Longrightarrow> concat (chunks n xs) = xs"
proof (induction n xs rule: chunks.induct)
  case (1 n xs)
  then show ?case by (cases "xs = []") (simp_all add: chunks.simps [of n xs])
qed

lemma chunks_concat:
  assumes "0 < n" and "\<forall>ys \<in> set yss. length ys = n"
  shows "chunks n (concat yss) = yss"
  using assms(2) by (induction yss) (simp_all add: chunks_append assms(1))

lemma chunks_lengths:
  assumes "0 < n" and "length xs = n * k"
  shows "length (chunks n xs) = k \<and> (\<forall>ys \<in> set (chunks n xs). length ys = n)"
  using assms(2)
proof (induction k arbitrary: xs)
  case 0
  then show ?case by simp
next
  case (Suc k)
  then have xs: "xs = take n xs @ drop n xs" and l: "length (take n xs) = n"
    and d: "length (drop n xs) = n * k" by (simp_all add: assms(1))
  have "chunks n xs = take n xs # chunks n (drop n xs)"
    using chunks_append [OF l assms(1), of "drop n xs"] xs by simp
  then show ?case using Suc.IH [OF d] l by simp
qed

lemma nth_chunks:
  assumes "0 < n" and "length xs = n * k" and "i < k"
  shows "chunks n xs ! i = take n (drop (n * i) xs)"
  using assms(2,3)
proof (induction k arbitrary: xs i)
  case 0
  then show ?case by simp
next
  case (Suc k)
  then have "xs \<noteq> []" using assms(1) by auto
  then have e: "chunks n xs = take n xs # chunks n (drop n xs)"
    using assms(1) by (subst chunks.simps) simp
  show ?case
  proof (cases i)
    case 0
    with e show ?thesis by simp
  next
    case (Suc j)
    with Suc.prems Suc.IH [of "drop n xs" j] e show ?thesis
      by (simp add: algebra_simps)
  qed
qed

section \<open>Words as bytes\<close>

text \<open>The little-endian integer with the given bytes, and the \<open>n\<close> low bytes of a word.\<close>

fun le_join :: "u8 list \<Rightarrow> 'a::len word" where
  "le_join [] = 0"
| "le_join (b # bs) = ucast b OR push_bit 8 (le_join bs)"

definition le_split :: "nat \<Rightarrow> 'a::len word \<Rightarrow> u8 list" where
  "le_split n w = map (\<lambda>i. ucast (drop_bit (8 * i) w)) [0..<n]"

lemma length_le_split [simp, len_simps]: "length (le_split n w) = n"
  by (simp add: le_split_def)

lemma bit_le_join:
  "bit (le_join bs :: 'a::len word) k \<longleftrightarrow>
     k < LENGTH('a) \<and> k div 8 < length bs \<and> bit (bs ! (k div 8)) (k mod 8)"
proof (induction bs arbitrary: k)
  case Nil
  then show ?case by simp
next
  case (Cons b bs)
  show ?case
  proof (cases "k < 8")
    case True
    then show ?thesis by (auto simp: bit_simps)
  next
    case False
    then have "k div 8 = Suc ((k - 8) div 8)" and "k mod 8 = (k - 8) mod 8"
      by (simp_all add: le_div_geq le_mod_geq)
    with False Cons [of "k - 8"] show ?thesis
      by (auto simp: bit_simps dest: bit_imp_le_length)
  qed
qed

lemma le_split_nth: "i < n \<Longrightarrow> le_split n w ! i = ucast (drop_bit (8 * i) w)"
  by (simp add: le_split_def)

lemma le_split_join:
  assumes "8 * length bs \<le> LENGTH('a::len)"
  shows "le_split (length bs) (le_join bs :: 'a word) = bs"
proof (rule nth_equalityI)
  fix i assume "i < length (le_split (length bs) (le_join bs :: 'a word))"
  then have i: "i < length bs" by simp
  show "le_split (length bs) (le_join bs :: 'a word) ! i = bs ! i"
  proof (rule bit_word_eqI)
    fix k assume k: "k < LENGTH(8)"
    then have "(8 * i + k) div 8 = i" and "(8 * i + k) mod 8 = k" by auto
    then show "bit (le_split (length bs) (le_join bs :: 'a word) ! i) k = bit (bs ! i) k"
      using i k assms by (auto simp: le_split_nth bit_simps bit_le_join)
  qed
qed simp

lemma le_join_split:
  assumes "LENGTH('a::len) = 8 * n"
  shows "le_join (le_split n w) = (w :: 'a word)"
proof (rule bit_word_eqI)
  fix k assume k: "k < LENGTH('a)"
  then have "k div 8 < n" using assms by auto
  then show "bit (le_join (le_split n w) :: 'a word) k = bit w k"
    using k by (simp add: bit_le_join le_split_nth bit_simps)
qed

lemma le_join_split_64 [simp]: "le_join (le_split 8 w) = (w :: u64)"
  by (rule le_join_split) simp

lemma le_join_split_32 [simp]: "le_join (le_split 4 w) = (w :: u32)"
  by (rule le_join_split) simp

lemma le_split_join_64 [simp]: "length bs = 8 \<Longrightarrow> le_split 8 (le_join bs :: u64) = bs"
  using le_split_join [of bs, where 'a = 64] by simp

lemma le_split_join_32 [simp]: "length bs = 4 \<Longrightarrow> le_split 4 (le_join bs :: u32) = bs"
  using le_split_join [of bs, where 'a = 32] by simp

text \<open>Taking the exclusive or of two words is taking it byte by byte.\<close>

lemma le_split_xor: "le_split n (v XOR w) = map2 (XOR) (le_split n v) (le_split n w)"
  by (rule nth_equalityI) (auto simp: le_split_nth intro: bit_word_eqI simp: bit_simps)

lemma le_join_xor:
  "length xs = length ys \<Longrightarrow> le_join (map2 (XOR) xs ys) = (le_join xs XOR le_join ys :: 'a::len word)"
  by (rule bit_word_eqI) (auto simp: bit_le_join bit_simps)

lemma le_join_append_zeros: "le_join (bs @ replicate n 0) = le_join bs"
  by (rule bit_word_eqI) (auto simp: bit_le_join nth_append)

section \<open>Bytes as numbers\<close>

text \<open>The number whose big-endian representation is the given bytes.\<close>

definition be_nat :: "u8 list \<Rightarrow> nat" where
  "be_nat bs = foldl (\<lambda>n b. 256 * n + unat b) 0 bs"

lemma foldl_be_nat: "foldl (\<lambda>n b. 256 * n + unat (b :: u8)) k bs = k * 256 ^ length bs + be_nat bs"
  unfolding be_nat_def
proof (induction bs arbitrary: k)
  case (Cons b bs)
  show ?case using Cons [of "256 * k + unat b"] Cons [of "unat b"] by (simp add: algebra_simps)
qed simp

lemma be_nat_append: "be_nat (xs @ ys) = be_nat xs * 256 ^ length ys + be_nat ys"
  by (simp add: be_nat_def foldl_be_nat [of "foldl _ _ _", unfolded be_nat_def])

lemma be_nat_less: "be_nat bs < 256 ^ length bs"
proof (induction bs rule: rev_induct)
  case (snoc b bs)
  then have "be_nat bs * 256 + 256 \<le> 256 ^ length bs * 256" by simp
  moreover have "unat b < 256" using unsigned_less [of b, where ?'a = nat] by simp
  moreover have "be_nat [b] = unat b" by (simp add: be_nat_def)
  ultimately show ?case by (simp add: be_nat_append)
qed (simp add: be_nat_def)

lemma be_nat_max: "be_nat (replicate k 255) + 1 = 256 ^ k"
proof (induction k)
  case (Suc k)
  have "be_nat (replicate (Suc k) 255) = 255 * 256 ^ k + be_nat (replicate k 255)"
    using be_nat_append [of "[255]" "replicate k 255"] by (simp add: be_nat_def [of "[255]"])
  with Suc show ?case by simp
qed (simp add: be_nat_def)

section \<open>The byte order of the host\<close>

datatype byte_order = Little_Endian | Big_Endian

definition bswap32 :: "u32 \<Rightarrow> u32" where
  "bswap32 w = le_join (rev (le_split 4 w))"

definition bswap64 :: "u64 \<Rightarrow> u64" where
  "bswap64 w = le_join (rev (le_split 8 w))"

text \<open>Reading and writing a 32- or 64-bit integer object in memory.\<close>

definition load32 :: "byte_order \<Rightarrow> u8 list \<Rightarrow> u32" where
  "load32 bo bs = (case bo of Little_Endian \<Rightarrow> le_join bs | Big_Endian \<Rightarrow> le_join (rev bs))"

definition load64 :: "byte_order \<Rightarrow> u8 list \<Rightarrow> u64" where
  "load64 bo bs = (case bo of Little_Endian \<Rightarrow> le_join bs | Big_Endian \<Rightarrow> le_join (rev bs))"

definition store32 :: "byte_order \<Rightarrow> u32 \<Rightarrow> u8 list" where
  "store32 bo w = (case bo of Little_Endian \<Rightarrow> le_split 4 w | Big_Endian \<Rightarrow> rev (le_split 4 w))"

definition store64 :: "byte_order \<Rightarrow> u64 \<Rightarrow> u8 list" where
  "store64 bo w = (case bo of Little_Endian \<Rightarrow> le_split 8 w | Big_Endian \<Rightarrow> rev (le_split 8 w))"

lemma bswap32_bswap32 [simp]: "bswap32 (bswap32 w) = w"
  by (simp add: bswap32_def)

lemma bswap64_bswap64 [simp]: "bswap64 (bswap64 w) = w"
  by (simp add: bswap64_def)

lemma length_store [simp, len_simps]:
  "length (store32 bo v) = 4" "length (store64 bo w) = 8"
  by (simp_all add: store32_def store64_def split: byte_order.split)

lemma load_store [simp]: "load32 bo (store32 bo v) = v" "load64 bo (store64 bo w) = w"
  by (simp_all add: load32_def load64_def store32_def store64_def split: byte_order.split)

lemma store_load [simp]:
  "length bs = 4 \<Longrightarrow> store32 bo (load32 bo bs) = bs"
  "length bs = 8 \<Longrightarrow> store64 bo (load64 bo bs) = bs"
  by (simp_all add: load32_def load64_def store32_def store64_def split: byte_order.split)

lemma bswap_load:
  "length bs = 4 \<Longrightarrow> bswap32 (load32 Big_Endian bs) = load32 Little_Endian bs"
  "length bs = 8 \<Longrightarrow> bswap64 (load64 Big_Endian bs) = load64 Little_Endian bs"
  by (simp_all add: bswap32_def bswap64_def load32_def load64_def)

lemma store_bswap:
  "store32 Big_Endian (bswap32 v) = store32 Little_Endian v"
  "store64 Big_Endian (bswap64 w) = store64 Little_Endian w"
  by (simp_all add: bswap32_def bswap64_def store32_def store64_def)

end
