(* ===== verification/Keccak_Spec.thy ===== *)
theory Keccak_Spec
  imports Prelude
begin

text \<open>
  The Keccak permutations and the Keccak sponge as the standard FIPS 202 writes them, for lanes of
  any width. Nothing here comes from the C sources: this theory is the specification that
  \<open>Keccak_F1600\<close>, \<open>Keccak_F800\<close> and \<open>Keccak_Sponge\<close> prove the C routines against. A state is the
  list of its 25 lanes, lane (x, y) at position x + 5 y.
\<close>

section \<open>The step mappings (FIPS 202, section 3.2)\<close>

definition column_parity :: "'a::len word list \<Rightarrow> nat \<Rightarrow> 'a word" where
  "column_parity A x = A ! x XOR A ! (x + 5) XOR A ! (x + 10) XOR A ! (x + 15) XOR A ! (x + 20)"

definition theta :: "'a::len word list \<Rightarrow> 'a word list" where
  "theta A = map (\<lambda>i. A ! i XOR column_parity A ((i + 4) mod 5) XOR
                         word_rotl 1 (column_parity A ((i + 1) mod 5))) [0..<25]"

text \<open>Algorithm 2: the walk over the lanes that assigns the rotation offsets.\<close>

fun rho_walk :: "nat \<Rightarrow> nat \<times> nat" where
  "rho_walk 0 = (1, 0)"
| "rho_walk (Suc t) = (let (x, y) = rho_walk t in (y, (2 * x + 3 * y) mod 5))"

definition rho_offset :: "nat \<Rightarrow> nat \<Rightarrow> nat" where
  "rho_offset w i =
     (case List.find (\<lambda>t. rho_walk t = (i mod 5, i div 5)) [0..<24] of
        None \<Rightarrow> 0
      | Some t \<Rightarrow> ((t + 1) * (t + 2) div 2) mod w)"

definition rho :: "'a::len word list \<Rightarrow> 'a word list" where
  "rho A = map (\<lambda>i. word_rotl (rho_offset LENGTH('a) i) (A ! i)) [0..<25]"

definition pi :: "'a::len word list \<Rightarrow> 'a word list" where
  "pi A = map (\<lambda>i. A ! ((i mod 5 + 3 * (i div 5)) mod 5 + 5 * (i mod 5))) [0..<25]"

definition chi :: "'a::len word list \<Rightarrow> 'a word list" where
  "chi A = map (\<lambda>i. A ! i XOR (NOT (A ! ((i mod 5 + 1) mod 5 + 5 * (i div 5))) AND
                               A ! ((i mod 5 + 2) mod 5 + 5 * (i div 5)))) [0..<25]"

text \<open>Algorithm 5: the bits of the round constants come from a linear feedback shift register.\<close>

definition lfsr_step :: "bool list \<Rightarrow> bool list" where
  "lfsr_step R = (let S = False # R
     in take 8 (S[0 := S ! 0 \<noteq> S ! 8, 4 := S ! 4 \<noteq> S ! 8, 5 := S ! 5 \<noteq> S ! 8, 6 := S ! 6 \<noteq> S ! 8]))"

fun lfsr :: "nat \<Rightarrow> bool list" where
  "lfsr 0 = [True, False, False, False, False, False, False, False]"
| "lfsr (Suc t) = lfsr_step (lfsr t)"

definition rc_bit :: "nat \<Rightarrow> bool" where
  "rc_bit t = hd (lfsr (t mod 255))"

text \<open>\<open>l\<close> is the binary logarithm of the lane width: 6 for 64 bits, 5 for 32 bits.\<close>

definition round_constant :: "nat \<Rightarrow> nat \<Rightarrow> 'a::len word" where
  "round_constant l ir =
     foldr (\<lambda>j w. w OR (if rc_bit (j + 7 * ir) then push_bit (2 ^ j - 1) 1 else 0)) [0..<Suc l] 0"

definition iota :: "nat \<Rightarrow> nat \<Rightarrow> 'a::len word list \<Rightarrow> 'a word list" where
  "iota l ir A = A[0 := A ! 0 XOR round_constant l ir]"

definition keccak_round :: "nat \<Rightarrow> nat \<Rightarrow> 'a::len word list \<Rightarrow> 'a word list" where
  "keccak_round l ir A = iota l ir (chi (pi (rho (theta A))))"

text \<open>The permutation: the rounds \<open>0\<close>, \<open>1\<close>, \dots, \<open>12 + 2 l - 1\<close> in turn (section 3.4).\<close>

definition keccak_f :: "nat \<Rightarrow> 'a::len word list \<Rightarrow> 'a word list" where
  "keccak_f l A = fold (keccak_round l) [0..<12 + 2 * l] A"

lemma length_steps [simp]:
  "length (theta A) = 25" "length (rho A) = 25" "length (pi A) = 25" "length (chi A) = 25"
  "length (keccak_round l ir A) = 25"
  by (simp_all add: theta_def rho_def pi_def chi_def iota_def keccak_round_def)

lemma length_fold_keccak_round: "length A = 25 \<Longrightarrow> length (fold (keccak_round l) irs A) = 25"
  by (induction irs arbitrary: A) simp_all

lemma length_keccak_f [simp]: "length A = 25 \<Longrightarrow> length (keccak_f l A) = 25"
  by (simp add: keccak_f_def length_fold_keccak_round)

subsection \<open>Tabulating the round constants\<close>

text \<open>
  The register run once, with its first 168 output bits written out: enough for the 24 rounds of
  \<open>l = 6\<close> and the 22 of \<open>l = 5\<close>. The table makes the round constants cheap to evaluate.
\<close>

fun lfsr_run :: "nat \<Rightarrow> bool list \<Rightarrow> bool list" where
  "lfsr_run 0 R = []"
| "lfsr_run (Suc n) R = hd R # lfsr_run n (lfsr_step R)"

definition rc_bits :: "bool list" where
  "rc_bits = (let T = True; F = False in
    [T, F, F, F, F, F, F, F, T, F, T, T, F, F, F, T, T, T, T, F, T, F, F, F,
     F, T, T, T, T, T, T, T, T, F, F, T, F, F, F, F, T, F, T, F, F, T, T, T,
     T, T, F, T, F, T, F, T, F, T, T, T, F, F, F, F, F, T, T, F, F, F, T, F,
     T, F, T, T, F, F, T, T, F, F, T, F, T, T, T, T, T, T, F, T, T, T, T, F,
     F, T, T, F, T, T, T, F, T, T, T, F, F, T, F, T, F, T, F, F, T, F, T, F,
     F, F, T, F, F, T, F, T, T, F, T, F, F, F, T, T, F, F, T, T, T, F, F, T,
     T, T, T, F, F, F, T, T, F, T, T, F, F, F, F, T, F, F, F, T, F, T, T, T])"

lemma lfsr_run_lfsr: "lfsr_run n (lfsr k) = map (\<lambda>t. hd (lfsr t)) [k..<k + n]"
  by (induction n arbitrary: k) (simp_all add: upt_conv_Cons del: upt_Suc flip: lfsr.simps)

lemma lfsr_run_168: "lfsr_run 168 (lfsr 0) = rc_bits"
  by code_simp

lemma rc_bit_table: "t < 168 \<Longrightarrow> rc_bit t = rc_bits ! t"
  unfolding lfsr_run_168 [symmetric] lfsr_run_lfsr by (simp add: rc_bit_def)

definition round_constant_table :: "nat \<Rightarrow> nat \<Rightarrow> 'a::len word" where
  "round_constant_table l ir =
     foldr (\<lambda>j w. w OR (if rc_bits ! (j + 7 * ir) then push_bit (2 ^ j - 1) 1 else 0)) [0..<Suc l] 0"

lemma round_constant_table: 
   "l \<le> 6 \<Longrightarrow> ir < 24 \<Longrightarrow> round_constant l ir = round_constant_table l ir"
  unfolding round_constant_def round_constant_table_def
  by (rule foldr_cong) (auto simp: rc_bit_table)

section \<open>The sponge (FIPS 202, section 4)\<close>

text \<open>
  Keccak-256 and Keccak-512 of the original submission: no domain suffix, multi-rate padding
  \<open>pad10*1\<close>, which on whole bytes appends \<open>01 00 \<dots> 00 80\<close>, or the single byte \<open>81\<close>.
  \<open>r\<close> is the rate in bytes.
\<close>

definition pad10star1 :: "nat \<Rightarrow> u8 list \<Rightarrow> u8 list" where
  "pad10star1 r m =
     (let q = r - length m mod r
      in m @ (if q = 1 then [0x81] else 0x01 # replicate (q - 2) 0 @ [0x80]))"

definition xor_block :: "u64 list \<Rightarrow> u8 list \<Rightarrow> u64 list" where
  "xor_block S block =
     map2 (XOR) S (map le_join (chunks 8 (block @ replicate (200 - length block) 0)))"

definition absorb :: "nat \<Rightarrow> u8 list \<Rightarrow> u64 list" where
  "absorb r m = fold (\<lambda>block S. keccak_f 6 (xor_block S block)) (chunks r m) (replicate 25 0)"

definition sponge_keccak :: "nat \<Rightarrow> nat \<Rightarrow> u8 list \<Rightarrow> u8 list" where
  "sponge_keccak r d m = take d (concat (map (le_split 8) (absorb r (pad10star1 r m))))"

definition keccak_digest :: "nat \<Rightarrow> u8 list \<Rightarrow> u8 list" where
  "keccak_digest bits m = sponge_keccak ((1600 - 2 * bits) div 8) (bits div 8) m"

end
