(* ===== verification/Keccak_Lanes.thy ===== *)
theory Keccak_Lanes
  imports Keccak_Spec
begin

text \<open>
  The 25 local variables in which both C permutations keep their state, the loads and stores at
  their beginning and end, and one round of the standard written over those variables. The last
  lemma is the bridge the two permutation theories use: a round over the local variables is a round
  of the standard over the list of lanes, for lanes of 32 and of 64 bits.
\<close>

text \<open>The 25 local variables \<open>Aba\<close>, \dots, \<open>Asu\<close>.\<close>

datatype 'w lanes =
  Lanes 'w 'w 'w 'w 'w
     'w 'w 'w 'w 'w
     'w 'w 'w 'w 'w
     'w 'w 'w 'w 'w
     'w 'w 'w 'w 'w

fun load_lanes :: "'w list \<Rightarrow> 'w lanes" where
  "load_lanes state =
     Lanes (state ! 0) (state ! 1) (state ! 2) (state ! 3) (state ! 4)
           (state ! 5) (state ! 6) (state ! 7) (state ! 8) (state ! 9)
           (state ! 10) (state ! 11) (state ! 12) (state ! 13) (state ! 14)
           (state ! 15) (state ! 16) (state ! 17) (state ! 18) (state ! 19)
           (state ! 20) (state ! 21) (state ! 22) (state ! 23) (state ! 24)"

fun store_lanes :: "'w lanes \<Rightarrow> 'w list" where
  "store_lanes
     (Lanes Aba Abe Abi Abo Abu Aga Age Agi Ago Agu
            Aka Ake Aki Ako Aku Ama Ame Ami Amo Amu Asa Ase Asi Aso Asu) =
     [Aba, Abe, Abi, Abo, Abu,
      Aga, Age, Agi, Ago, Agu,
      Aka, Ake, Aki, Ako, Aku,
      Ama, Ame, Ami, Amo, Amu,
      Asa, Ase, Asi, Aso, Asu]"

text \<open>
  A round over the variables. The rotation offsets are those for 64 bits; a rotation takes its
  offset modulo the lane width, so they also serve 32-bit lanes.
\<close>

definition round_lanes :: "'a::len word \<Rightarrow> 'a word lanes \<Rightarrow> 'a word lanes" where
  "round_lanes rc A = (case A of
     Lanes Aba Abe Abi Abo Abu Aga Age Agi Ago Agu
           Aka Ake Aki Ako Aku Ama Ame Ami Amo Amu Asa Ase Asi Aso Asu \<Rightarrow>
     (let
        Ca = Aba XOR Aga XOR Aka XOR Ama XOR Asa;
        Ce = Abe XOR Age XOR Ake XOR Ame XOR Ase;
        Ci = Abi XOR Agi XOR Aki XOR Ami XOR Asi;
        Co = Abo XOR Ago XOR Ako XOR Amo XOR Aso;
        Cu = Abu XOR Agu XOR Aku XOR Amu XOR Asu;
        Da = Cu XOR word_rotl 1 Ce;
        De = Ca XOR word_rotl 1 Ci;
        Di = Ce XOR word_rotl 1 Co;
        Do = Ci XOR word_rotl 1 Cu;
        Du = Co XOR word_rotl 1 Ca;
        Bba = Aba XOR Da;
        Bbe = word_rotl 44 (Age XOR De);
        Bbi = word_rotl 43 (Aki XOR Di);
        Bbo = word_rotl 21 (Amo XOR Do);
        Bbu = word_rotl 14 (Asu XOR Du);
        Bga = word_rotl 28 (Abo XOR Do);
        Bge = word_rotl 20 (Agu XOR Du);
        Bgi = word_rotl 3 (Aka XOR Da);
        Bgo = word_rotl 45 (Ame XOR De);
        Bgu = word_rotl 61 (Asi XOR Di);
        Bka = word_rotl 1 (Abe XOR De);
        Bke = word_rotl 6 (Agi XOR Di);
        Bki = word_rotl 25 (Ako XOR Do);
        Bko = word_rotl 8 (Amu XOR Du);
        Bku = word_rotl 18 (Asa XOR Da);
        Bma = word_rotl 27 (Abu XOR Du);
        Bme = word_rotl 36 (Aga XOR Da);
        Bmi = word_rotl 10 (Ake XOR De);
        Bmo = word_rotl 15 (Ami XOR Di);
        Bmu = word_rotl 56 (Aso XOR Do);
        Bsa = word_rotl 62 (Abi XOR Di);
        Bse = word_rotl 55 (Ago XOR Do);
        Bsi = word_rotl 39 (Aku XOR Du);
        Bso = word_rotl 41 (Ama XOR Da);
        Bsu = word_rotl 2 (Ase XOR De)
      in Lanes
           (Bba XOR (NOT Bbe AND Bbi) XOR rc) (Bbe XOR (NOT Bbi AND Bbo))
           (Bbi XOR (NOT Bbo AND Bbu)) (Bbo XOR (NOT Bbu AND Bba))
           (Bbu XOR (NOT Bba AND Bbe)) (Bga XOR (NOT Bge AND Bgi))
           (Bge XOR (NOT Bgi AND Bgo)) (Bgi XOR (NOT Bgo AND Bgu))
           (Bgo XOR (NOT Bgu AND Bga)) (Bgu XOR (NOT Bga AND Bge))
           (Bka XOR (NOT Bke AND Bki)) (Bke XOR (NOT Bki AND Bko))
           (Bki XOR (NOT Bko AND Bku)) (Bko XOR (NOT Bku AND Bka))
           (Bku XOR (NOT Bka AND Bke)) (Bma XOR (NOT Bme AND Bmi))
           (Bme XOR (NOT Bmi AND Bmo)) (Bmi XOR (NOT Bmo AND Bmu))
           (Bmo XOR (NOT Bmu AND Bma)) (Bmu XOR (NOT Bma AND Bme))
           (Bsa XOR (NOT Bse AND Bsi)) (Bse XOR (NOT Bsi AND Bso))
           (Bsi XOR (NOT Bso AND Bsu)) (Bso XOR (NOT Bsu AND Bsa))
           (Bsu XOR (NOT Bsa AND Bse))))"

text \<open>The word that theta adds to every lane of column \<open>x\<close>.\<close>

definition theta_d :: "'a::len word list \<Rightarrow> nat \<Rightarrow> 'a word" where
  "theta_d A x = column_parity A ((x + 4) mod 5) XOR word_rotl 1 (column_parity A ((x + 1) mod 5))"

lemma rho_offsets:
  "map (rho_offset 64) [0..<25] =
     [0, 1, 62, 28, 27, 36, 44, 6, 55, 20, 3, 10, 43, 25, 39, 41, 45, 15, 21, 8, 18, 2, 61, 56, 14]"
  by code_simp

lemma word_rotl_mod: "word_rotl (n mod LENGTH('a)) (x :: 'a::len word) = word_rotl n x"
  by (rule bit_word_eqI) (simp add: bit_simps)

lemma rho_offset_mod: "w dvd 64 \<Longrightarrow> rho_offset w i = rho_offset 64 i mod w"
  by (simp add: rho_offset_def mod_mod_cancel split: option.split)

lemma rho_rotl:
  "LENGTH('a) dvd 64 \<Longrightarrow>
     word_rotl (rho_offset LENGTH('a) i) (x :: 'a::len word) = word_rotl (rho_offset 64 i) x"
  by (simp only: rho_offset_mod word_rotl_mod)

lemma upt_25:
  "[0..<25] = [0, 1, 2, 3, 4, 5, 6, 7, 8, 9, 10, 11, 12, 13, 14, 15, 16, 17, 18, 19, 20, 21, 22, 23, 24]"
  by (simp add: upt_rec)


lemma word_rotl_zero: "word_rotl 0 (x :: 'a::len word) = x"
  by (rule bit_word_eqI) (simp add: bit_simps)

lemma rho_offset_64:
  "rho_offset 64 0 = 0" "rho_offset 64 1 = 1" "rho_offset 64 2 = 62" "rho_offset 64 3 = 28"
  "rho_offset 64 4 = 27" "rho_offset 64 5 = 36" "rho_offset 64 6 = 44" "rho_offset 64 7 = 6"
  "rho_offset 64 8 = 55" "rho_offset 64 9 = 20" "rho_offset 64 10 = 3" "rho_offset 64 11 = 10"
  "rho_offset 64 12 = 43" "rho_offset 64 13 = 25" "rho_offset 64 14 = 39" "rho_offset 64 15 = 41"
  "rho_offset 64 16 = 45" "rho_offset 64 17 = 15" "rho_offset 64 18 = 21" "rho_offset 64 19 = 8"
  "rho_offset 64 20 = 18" "rho_offset 64 21 = 2" "rho_offset 64 22 = 61" "rho_offset 64 23 = 56"
  "rho_offset 64 24 = 14"
  using rho_offsets by (simp_all add: upt_25)

lemma nth_theta: "i < 25 \<Longrightarrow> theta A ! i = A ! i XOR theta_d A (i mod 5)"
  by (simp add: theta_def theta_d_def xor.assoc mod_add_left_eq mod_Suc_eq)

lemma nth_rho:
  "i < 25 \<Longrightarrow> LENGTH('a) dvd 64 \<Longrightarrow>
     rho A ! i = word_rotl (rho_offset 64 i) (A ! i :: 'a::len word)"
  by (simp add: rho_def rho_rotl)

lemma pi_25:
  "pi A = [A ! 0, A ! 6, A ! 12, A ! 18, A ! 24, A ! 3, A ! 9, A ! 10, A ! 16, A ! 22,
     A ! 1, A ! 7, A ! 13, A ! 19, A ! 20, A ! 4, A ! 5, A ! 11, A ! 17, A ! 23,
     A ! 2, A ! 8, A ! 14, A ! 15, A ! 21]"
  by (simp add: pi_def upt_25)

lemma pi_rho_theta:
  assumes "LENGTH('a::len) dvd 64"
  shows "pi (rho (theta (A :: 'a word list))) =
     [word_rotl 0 (A ! 0 XOR theta_d A 0), word_rotl 44 (A ! 6 XOR theta_d A 1),
      word_rotl 43 (A ! 12 XOR theta_d A 2), word_rotl 21 (A ! 18 XOR theta_d A 3),
      word_rotl 14 (A ! 24 XOR theta_d A 4), word_rotl 28 (A ! 3 XOR theta_d A 3),
      word_rotl 20 (A ! 9 XOR theta_d A 4), word_rotl 3 (A ! 10 XOR theta_d A 0),
      word_rotl 45 (A ! 16 XOR theta_d A 1), word_rotl 61 (A ! 22 XOR theta_d A 2),
      word_rotl 1 (A ! 1 XOR theta_d A 1), word_rotl 6 (A ! 7 XOR theta_d A 2),
      word_rotl 25 (A ! 13 XOR theta_d A 3), word_rotl 8 (A ! 19 XOR theta_d A 4),
      word_rotl 18 (A ! 20 XOR theta_d A 0), word_rotl 27 (A ! 4 XOR theta_d A 4),
      word_rotl 36 (A ! 5 XOR theta_d A 0), word_rotl 10 (A ! 11 XOR theta_d A 1),
      word_rotl 15 (A ! 17 XOR theta_d A 2), word_rotl 56 (A ! 23 XOR theta_d A 3),
      word_rotl 62 (A ! 2 XOR theta_d A 2), word_rotl 55 (A ! 8 XOR theta_d A 3),
      word_rotl 39 (A ! 14 XOR theta_d A 4), word_rotl 41 (A ! 15 XOR theta_d A 0),
      word_rotl 2 (A ! 21 XOR theta_d A 1)]"
  unfolding pi_25 using assms by (simp add: nth_rho nth_theta rho_offset_64 rho_offset_64(2) [simplified])

lemma chi_25:
  "chi [b0, b1, b2, b3, b4, b5, b6, b7, b8, b9, b10, b11, b12, b13, b14, b15, b16, b17, b18, b19, b20, b21, b22, b23, b24] =
     [b0 XOR (NOT b1 AND b2), b1 XOR (NOT b2 AND b3), b2 XOR (NOT b3 AND b4),
      b3 XOR (NOT b4 AND b0), b4 XOR (NOT b0 AND b1), b5 XOR (NOT b6 AND b7),
      b6 XOR (NOT b7 AND b8), b7 XOR (NOT b8 AND b9), b8 XOR (NOT b9 AND b5),
      b9 XOR (NOT b5 AND b6), b10 XOR (NOT b11 AND b12), b11 XOR (NOT b12 AND b13),
      b12 XOR (NOT b13 AND b14), b13 XOR (NOT b14 AND b10), b14 XOR (NOT b10 AND b11),
      b15 XOR (NOT b16 AND b17), b16 XOR (NOT b17 AND b18), b17 XOR (NOT b18 AND b19),
      b18 XOR (NOT b19 AND b15), b19 XOR (NOT b15 AND b16), b20 XOR (NOT b21 AND b22),
      b21 XOR (NOT b22 AND b23), b22 XOR (NOT b23 AND b24), b23 XOR (NOT b24 AND b20),
      b24 XOR (NOT b20 AND b21)]"
  by (simp add: chi_def upt_25)

lemma nth_store_lanes:
  "store_lanes (Lanes b0 b1 b2 b3 b4 b5 b6 b7 b8 b9 b10 b11 b12 b13 b14 b15 b16 b17 b18 b19 b20 b21 b22 b23 b24) ! 0 = b0"
  "store_lanes (Lanes b0 b1 b2 b3 b4 b5 b6 b7 b8 b9 b10 b11 b12 b13 b14 b15 b16 b17 b18 b19 b20 b21 b22 b23 b24) ! 1 = b1"
  "store_lanes (Lanes b0 b1 b2 b3 b4 b5 b6 b7 b8 b9 b10 b11 b12 b13 b14 b15 b16 b17 b18 b19 b20 b21 b22 b23 b24) ! 2 = b2"
  "store_lanes (Lanes b0 b1 b2 b3 b4 b5 b6 b7 b8 b9 b10 b11 b12 b13 b14 b15 b16 b17 b18 b19 b20 b21 b22 b23 b24) ! 3 = b3"
  "store_lanes (Lanes b0 b1 b2 b3 b4 b5 b6 b7 b8 b9 b10 b11 b12 b13 b14 b15 b16 b17 b18 b19 b20 b21 b22 b23 b24) ! 4 = b4"
  "store_lanes (Lanes b0 b1 b2 b3 b4 b5 b6 b7 b8 b9 b10 b11 b12 b13 b14 b15 b16 b17 b18 b19 b20 b21 b22 b23 b24) ! 5 = b5"
  "store_lanes (Lanes b0 b1 b2 b3 b4 b5 b6 b7 b8 b9 b10 b11 b12 b13 b14 b15 b16 b17 b18 b19 b20 b21 b22 b23 b24) ! 6 = b6"
  "store_lanes (Lanes b0 b1 b2 b3 b4 b5 b6 b7 b8 b9 b10 b11 b12 b13 b14 b15 b16 b17 b18 b19 b20 b21 b22 b23 b24) ! 7 = b7"
  "store_lanes (Lanes b0 b1 b2 b3 b4 b5 b6 b7 b8 b9 b10 b11 b12 b13 b14 b15 b16 b17 b18 b19 b20 b21 b22 b23 b24) ! 8 = b8"
  "store_lanes (Lanes b0 b1 b2 b3 b4 b5 b6 b7 b8 b9 b10 b11 b12 b13 b14 b15 b16 b17 b18 b19 b20 b21 b22 b23 b24) ! 9 = b9"
  "store_lanes (Lanes b0 b1 b2 b3 b4 b5 b6 b7 b8 b9 b10 b11 b12 b13 b14 b15 b16 b17 b18 b19 b20 b21 b22 b23 b24) ! 10 = b10"
  "store_lanes (Lanes b0 b1 b2 b3 b4 b5 b6 b7 b8 b9 b10 b11 b12 b13 b14 b15 b16 b17 b18 b19 b20 b21 b22 b23 b24) ! 11 = b11"
  "store_lanes (Lanes b0 b1 b2 b3 b4 b5 b6 b7 b8 b9 b10 b11 b12 b13 b14 b15 b16 b17 b18 b19 b20 b21 b22 b23 b24) ! 12 = b12"
  "store_lanes (Lanes b0 b1 b2 b3 b4 b5 b6 b7 b8 b9 b10 b11 b12 b13 b14 b15 b16 b17 b18 b19 b20 b21 b22 b23 b24) ! 13 = b13"
  "store_lanes (Lanes b0 b1 b2 b3 b4 b5 b6 b7 b8 b9 b10 b11 b12 b13 b14 b15 b16 b17 b18 b19 b20 b21 b22 b23 b24) ! 14 = b14"
  "store_lanes (Lanes b0 b1 b2 b3 b4 b5 b6 b7 b8 b9 b10 b11 b12 b13 b14 b15 b16 b17 b18 b19 b20 b21 b22 b23 b24) ! 15 = b15"
  "store_lanes (Lanes b0 b1 b2 b3 b4 b5 b6 b7 b8 b9 b10 b11 b12 b13 b14 b15 b16 b17 b18 b19 b20 b21 b22 b23 b24) ! 16 = b16"
  "store_lanes (Lanes b0 b1 b2 b3 b4 b5 b6 b7 b8 b9 b10 b11 b12 b13 b14 b15 b16 b17 b18 b19 b20 b21 b22 b23 b24) ! 17 = b17"
  "store_lanes (Lanes b0 b1 b2 b3 b4 b5 b6 b7 b8 b9 b10 b11 b12 b13 b14 b15 b16 b17 b18 b19 b20 b21 b22 b23 b24) ! 18 = b18"
  "store_lanes (Lanes b0 b1 b2 b3 b4 b5 b6 b7 b8 b9 b10 b11 b12 b13 b14 b15 b16 b17 b18 b19 b20 b21 b22 b23 b24) ! 19 = b19"
  "store_lanes (Lanes b0 b1 b2 b3 b4 b5 b6 b7 b8 b9 b10 b11 b12 b13 b14 b15 b16 b17 b18 b19 b20 b21 b22 b23 b24) ! 20 = b20"
  "store_lanes (Lanes b0 b1 b2 b3 b4 b5 b6 b7 b8 b9 b10 b11 b12 b13 b14 b15 b16 b17 b18 b19 b20 b21 b22 b23 b24) ! 21 = b21"
  "store_lanes (Lanes b0 b1 b2 b3 b4 b5 b6 b7 b8 b9 b10 b11 b12 b13 b14 b15 b16 b17 b18 b19 b20 b21 b22 b23 b24) ! 22 = b22"
  "store_lanes (Lanes b0 b1 b2 b3 b4 b5 b6 b7 b8 b9 b10 b11 b12 b13 b14 b15 b16 b17 b18 b19 b20 b21 b22 b23 b24) ! 23 = b23"
  "store_lanes (Lanes b0 b1 b2 b3 b4 b5 b6 b7 b8 b9 b10 b11 b12 b13 b14 b15 b16 b17 b18 b19 b20 b21 b22 b23 b24) ! 24 = b24"
  by simp_all

lemma theta_d_simps:
  "theta_d A 0
     = (A ! 4 XOR A ! 9 XOR A ! 14 XOR A ! 19 XOR A ! 24) XOR word_rotl 1 (A ! 1 XOR A ! 6 XOR A ! 11 XOR A ! 16 XOR A ! 21)"
  "theta_d A 1
     = (A ! 0 XOR A ! 5 XOR A ! 10 XOR A ! 15 XOR A ! 20) XOR word_rotl 1 (A ! 2 XOR A ! 7 XOR A ! 12 XOR A ! 17 XOR A ! 22)"
  "theta_d A 2
     = (A ! 1 XOR A ! 6 XOR A ! 11 XOR A ! 16 XOR A ! 21) XOR word_rotl 1 (A ! 3 XOR A ! 8 XOR A ! 13 XOR A ! 18 XOR A ! 23)"
  "theta_d A 3
     = (A ! 2 XOR A ! 7 XOR A ! 12 XOR A ! 17 XOR A ! 22) XOR word_rotl 1 (A ! 4 XOR A ! 9 XOR A ! 14 XOR A ! 19 XOR A ! 24)"
  "theta_d A 4
     = (A ! 3 XOR A ! 8 XOR A ! 13 XOR A ! 18 XOR A ! 23) XOR word_rotl 1 (A ! 0 XOR A ! 5 XOR A ! 10 XOR A ! 15 XOR A ! 20)"
  by (simp_all add: theta_d_def column_parity_def numeral_2_eq_2)


lemma store_round_lanes:
  assumes "LENGTH('a::len) dvd 64"
  shows "store_lanes (round_lanes (round_constant l ir) A) =
    keccak_round l ir (store_lanes (A :: 'a word lanes))"
proof (cases A)
  case (Lanes a0 a1 a2 a3 a4 a5 a6 a7 a8 a9 a10 a11 a12 a13 a14 a15 a16
       a17 a18 a19 a20 a21 a22 a23 a24)
  show ?thesis
    unfolding keccak_round_def iota_def pi_rho_theta [OF assms] chi_25 theta_d_simps
    unfolding Lanes nth_store_lanes
    by (simp only: round_lanes_def Let_def lanes.case store_lanes.simps
        list_update_code nth_Cons_0 word_rotl_zero xor.assoc)
qed
lemma store_load_lanes:
  assumes "length s = 25"
  shows "store_lanes (load_lanes s) = s"
proof -
  have "map ((!) s) [0..<25] = s" using map_nth [of s] assms by simp
  then show ?thesis by (simp add: upt_25)
qed

end
