(* ===== verification/Keccak_F800.thy ===== *)
theory Keccak_F800
  imports Keccak_Lanes
begin

text \<open>
  The 32-bit permutation of \<^verbatim>\<open>ethash/lib/keccak/keccakf800.c\<close>, a translation of the 64-bit routine
  with the offsets reduced modulo 32 and 22 rounds. The theory shows that the translation is the
  standard's Keccak-f[800].
\<close>

definition rol32 :: "u32 \<Rightarrow> nat \<Rightarrow> u32" where
  "rol32 x s = push_bit s x OR drop_bit (32 - s) x"

definition round_constants32 :: "u32 list" where
  "round_constants32 =
    [0x00000001, 0x00008082, 0x0000808a, 0x80008000, 0x0000808b, 0x80000001,
     0x80008081, 0x00008009, 0x0000008a, 0x00000088, 0x80008009, 0x8000000a,
     0x8000808b, 0x0000008b, 0x00008089, 0x00008003, 0x00008002, 0x00000080,
     0x0000800a, 0x8000000a, 0x80008081, 0x00008080]"

text \<open>The loop body: rounds \<open>n\<close> and \<open>n + 1\<close>.\<close>

definition keccakf800_rounds :: "nat \<Rightarrow> u32 lanes \<Rightarrow> u32 lanes" where
  "keccakf800_rounds n A = (case A of
     Lanes Aba Abe Abi Abo Abu Aga Age Agi Ago Agu
           Aka Ake Aki Ako Aku Ama Ame Ami Amo Amu Asa Ase Asi Aso Asu \<Rightarrow>
     (let
        \<comment> \<open>Round (n + 0): Axx to Exx\<close>
        Ba = Aba XOR Aga XOR Aka XOR Ama XOR Asa;
        Be = Abe XOR Age XOR Ake XOR Ame XOR Ase;
        Bi = Abi XOR Agi XOR Aki XOR Ami XOR Asi;
        Bo = Abo XOR Ago XOR Ako XOR Amo XOR Aso;
        Bu = Abu XOR Agu XOR Aku XOR Amu XOR Asu;
        Da = Bu XOR rol32 Be 1;
        De = Ba XOR rol32 Bi 1;
        Di = Be XOR rol32 Bo 1;
        Do = Bi XOR rol32 Bu 1;
        Du = Bo XOR rol32 Ba 1;
        Ba = Aba XOR Da;
        Be = rol32 (Age XOR De) 12;
        Bi = rol32 (Aki XOR Di) 11;
        Bo = rol32 (Amo XOR Do) 21;
        Bu = rol32 (Asu XOR Du) 14;
        Eba = Ba XOR (NOT Be AND Bi) XOR round_constants32 ! n;
        Ebe = Be XOR (NOT Bi AND Bo);
        Ebi = Bi XOR (NOT Bo AND Bu);
        Ebo = Bo XOR (NOT Bu AND Ba);
        Ebu = Bu XOR (NOT Ba AND Be);
        Ba = rol32 (Abo XOR Do) 28;
        Be = rol32 (Agu XOR Du) 20;
        Bi = rol32 (Aka XOR Da) 3;
        Bo = rol32 (Ame XOR De) 13;
        Bu = rol32 (Asi XOR Di) 29;
        Ega = Ba XOR (NOT Be AND Bi);
        Ege = Be XOR (NOT Bi AND Bo);
        Egi = Bi XOR (NOT Bo AND Bu);
        Ego = Bo XOR (NOT Bu AND Ba);
        Egu = Bu XOR (NOT Ba AND Be);
        Ba = rol32 (Abe XOR De) 1;
        Be = rol32 (Agi XOR Di) 6;
        Bi = rol32 (Ako XOR Do) 25;
        Bo = rol32 (Amu XOR Du) 8;
        Bu = rol32 (Asa XOR Da) 18;
        Eka = Ba XOR (NOT Be AND Bi);
        Eke = Be XOR (NOT Bi AND Bo);
        Eki = Bi XOR (NOT Bo AND Bu);
        Eko = Bo XOR (NOT Bu AND Ba);
        Eku = Bu XOR (NOT Ba AND Be);
        Ba = rol32 (Abu XOR Du) 27;
        Be = rol32 (Aga XOR Da) 4;
        Bi = rol32 (Ake XOR De) 10;
        Bo = rol32 (Ami XOR Di) 15;
        Bu = rol32 (Aso XOR Do) 24;
        Ema = Ba XOR (NOT Be AND Bi);
        Eme = Be XOR (NOT Bi AND Bo);
        Emi = Bi XOR (NOT Bo AND Bu);
        Emo = Bo XOR (NOT Bu AND Ba);
        Emu = Bu XOR (NOT Ba AND Be);
        Ba = rol32 (Abi XOR Di) 30;
        Be = rol32 (Ago XOR Do) 23;
        Bi = rol32 (Aku XOR Du) 7;
        Bo = rol32 (Ama XOR Da) 9;
        Bu = rol32 (Ase XOR De) 2;
        Esa = Ba XOR (NOT Be AND Bi);
        Ese = Be XOR (NOT Bi AND Bo);
        Esi = Bi XOR (NOT Bo AND Bu);
        Eso = Bo XOR (NOT Bu AND Ba);
        Esu = Bu XOR (NOT Ba AND Be);
        \<comment> \<open>Round (n + 1): Exx to Axx\<close>
        Ba = Eba XOR Ega XOR Eka XOR Ema XOR Esa;
        Be = Ebe XOR Ege XOR Eke XOR Eme XOR Ese;
        Bi = Ebi XOR Egi XOR Eki XOR Emi XOR Esi;
        Bo = Ebo XOR Ego XOR Eko XOR Emo XOR Eso;
        Bu = Ebu XOR Egu XOR Eku XOR Emu XOR Esu;
        Da = Bu XOR rol32 Be 1;
        De = Ba XOR rol32 Bi 1;
        Di = Be XOR rol32 Bo 1;
        Do = Bi XOR rol32 Bu 1;
        Du = Bo XOR rol32 Ba 1;
        Ba = Eba XOR Da;
        Be = rol32 (Ege XOR De) 12;
        Bi = rol32 (Eki XOR Di) 11;
        Bo = rol32 (Emo XOR Do) 21;
        Bu = rol32 (Esu XOR Du) 14;
        Aba = Ba XOR (NOT Be AND Bi) XOR round_constants32 ! (n + 1);
        Abe = Be XOR (NOT Bi AND Bo);
        Abi = Bi XOR (NOT Bo AND Bu);
        Abo = Bo XOR (NOT Bu AND Ba);
        Abu = Bu XOR (NOT Ba AND Be);
        Ba = rol32 (Ebo XOR Do) 28;
        Be = rol32 (Egu XOR Du) 20;
        Bi = rol32 (Eka XOR Da) 3;
        Bo = rol32 (Eme XOR De) 13;
        Bu = rol32 (Esi XOR Di) 29;
        Aga = Ba XOR (NOT Be AND Bi);
        Age = Be XOR (NOT Bi AND Bo);
        Agi = Bi XOR (NOT Bo AND Bu);
        Ago = Bo XOR (NOT Bu AND Ba);
        Agu = Bu XOR (NOT Ba AND Be);
        Ba = rol32 (Ebe XOR De) 1;
        Be = rol32 (Egi XOR Di) 6;
        Bi = rol32 (Eko XOR Do) 25;
        Bo = rol32 (Emu XOR Du) 8;
        Bu = rol32 (Esa XOR Da) 18;
        Aka = Ba XOR (NOT Be AND Bi);
        Ake = Be XOR (NOT Bi AND Bo);
        Aki = Bi XOR (NOT Bo AND Bu);
        Ako = Bo XOR (NOT Bu AND Ba);
        Aku = Bu XOR (NOT Ba AND Be);
        Ba = rol32 (Ebu XOR Du) 27;
        Be = rol32 (Ega XOR Da) 4;
        Bi = rol32 (Eke XOR De) 10;
        Bo = rol32 (Emi XOR Di) 15;
        Bu = rol32 (Eso XOR Do) 24;
        Ama = Ba XOR (NOT Be AND Bi);
        Ame = Be XOR (NOT Bi AND Bo);
        Ami = Bi XOR (NOT Bo AND Bu);
        Amo = Bo XOR (NOT Bu AND Ba);
        Amu = Bu XOR (NOT Ba AND Be);
        Ba = rol32 (Ebi XOR Di) 30;
        Be = rol32 (Ego XOR Do) 23;
        Bi = rol32 (Eku XOR Du) 7;
        Bo = rol32 (Ema XOR Da) 9;
        Bu = rol32 (Ese XOR De) 2;
        Asa = Ba XOR (NOT Be AND Bi);
        Ase = Be XOR (NOT Bi AND Bo);
        Asi = Bi XOR (NOT Bo AND Bu);
        Aso = Bo XOR (NOT Bu AND Ba);
        Asu = Bu XOR (NOT Ba AND Be)
      in Lanes Aba Abe Abi Abo Abu Aga Age Agi Ago Agu
               Aka Ake Aki Ako Aku Ama Ame Ami Amo Amu Asa Ase Asi Aso Asu))"

function keccakf800_loop :: "nat \<Rightarrow> u32 lanes \<Rightarrow> u32 lanes" where
  "keccakf800_loop n A =
     (if n < 22 then keccakf800_loop (n + 2) (keccakf800_rounds n A) else A)"
  by pat_completeness auto
termination
  by (relation "measure (\<lambda>(n, A). 22 - n)") auto

declare keccakf800_loop.simps [simp del]

definition ethash_keccakf800 :: "u32 list \<Rightarrow> u32 list" where
  "ethash_keccakf800 state = store_lanes (keccakf800_loop 0 (load_lanes state))"

section \<open>The permutation is Keccak-f[800]\<close>

lemma rol32_word_rotl:
  assumes "0 < s" and "s < 32"
  shows "rol32 x s = word_rotl s x"
proof (rule bit_word_eqI)
  fix n assume n: "n < LENGTH(32)"
  have "(n + (32 - s)) mod 32 = (if n < s then 32 + n - s else n - s)"
    using n assms by (auto simp: mod_if)
  then show "bit (rol32 x s) n = bit (word_rotl s x) n"
    using n assms by (auto simp: rol32_def bit_simps dest: bit_imp_le_length)
qed

text \<open>The offsets of the 64-bit routine, reduced.\<close>

lemma word_rotl_reduce:
  fixes x :: u32
  shows "word_rotl 36 x = word_rotl 4 x" "word_rotl 39 x = word_rotl 7 x"
    "word_rotl 41 x = word_rotl 9 x" "word_rotl 43 x = word_rotl 11 x"
    "word_rotl 44 x = word_rotl 12 x" "word_rotl 45 x = word_rotl 13 x"
    "word_rotl 55 x = word_rotl 23 x" "word_rotl 56 x = word_rotl 24 x"
    "word_rotl 61 x = word_rotl 29 x" "word_rotl 62 x = word_rotl 30 x"
  using word_rotl_mod [of 36 x] word_rotl_mod [of 39 x] word_rotl_mod [of 41 x] word_rotl_mod [of 43 x]
    word_rotl_mod [of 44 x] word_rotl_mod [of 45 x] word_rotl_mod [of 55 x] word_rotl_mod [of 56 x]
    word_rotl_mod [of 61 x] word_rotl_mod [of 62 x]
  by simp_all

lemma round_constants32_table: "map (round_constant_table 5) [0..<22] = round_constants32"
  by code_simp

lemma nth_round_constants32: "ir < 22 \<Longrightarrow> round_constants32 ! ir = round_constant 5 ir"
  by (simp add: round_constant_table flip: round_constants32_table)

lemma keccakf800_rounds_lanes:
  "keccakf800_rounds n A =
     round_lanes (round_constants32 ! (n + 1)) (round_lanes (round_constants32 ! n) A)"
  by (cases A) (simp only: keccakf800_rounds_def round_lanes_def Let_def lanes.case rol32_word_rotl
      word_rotl_reduce zero_less_numeral zero_less_one one_less_numeral_iff semiring_norm
      numeral_less_iff xor.assoc)

lemma keccakf800_rounds_spec:
  assumes "n + 1 < 22"
  shows "store_lanes (keccakf800_rounds n A) =
    keccak_round 5 (n + 1) (keccak_round 5 n (store_lanes A))"
  using assms
  by (simp add: keccakf800_rounds_lanes nth_round_constants32 store_round_lanes del: One_nat_def)

lemma keccakf800_loop_spec:
  "even n \<Longrightarrow> store_lanes (keccakf800_loop n A) = fold (keccak_round 5) [n..<22] (store_lanes A)"
proof (induction n A rule: keccakf800_loop.induct)
  case (1 n A)
  show ?case
  proof (cases "n < 22")
    case True
    with "1.prems" have n: "n + 1 < 22" by presburger
    then have "[n..<22] = n # (n + 1) # [n + 2..<22]"
      by (simp add: upt_conv_Cons)
    then show ?thesis
      using "1.IH" [OF True] "1.prems" True keccakf800_rounds_spec [OF n, of A]
      by (subst keccakf800_loop.simps) simp
  next
    case False
    then show ?thesis by (subst keccakf800_loop.simps) simp
  qed
qed

text \<open>
  C3. On every state of 25 words of 32 bits the routine computes the standard's permutation
  Keccak-f[800], with its 22 rounds and its truncated round constants.
\<close>

theorem keccakf800_correct:
  assumes "length state = 25"
  shows "ethash_keccakf800 state = keccak_f 5 state"
  using assms
  by (simp add: ethash_keccakf800_def keccak_f_def keccakf800_loop_spec store_load_lanes
      del: load_lanes.simps upt_Suc)

theorem keccakf800_correct_witness:
  "ethash_keccakf800 ([1] @ replicate 24 0) = keccak_f 5 ([1] @ replicate 24 0)"
  by (rule keccakf800_correct) simp

end
