(* ===== verification/Hash_Types.thy ===== *)
theory Hash_Types
  imports Prelude
begin

text \<open>
  The hash unions of \<^verbatim>\<open>ethash/include/ethash/hash_types.h\<close> and the byte-order helpers of
  \<^verbatim>\<open>ethash/lib/ethash/endianness.hpp\<close>. A union object is its bytes; the members \<open>word32s\<close> and
  \<open>word64s\<close> are views that depend on the byte order of the host, so every definition that looks
  at words takes the byte order as an argument and covers both branches of the \<^verbatim>\<open>#if\<close>.
\<close>

section \<open>The unions\<close>

type_synonym hash256 = "u8 list"
type_synonym hash512 = "u8 list"
type_synonym hash1024 = "u8 list"
type_synonym hash2048 = "u8 list"

definition word32s :: "byte_order \<Rightarrow> u8 list \<Rightarrow> u32 list" where
  "word32s bo h = map (load32 bo) (chunks 4 h)"

definition word64s :: "byte_order \<Rightarrow> u8 list \<Rightarrow> u64 list" where
  "word64s bo h = map (load64 bo) (chunks 8 h)"

text \<open>The object whose \<open>word32s\<close> (\<open>word64s\<close>) member holds the given words.\<close>

definition of_word32s :: "byte_order \<Rightarrow> u32 list \<Rightarrow> u8 list" where
  "of_word32s bo ws = concat (map (store32 bo) ws)"

definition of_word64s :: "byte_order \<Rightarrow> u64 list \<Rightarrow> u8 list" where
  "of_word64s bo ws = concat (map (store64 bo) ws)"

text \<open>The value-initialised object \<open>{}\<close> of \<open>n\<close> bytes.\<close>

definition zero_hash :: "nat \<Rightarrow> u8 list" where
  "zero_hash n = replicate n 0"

lemma length_zero_hash [simp, len_simps]: "length (zero_hash n) = n"
  by (simp add: zero_hash_def)

lemma length_of_word32s [simp, len_simps]: "length (of_word32s bo ws) = 4 * length ws"
  by (induction ws) (simp_all add: of_word32s_def)

lemma length_of_word64s [simp, len_simps]: "length (of_word64s bo ws) = 8 * length ws"
  by (induction ws) (simp_all add: of_word64s_def)

lemma length_word32s [len_simps]: "length h = 4 * k \<Longrightarrow> length (word32s bo h) = k"
  using chunks_lengths [of 4 h k] by (simp add: word32s_def)

lemma length_word64s [len_simps]: "length h = 8 * k \<Longrightarrow> length (word64s bo h) = k"
  using chunks_lengths [of 8 h k] by (simp add: word64s_def)

lemma word32s_of_word32s [simp]: "word32s bo (of_word32s bo ws) = ws"
proof -
  have "chunks 4 (concat (map (store32 bo) ws)) = map (store32 bo) ws"
    by (rule chunks_concat) auto
  then show ?thesis by (simp add: word32s_def of_word32s_def comp_def)
qed

lemma word64s_of_word64s [simp]: "word64s bo (of_word64s bo ws) = ws"
proof -
  have "chunks 8 (concat (map (store64 bo) ws)) = map (store64 bo) ws"
    by (rule chunks_concat) auto
  then show ?thesis by (simp add: word64s_def of_word64s_def comp_def)
qed

lemma of_word32s_word32s:
  assumes "length h = 4 * k"
  shows "of_word32s bo (word32s bo h) = h"
proof -
  have "\<forall>ys \<in> set (chunks 4 h). length ys = 4"
    using chunks_lengths [of 4 h k] assms by simp
  then have "map (store32 bo) (map (load32 bo) (chunks 4 h)) = chunks 4 h"
    by (simp add: map_idI)
  then show ?thesis by (simp add: of_word32s_def word32s_def)
qed

lemma of_word64s_word64s:
  assumes "length h = 8 * k"
  shows "of_word64s bo (word64s bo h) = h"
proof -
  have "\<forall>ys \<in> set (chunks 8 h). length ys = 8"
    using chunks_lengths [of 8 h k] assms by simp
  then have "map (store64 bo) (map (load64 bo) (chunks 8 h)) = chunks 8 h"
    by (simp add: map_idI)
  then show ?thesis by (simp add: of_word64s_def word64s_def)
qed

lemma of_word32s_append: "of_word32s bo (xs @ ys) = of_word32s bo xs @ of_word32s bo ys"
  by (simp add: of_word32s_def)

lemma word32s_append:
  assumes "length g = 4 * k"
  shows "word32s bo (g @ h) = word32s bo g @ word32s bo h"
proof -
  have "chunks 4 (g @ h) = chunks 4 g @ chunks 4 h"
    using assms
  proof (induction k arbitrary: g)
    case 0
    then show ?case by simp
  next
    case (Suc k)
    have g: "g = take 4 g @ drop 4 g" and l: "length (take 4 g) = 4"
      and d: "length (drop 4 g) = 4 * k" using Suc.prems by simp_all
    have "chunks 4 (g @ h) = chunks 4 (take 4 g @ (drop 4 g @ h))"
      by (metis append_assoc append_take_drop_id)
    also have "\<dots> = take 4 g # (chunks 4 (drop 4 g) @ chunks 4 h)"
      using chunks_append [OF l, of "drop 4 g @ h"] Suc.IH [OF d] by simp
    also have "\<dots> = chunks 4 g @ chunks 4 h"
      using chunks_append [OF l, of "drop 4 g"] by simp
    finally show ?case .
  qed
  then show ?thesis by (simp add: word32s_def)
qed

section \<open>endianness.hpp\<close>

definition le_uint32 :: "byte_order \<Rightarrow> u32 \<Rightarrow> u32" where
  "le_uint32 bo x = (case bo of Little_Endian \<Rightarrow> x | Big_Endian \<Rightarrow> bswap32 x)"

definition le_uint64 :: "byte_order \<Rightarrow> u64 \<Rightarrow> u64" where
  "le_uint64 bo x = (case bo of Little_Endian \<Rightarrow> x | Big_Endian \<Rightarrow> bswap64 x)"

definition le_uint32s :: "byte_order \<Rightarrow> u8 list \<Rightarrow> u8 list" where
  "le_uint32s bo h =
     (case bo of
        Little_Endian \<Rightarrow> h
      | Big_Endian \<Rightarrow> of_word32s bo (map (le_uint32 bo) (word32s bo h)))"

definition be_uint64 :: "byte_order \<Rightarrow> u64 \<Rightarrow> u64" where
  "be_uint64 bo x = (case bo of Little_Endian \<Rightarrow> bswap64 x | Big_Endian \<Rightarrow> x)"

lemma length_le_uint32s [len_simps]: "length h = 4 * k \<Longrightarrow> length (le_uint32s bo h) = 4 * k"
  by (simp add: le_uint32s_def length_word32s split: byte_order.split)

lemma le_uint32_load32 [endian_simps]:
  "length bs = 4 \<Longrightarrow> le_uint32 bo (load32 bo bs) = load32 Little_Endian bs"
  by (simp add: le_uint32_def bswap_load split: byte_order.split)

lemma le_uint64_store [endian_simps]: "store64 bo (le_uint64 bo w) = store64 Little_Endian w"
  by (simp add: le_uint64_def store_bswap split: byte_order.split)

lemma be_uint64_load64 [endian_simps]:
  "length bs = 8 \<Longrightarrow> be_uint64 bo (load64 bo bs) = load64 Big_Endian bs"
  using bswap_load(2) [of bs] by (simp add: be_uint64_def split: byte_order.split) (metis bswap64_bswap64)

lemma map_le_uint32_word32s [endian_simps]:
  assumes "length h = 4 * k"
  shows "map (le_uint32 bo) (word32s bo h) = word32s Little_Endian h"
  using chunks_lengths [of 4 h k] assms
  by (simp add: word32s_def endian_simps)

lemma word32s_le_uint32s [endian_simps]:
  "length h = 4 * k \<Longrightarrow> word32s bo (le_uint32s bo h) = word32s Little_Endian h"
  by (simp add: le_uint32s_def endian_simps split: byte_order.split)

lemma le_uint32s_of_word32s [endian_simps]:
  "le_uint32s bo (of_word32s bo ws) = of_word32s Little_Endian ws"
proof (cases bo)
  case Big_Endian
  have "concat (map (\<lambda>w. store32 Big_Endian (le_uint32 Big_Endian w)) ws) =
        concat (map (store32 Little_Endian) ws)"
    by (simp add: le_uint32_def store_bswap)
  then show ?thesis using Big_Endian by (simp add: le_uint32s_def of_word32s_def [of _ "map _ _"] comp_def) (simp add: of_word32s_def)
qed (simp add: le_uint32s_def)

end
