(* ===== verification/Keccak_F1600.thy ===== *)
theory Keccak_F1600
  imports Keccak_Lanes
begin

text \<open>
  The permutation of \<^verbatim>\<open>ethash/lib/keccak/keccak.c\<close>: the unrolled routine
  \<open>keccakf1600_implementation\<close>, which keeps the 25 lanes in local variables and does two rounds per
  loop iteration (\<open>Axx\<close> to \<open>Exx\<close>, then \<open>Exx\<close> to \<open>Axx\<close>). The theory shows that it computes the
  standard's Keccak-f[1600], that the table of round constants is the one the standard generates,
  and that the rotation helper never shifts by the width of the word.
\<close>

section \<open>The C routine\<close>

text \<open>\<open>rol\<close>: both shifts are defined only for \<open>0 < s < 64\<close>; every call in this file is in range.\<close>

definition rol :: "u64 \<Rightarrow> nat \<Rightarrow> u64" where
  "rol x s = push_bit s x OR drop_bit (64 - s) x"

definition round_constants :: "u64 list" where
  "round_constants =
    [0x0000000000000001, 0x0000000000008082, 0x800000000000808a, 0x8000000080008000,
     0x000000000000808b, 0x0000000080000001, 0x8000000080008081, 0x8000000000008009,
     0x000000000000008a, 0x0000000000000088, 0x0000000080008009, 0x000000008000000a,
     0x000000008000808b, 0x800000000000008b, 0x8000000000008089, 0x8000000000008003,
     0x8000000000008002, 0x8000000000000080, 0x000000000000800a, 0x800000008000000a,
     0x8000000080008081, 0x8000000000008080, 0x0000000080000001, 0x8000000080008008]"

text \<open>The loop body: rounds \<open>n\<close> and \<open>n + 1\<close>.\<close>

definition keccakf1600_rounds :: "nat \<Rightarrow> u64 lanes \<Rightarrow> u64 lanes" where
  "keccakf1600_rounds n A = (case A of
     Lanes Aba Abe Abi Abo Abu Aga Age Agi Ago Agu
           Aka Ake Aki Ako Aku Ama Ame Ami Amo Amu Asa Ase Asi Aso Asu \<Rightarrow>
     (let
        \<comment> \<open>Round (n + 0): Axx to Exx\<close>
        Ba = Aba XOR Aga XOR Aka XOR Ama XOR Asa;
        Be = Abe XOR Age XOR Ake XOR Ame XOR Ase;
        Bi = Abi XOR Agi XOR Aki XOR Ami XOR Asi;
        Bo = Abo XOR Ago XOR Ako XOR Amo XOR Aso;
        Bu = Abu XOR Agu XOR Aku XOR Amu XOR Asu;
        Da = Bu XOR rol Be 1;
        De = Ba XOR rol Bi 1;
        Di = Be XOR rol Bo 1;
        Do = Bi XOR rol Bu 1;
        Du = Bo XOR rol Ba 1;
        Ba = Aba XOR Da;
        Be = rol (Age XOR De) 44;
        Bi = rol (Aki XOR Di) 43;
        Bo = rol (Amo XOR Do) 21;
        Bu = rol (Asu XOR Du) 14;
        Eba = Ba XOR (NOT Be AND Bi) XOR round_constants ! n;
        Ebe = Be XOR (NOT Bi AND Bo);
        Ebi = Bi XOR (NOT Bo AND Bu);
        Ebo = Bo XOR (NOT Bu AND Ba);
        Ebu = Bu XOR (NOT Ba AND Be);
        Ba = rol (Abo XOR Do) 28;
        Be = rol (Agu XOR Du) 20;
        Bi = rol (Aka XOR Da) 3;
        Bo = rol (Ame XOR De) 45;
        Bu = rol (Asi XOR Di) 61;
        Ega = Ba XOR (NOT Be AND Bi);
        Ege = Be XOR (NOT Bi AND Bo);
        Egi = Bi XOR (NOT Bo AND Bu);
        Ego = Bo XOR (NOT Bu AND Ba);
        Egu = Bu XOR (NOT Ba AND Be);
        Ba = rol (Abe XOR De) 1;
        Be = rol (Agi XOR Di) 6;
        Bi = rol (Ako XOR Do) 25;
        Bo = rol (Amu XOR Du) 8;
        Bu = rol (Asa XOR Da) 18;
        Eka = Ba XOR (NOT Be AND Bi);
        Eke = Be XOR (NOT Bi AND Bo);
        Eki = Bi XOR (NOT Bo AND Bu);
        Eko = Bo XOR (NOT Bu AND Ba);
        Eku = Bu XOR (NOT Ba AND Be);
        Ba = rol (Abu XOR Du) 27;
        Be = rol (Aga XOR Da) 36;
        Bi = rol (Ake XOR De) 10;
        Bo = rol (Ami XOR Di) 15;
        Bu = rol (Aso XOR Do) 56;
        Ema = Ba XOR (NOT Be AND Bi);
        Eme = Be XOR (NOT Bi AND Bo);
        Emi = Bi XOR (NOT Bo AND Bu);
        Emo = Bo XOR (NOT Bu AND Ba);
        Emu = Bu XOR (NOT Ba AND Be);
        Ba = rol (Abi XOR Di) 62;
        Be = rol (Ago XOR Do) 55;
        Bi = rol (Aku XOR Du) 39;
        Bo = rol (Ama XOR Da) 41;
        Bu = rol (Ase XOR De) 2;
        Esa = Ba XOR (NOT Be AND Bi);
        Ese = Be XOR (NOT Bi AND Bo);
        Esi = Bi XOR (NOT Bo AND Bu);
        Eso = Bo XOR (NOT Bu AND Ba);
        Esu = Bu XOR (NOT Ba AND Be);
        \<comment> \<open>Round (n + 1): Exx to Axx\<close>
        Ba = Eba XOR Ega XOR Eka XOR Ema XOR Esa;
        Be = Ebe XOR Ege XOR Eke XOR Eme XOR Ese;
        Bi = Ebi XOR Egi XOR Eki XOR Emi XOR Esi;
        Bo = Ebo XOR Ego XOR Eko XOR Emo XOR Eso;
        Bu = Ebu XOR Egu XOR Eku XOR Emu XOR Esu;
        Da = Bu XOR rol Be 1;
        De = Ba XOR rol Bi 1;
        Di = Be XOR rol Bo 1;
        Do = Bi XOR rol Bu 1;
        Du = Bo XOR rol Ba 1;
        Ba = Eba XOR Da;
        Be = rol (Ege XOR De) 44;
        Bi = rol (Eki XOR Di) 43;
        Bo = rol (Emo XOR Do) 21;
        Bu = rol (Esu XOR Du) 14;
        Aba = Ba XOR (NOT Be AND Bi) XOR round_constants ! (n + 1);
        Abe = Be XOR (NOT Bi AND Bo);
        Abi = Bi XOR (NOT Bo AND Bu);
        Abo = Bo XOR (NOT Bu AND Ba);
        Abu = Bu XOR (NOT Ba AND Be);
        Ba = rol (Ebo XOR Do) 28;
        Be = rol (Egu XOR Du) 20;
        Bi = rol (Eka XOR Da) 3;
        Bo = rol (Eme XOR De) 45;
        Bu = rol (Esi XOR Di) 61;
        Aga = Ba XOR (NOT Be AND Bi);
        Age = Be XOR (NOT Bi AND Bo);
        Agi = Bi XOR (NOT Bo AND Bu);
        Ago = Bo XOR (NOT Bu AND Ba);
        Agu = Bu XOR (NOT Ba AND Be);
        Ba = rol (Ebe XOR De) 1;
        Be = rol (Egi XOR Di) 6;
        Bi = rol (Eko XOR Do) 25;
        Bo = rol (Emu XOR Du) 8;
        Bu = rol (Esa XOR Da) 18;
        Aka = Ba XOR (NOT Be AND Bi);
        Ake = Be XOR (NOT Bi AND Bo);
        Aki = Bi XOR (NOT Bo AND Bu);
        Ako = Bo XOR (NOT Bu AND Ba);
        Aku = Bu XOR (NOT Ba AND Be);
        Ba = rol (Ebu XOR Du) 27;
        Be = rol (Ega XOR Da) 36;
        Bi = rol (Eke XOR De) 10;
        Bo = rol (Emi XOR Di) 15;
        Bu = rol (Eso XOR Do) 56;
        Ama = Ba XOR (NOT Be AND Bi);
        Ame = Be XOR (NOT Bi AND Bo);
        Ami = Bi XOR (NOT Bo AND Bu);
        Amo = Bo XOR (NOT Bu AND Ba);
        Amu = Bu XOR (NOT Ba AND Be);
        Ba = rol (Ebi XOR Di) 62;
        Be = rol (Ego XOR Do) 55;
        Bi = rol (Eku XOR Du) 39;
        Bo = rol (Ema XOR Da) 41;
        Bu = rol (Ese XOR De) 2;
        Asa = Ba XOR (NOT Be AND Bi);
        Ase = Be XOR (NOT Bi AND Bo);
        Asi = Bi XOR (NOT Bo AND Bu);
        Aso = Bo XOR (NOT Bu AND Ba);
        Asu = Bu XOR (NOT Ba AND Be)
      in Lanes Aba Abe Abi Abo Abu Aga Age Agi Ago Agu
               Aka Ake Aki Ako Aku Ama Ame Ami Amo Amu Asa Ase Asi Aso Asu))"

function keccakf1600_loop :: "nat \<Rightarrow> u64 lanes \<Rightarrow> u64 lanes" where
  "keccakf1600_loop n A =
     (if n < 24 then keccakf1600_loop (n + 2) (keccakf1600_rounds n A) else A)"
  by pat_completeness auto
termination
  by (relation "measure (\<lambda>(n, A). 24 - n)") auto

declare keccakf1600_loop.simps [simp del]

definition keccakf1600_implementation :: "u64 list \<Rightarrow> u64 list" where
  "keccakf1600_implementation state = store_lanes (keccakf1600_loop 0 (load_lanes state))"

text \<open>
  \<open>keccakf1600_best\<close> points to the generic or to the BMI build of the same routine; the
  constructor picks the latter when the processor reports both extensions.
\<close>

definition keccakf1600_generic :: "u64 list \<Rightarrow> u64 list" where
  "keccakf1600_generic state = keccakf1600_implementation state"

definition keccakf1600_bmi :: "u64 list \<Rightarrow> u64 list" where
  "keccakf1600_bmi state = keccakf1600_implementation state"

definition select_keccakf1600_implementation :: "bool \<Rightarrow> bool \<Rightarrow> u64 list \<Rightarrow> u64 list" where
  "select_keccakf1600_implementation bmi bmi2 =
     (if bmi \<and> bmi2 then keccakf1600_bmi else keccakf1600_generic)"

section \<open>The permutation is Keccak-f[1600]\<close>

lemma rol_word_rotl:
  assumes "0 < s" and "s < 64"
  shows "rol x s = word_rotl s x"
proof (rule bit_word_eqI)
  fix n assume n: "n < LENGTH(64)"
  have "(n + (64 - s)) mod 64 = (if n < s then 64 + n - s else n - s)"
    using n assms by (auto simp: mod_if)
  then show "bit (rol x s) n = bit (word_rotl s x) n"
    using n assms by (auto simp: rol_def bit_simps dest: bit_imp_le_length)
qed

lemma round_constants_table: "map (round_constant_table 6) [0..<24] = round_constants"
  by code_simp

lemma nth_round_constants: "ir < 24 \<Longrightarrow> round_constants ! ir = round_constant 6 ir"
  by (simp add: round_constant_table flip: round_constants_table)

lemma keccakf1600_rounds_lanes:
  "keccakf1600_rounds n A =
     round_lanes (round_constants ! (n + 1)) (round_lanes (round_constants ! n) A)"
  by (cases A) (simp only: keccakf1600_rounds_def round_lanes_def Let_def lanes.case rol_word_rotl
      zero_less_numeral zero_less_one one_less_numeral_iff semiring_norm numeral_less_iff xor.assoc)

lemma keccakf1600_rounds_spec:
  assumes "n + 1 < 24"
  shows "store_lanes (keccakf1600_rounds n A) =
    keccak_round 6 (n + 1) (keccak_round 6 n (store_lanes A))"
  using assms
  by (simp add: keccakf1600_rounds_lanes nth_round_constants store_round_lanes del: One_nat_def)

lemma keccakf1600_loop_spec:
  "even n \<Longrightarrow> store_lanes (keccakf1600_loop n A) = fold (keccak_round 6) [n..<24] (store_lanes A)"
proof (induction n A rule: keccakf1600_loop.induct)
  case (1 n A)
  show ?case
  proof (cases "n < 24")
    case True
    with "1.prems" have n: "n + 1 < 24" by presburger
    then have "[n..<24] = n # (n + 1) # [n + 2..<24]"
      by (simp add: upt_conv_Cons)
    then show ?thesis
      using "1.IH" [OF True] "1.prems" True keccakf1600_rounds_spec [OF n, of A]
      by (subst keccakf1600_loop.simps) simp
  next
    case False
    then show ?thesis by (subst keccakf1600_loop.simps) simp
  qed
qed

lemma keccakf1600_implementation_spec:
  "length state = 25 \<Longrightarrow> keccakf1600_implementation state = keccak_f 6 state"
  by (simp add: keccakf1600_implementation_def keccak_f_def keccakf1600_loop_spec store_load_lanes
      del: load_lanes.simps upt_Suc)

lemma select_keccakf1600_implementation_spec:
  "length state = 25 \<Longrightarrow> select_keccakf1600_implementation bmi bmi2 state = keccak_f 6 state"
  by (simp add: select_keccakf1600_implementation_def keccakf1600_bmi_def keccakf1600_generic_def
      keccakf1600_implementation_spec)

text \<open>
  C1. On every 25-word state the routine that the constructor selects, whatever the processor
  reports, computes the standard's permutation Keccak-f[1600]: 24 rounds, each of them the five
  step mappings with the round constant that the standard's shift register generates.
\<close>

theorem keccakf1600_correct:
  assumes "length state = 25"
  shows "select_keccakf1600_implementation bmi bmi2 state = keccak_f 6 state"
  using assms by (rule select_keccakf1600_implementation_spec)

theorem keccakf1600_correct_witness:
  "select_keccakf1600_implementation True False ([1] @ replicate 24 0) =
     keccak_f 6 ([1] @ replicate 24 0)"
  by (rule keccakf1600_correct) simp

end
