(* ===== verification/Keccak_Sponge.thy ===== *)
theory Keccak_Sponge
  imports Hash_Types Keccak_F1600
begin

text \<open>
  The sponge of \<^verbatim>\<open>ethash/lib/keccak/keccak.c\<close>: the function \<open>keccak\<close> with its three loops and the
  four digests built on it. The theory shows that the loops absorb exactly the padded message of
  the standard, on hosts of either byte order.
\<close>

section \<open>The C routine\<close>

text \<open>
  What the routines read of the machine they run on: the byte order that the preprocessor tests
  and the two processor extensions that the constructor of the permutation tests.
\<close>

record host =
  host_order :: byte_order
  host_bmi :: bool
  host_bmi2 :: bool

definition keccakf1600_best :: "host \<Rightarrow> u64 list \<Rightarrow> u64 list" where
  "keccakf1600_best h = select_keccakf1600_implementation (host_bmi h) (host_bmi2 h)"

definition to_le64 :: "byte_order \<Rightarrow> u64 \<Rightarrow> u64" where
  "to_le64 bo X = (case bo of Big_Endian \<Rightarrow> bswap64 X | Little_Endian \<Rightarrow> X)"

definition load_le :: "byte_order \<Rightarrow> u8 list \<Rightarrow> u64" where
  "load_le bo data = to_le64 bo (load64 bo (take 8 data))"

text \<open>
  The pointer \<open>data\<close> is the list of the bytes from the pointer on; \<open>sz\<close> is the C variable \<open>size\<close>. \<open>absorb_words\<close> is the inner
  loop over \<open>i\<close>, \<open>absorb_blocks\<close> the loop over whole blocks, \<open>absorb_tail_words\<close> the loop over the
  whole words that are left (\<open>state_iter\<close> is the index \<open>it\<close>) and \<open>copy_last_bytes\<close> the loop over
  the bytes that are left. Both callers pass a positive block size.
\<close>

function absorb_words :: "byte_order \<Rightarrow> nat \<Rightarrow> nat \<Rightarrow> u64 list \<Rightarrow> u8 list \<Rightarrow> u64 list \<times> u8 list" where
  "absorb_words bo i n state data =
     (if i < n
      then absorb_words bo (i + 1) n (state[i := state ! i XOR load_le bo data]) (drop 8 data)
      else (state, data))"
  by pat_completeness auto
termination
  by (relation "measure (\<lambda>(bo, i, n, state, data). n - i)") auto

function absorb_blocks ::
    "host \<Rightarrow> nat \<Rightarrow> u64 list \<Rightarrow> u8 list \<Rightarrow> nat \<Rightarrow> u64 list \<times> u8 list \<times> nat" where
  "absorb_blocks h block_size state data sz =
     (if sz \<ge> block_size \<and> block_size \<noteq> 0
      then let (state, data) = absorb_words (host_order h) 0 (block_size div 8) state data
           in absorb_blocks h block_size (keccakf1600_best h state) data (sz - block_size)
      else (state, data, sz))"
  by pat_completeness auto
termination
  by (relation "measure (\<lambda>(h, block_size, state, data, sz). sz)") auto

fun absorb_tail_words ::
    "byte_order \<Rightarrow> nat \<Rightarrow> u64 list \<Rightarrow> u8 list \<Rightarrow> nat \<Rightarrow> nat \<times> u64 list \<times> u8 list \<times> nat" where
  "absorb_tail_words bo it state data sz =
     (if sz \<ge> 8
      then absorb_tail_words bo (it + 1) (state[it := state ! it XOR load_le bo data])
             (drop 8 data) (sz - 8)
      else (it, state, data, sz))"

fun copy_last_bytes :: "nat \<Rightarrow> u8 list \<Rightarrow> u8 list \<Rightarrow> nat \<Rightarrow> nat \<times> u8 list" where
  "copy_last_bytes it last_word data 0 = (it, last_word)"
| "copy_last_bytes it last_word data (Suc sz) =
     copy_last_bytes (it + 1) (last_word[it := data ! 0]) (drop 1 data) sz"

declare absorb_words.simps [simp del] absorb_blocks.simps [simp del] absorb_tail_words.simps [simp del]

definition keccak :: "host \<Rightarrow> nat \<Rightarrow> u8 list \<Rightarrow> nat \<Rightarrow> u8 list" where
  "keccak h bits data sz =
     (let hash_size = bits div 8;
          block_size = (1600 - bits * 2) div 8;
          (state, data, sz) = absorb_blocks h block_size (replicate 25 0) data sz;
          (it, state, data, sz) = absorb_tail_words (host_order h) 0 state data sz;
          (b, last_word) = copy_last_bytes 0 (replicate 8 0) data sz;
          last_word = last_word[b := 0x01];
          state = state[it := state ! it XOR to_le64 (host_order h) (load64 (host_order h) last_word)];
          top = block_size div 8 - 1;
          state = state[top := state ! top XOR 0x8000000000000000];
          state = keccakf1600_best h state
      in of_word64s (host_order h)
           (map (\<lambda>i. to_le64 (host_order h) (state ! i)) [0..<hash_size div 8]))"

definition ethash_keccak256 :: "host \<Rightarrow> u8 list \<Rightarrow> nat \<Rightarrow> hash256" where
  "ethash_keccak256 h data sz = keccak h 256 data sz"

definition ethash_keccak256_32 :: "host \<Rightarrow> u8 list \<Rightarrow> hash256" where
  "ethash_keccak256_32 h data = keccak h 256 data 32"

definition ethash_keccak512 :: "host \<Rightarrow> u8 list \<Rightarrow> nat \<Rightarrow> hash512" where
  "ethash_keccak512 h data sz = keccak h 512 data sz"

definition ethash_keccak512_64 :: "host \<Rightarrow> u8 list \<Rightarrow> hash512" where
  "ethash_keccak512_64 h data = keccak h 512 data 64"

section \<open>What the loops compute\<close>

lemma load_le_join: "8 \<le> length data \<Longrightarrow> load_le bo data = le_join (take 8 data)"
  using bswap_load(2) [of "take 8 data"]
  by (simp add: load_le_def to_le64_def load64_def split: byte_order.split)

lemma store64_to_le64: "store64 bo (to_le64 bo w) = le_split 8 w"
  using store_bswap(2) [of w] by (simp add: to_le64_def store64_def split: byte_order.split)

lemma length_padded_chunks:
  "length block \<le> 200 \<Longrightarrow> length (chunks 8 (block @ replicate (200 - length block) 0)) = 25"
  by (rule chunks_lengths [THEN conjunct1]) simp_all

lemma length_xor_block [simp]:
  "length S = 25 \<Longrightarrow> length block \<le> 200 \<Longrightarrow> length (xor_block S block) = 25"
  by (simp only: xor_block_def length_map length_zip length_padded_chunks min.idem)

lemma nth_xor_block:
  assumes "length S = 25" and "length block \<le> 200" and "j < 25"
  shows "xor_block S block ! j = S ! j XOR le_join (take 8 (drop (8 * j) block))"
proof -
  let ?p = "block @ replicate (200 - length block) (0 :: u8)"
  have p: "length ?p = 8 * 25" using assms(2) by simp
  obtain k where "take 8 (drop (8 * j) ?p) = take 8 (drop (8 * j) block) @ replicate k 0"
    by (simp only: drop_append take_append drop_replicate take_replicate)
  then have "le_join (chunks 8 ?p ! j) = (le_join (take 8 (drop (8 * j) block)) :: u64)"
    using nth_chunks [OF _ p assms(3)] by (simp only: le_join_append_zeros)
  then show ?thesis
    unfolding xor_block_def using assms length_padded_chunks [OF assms(2)]
    by (simp only: nth_map length_map nth_zip length_zip split min.idem)
qed

lemma xor_block_eqI:
  assumes "length S = 25" and "length block \<le> 200" and "length S' = 25"
    and "\<And>j. j < 25 \<Longrightarrow> S' ! j = S ! j XOR le_join (take 8 (drop (8 * j) block))"
  shows "S' = xor_block S block"
  using assms by (intro nth_equalityI) (simp_all add: nth_xor_block)

lemma absorb_words_spec:
  assumes "i \<le> n" and "n \<le> length S" and "8 * (n - i) \<le> length data"
  shows "snd (absorb_words bo i n S data) = drop (8 * (n - i)) data \<and>
    length (fst (absorb_words bo i n S data)) = length S \<and>
    (\<forall>j < length S. fst (absorb_words bo i n S data) ! j =
       (if i \<le> j \<and> j < n then S ! j XOR le_join (take 8 (drop (8 * (j - i)) data)) else S ! j))"
  using assms
proof (induction bo i n S data rule: absorb_words.induct)
  case (1 bo i n S data)
  show ?case
  proof (cases "i < n")
    case True
    with "1.prems" have l: "8 \<le> length data" and m: "8 * (n - Suc i) + 8 = 8 * (n - i)" by auto
    let ?S = "S[i := S ! i XOR le_join (take 8 data)]"
    have step: "absorb_words bo i n S data = absorb_words bo (i + 1) n ?S (drop 8 data)"
      using True l by (simp add: absorb_words.simps [of bo i] load_le_join)
    have j: "(if i + 1 \<le> j \<and> j < n then ?S ! j XOR le_join (take 8 (drop (8 * (j - (i + 1))) (drop 8 data)))
        else ?S ! j) =
      (if i \<le> j \<and> j < n then S ! j XOR le_join (take 8 (drop (8 * (j - i)) data)) else S ! j)"
      if "j < length S" for j
    proof (cases "i < j")
      case True
      then have "8 * (j - Suc i) + 8 = 8 * (j - i)" by auto
      with True show ?thesis by simp
    next
      case False
      with that \<open>i < n\<close> show ?thesis by (cases "j = i") simp_all
    qed
    have p: "i + 1 \<le> n" "n \<le> length ?S" "8 * (n - (i + 1)) \<le> length (drop 8 data)"
      using True "1.prems" m by auto
    have k: "drop (8 * (n - (i + 1))) (drop 8 data) = drop (8 * (n - i)) data"
      using m by simp
    note ih = "1.IH" [OF True, unfolded load_le_join [OF l], OF p]
    show ?thesis
      unfolding step
    proof (intro conjI allI impI)
      fix q assume q: "q < length S"
      then have "q < length ?S" by simp
      from ih [THEN conjunct2, THEN conjunct2, rule_format, OF this] j [OF q]
      show "fst (absorb_words bo (i + 1) n ?S (drop 8 data)) ! q =
        (if i \<le> q \<and> q < n then S ! q XOR le_join (take 8 (drop (8 * (q - i)) data)) else S ! q)"
        by (rule trans)
    next
      show "snd (absorb_words bo (i + 1) n ?S (drop 8 data)) = drop (8 * (n - i)) data"
        using ih k by (simp only:)
    next
      show "length (fst (absorb_words bo (i + 1) n ?S (drop 8 data))) = length S"
        using ih by (simp only: length_list_update)
    qed
  next
    case False
    then have "absorb_words bo i n S data = (S, data)" by (subst absorb_words.simps) simp
    with False "1.prems" show ?thesis by auto
  qed
qed

lemma absorb_words_block:
  assumes "length S = 25" and "W \<le> 25" and "8 * W \<le> length data"
  shows "absorb_words bo 0 W S data = (xor_block S (take (8 * W) data), drop (8 * W) data)"
proof -
  note spec = absorb_words_spec [of 0 W S data bo, unfolded assms(1), simplified, OF assms(2,3)]
  have "fst (absorb_words bo 0 W S data) = xor_block S (take (8 * W) data)"
  proof (rule xor_block_eqI)
    fix j :: nat assume j: "j < 25"
    have "le_join (take 8 (drop (8 * j) (take (8 * W) data))) =
        (if j < W then le_join (take 8 (drop (8 * j) data)) else 0 :: u64)"
      using assms(3) by (auto simp: drop_take min_def)
    then show "fst (absorb_words bo 0 W S data) ! j =
        S ! j XOR le_join (take 8 (drop (8 * j) (take (8 * W) data)))"
      using spec j by simp
  qed (use spec assms in simp_all)
  then show ?thesis using spec by (simp add: prod_eq_iff)
qed

lemma absorb_tail_words_spec:
  "absorb_tail_words bo it S data sz =
     (case absorb_words bo it (it + sz div 8) S data of
        (S', data') \<Rightarrow> (it + sz div 8, S', data', sz mod 8))"
proof (induction bo it S data sz rule: absorb_tail_words.induct)
  case (1 bo it S data sz)
  show ?case
  proof (cases "8 \<le> sz")
    case True
    then have "sz div 8 = Suc ((sz - 8) div 8)" and "sz mod 8 = (sz - 8) mod 8"
      by (simp_all add: le_div_geq le_mod_geq)
    with 1 True show ?thesis
      by (subst absorb_tail_words.simps) (simp add: absorb_words.simps [of bo it])
  next
    case False
    then show ?thesis
      by (subst absorb_tail_words.simps) (simp add: absorb_words.simps [of bo it])
  qed
qed

lemma copy_last_bytes_spec:
  assumes "it + sz \<le> length lw" and "sz \<le> length data"
  shows "copy_last_bytes it lw data sz = (it + sz, take it lw @ take sz data @ drop (it + sz) lw)"
  using assms
proof (induction it lw data sz rule: copy_last_bytes.induct)
  case (2 it lw data sz)
  then obtain b bs where "data = b # bs" by (cases data) auto
  with 2 show ?case by (simp add: take_Suc_conv_app_nth nth_list_update)
qed simp

text \<open>The padding is the exclusive or of its leading \<open>01\<close> and its trailing \<open>80\<close>.\<close>

lemma pad10star1_xor:
  assumes "length d < r"
  shows "pad10star1 r d =
    map2 (XOR) (d @ [1] @ replicate (r - length d - 1) 0) (replicate (r - 1) 0 @ [0x80])"
proof -
  have z: "map2 (XOR) (xs :: u8 list) (replicate (length xs) 0) = xs" for xs
    by (induction xs) simp_all
  show ?thesis
  proof (cases "length d = r - 1")
    case True
    then show ?thesis using assms z [of d] by (simp add: pad10star1_def)
  next
    case False
    then have "Suc (length d) < r" using assms by simp
    then obtain k where k: "r = Suc (length d + Suc k)" by (auto simp: less_iff_Suc_add)
    have l: "d @ [1] @ replicate (r - length d - 1) 0 = d @ [1] @ replicate k (0 :: u8) @ [0]"
      and r: "replicate (r - 1) 0 @ [0x80] =
        replicate (length d) 0 @ [0] @ replicate k 0 @ [0x80 :: u8]"
      using k replicate_add [of "length d" "Suc k" "0 :: u8"]
      by (simp_all add: replicate_append_same)
    have "pad10star1 r d = d @ [1] @ replicate k 0 @ [0x80]"
      using k by (simp add: pad10star1_def)
    moreover have "map2 (XOR) (replicate k 0) (replicate k 0) = replicate k (0 :: u8)"
      using z [of "replicate k 0"] by simp
    ultimately show ?thesis unfolding l r using z [of d] by simp
  qed
qed

lemma length_pad10star1: "length d < r \<Longrightarrow> length (pad10star1 r d) = r"
  by (simp add: pad10star1_xor)

lemma le_join_zeros: "le_join (replicate k 0) = (0 :: u64)"
  by (induction k) simp_all

text \<open>The words of the tail and the last, partial word add the bytes of \<open>d @ [1]\<close> to the state.\<close>

lemma absorb_tail_last:
  assumes "length S = 25" and "length d < 8 * W" and "W \<le> 25"
    and "absorb_tail_words bo 0 S d (length d) = (it, S1, rest, k)"
    and "copy_last_bytes 0 (replicate 8 0) rest k = (b, lw)"
  shows "S1[it := S1 ! it XOR to_le64 bo (load64 bo (lw[b := 1]))] = xor_block S (d @ [1])"
proof -
  let ?n = "length d div 8"
  have n: "?n < W" "8 * ?n \<le> length d" using assms(2) by simp_all
  note spec = absorb_words_spec [of 0 ?n S d bo, unfolded assms(1), simplified]
  have S1: "fst (absorb_words bo 0 ?n S d) = S1" and rest: "rest = drop (8 * ?n) d"
    and it: "it = ?n" and k: "k = length rest" "k < 8"
    using assms(3,4) n spec by (auto simp: absorb_tail_words_spec minus_mult_div_eq_mod split: prod.splits)
  have "lw[b := 1] = rest @ [1] @ replicate (7 - k) 0"
  proof -
    have "replicate (8 - k) (0 :: u8) = 0 # replicate (7 - k) 0"
      using k(2) by (simp flip: replicate_Suc add: Suc_diff_le)
    then show ?thesis
      using assms(5) k copy_last_bytes_spec [of 0 k "replicate 8 0" rest] by auto
  qed
  then have last: "to_le64 bo (load64 bo (lw[b := 1])) = le_join (rest @ [1])"
    using load_le_join [of "lw[b := 1]" bo] k le_join_append_zeros [of "rest @ [1]" "7 - k"]
    by (simp add: load_le_def)
  show ?thesis
  proof (rule xor_block_eqI)
    fix j :: nat assume j: "j < 25"
    have "take 8 (drop (8 * j) (d @ [1])) =
        (if j < ?n then take 8 (drop (8 * j) d) else if j = ?n then rest @ [1] else [])"
      using k rest by (auto simp: not_less le_less_Suc_eq)
    then show "S1[it := S1 ! it XOR to_le64 bo (load64 bo (lw[b := 1]))] ! j =
        S ! j XOR le_join (take 8 (drop (8 * j) (d @ [1])))"
      unfolding last it using spec n assms(3) S1 j by auto
  qed (use spec n S1 assms in simp_all)
qed

lemma le_join_top_byte: "le_join (replicate 7 0 @ [0x80]) = (0x8000000000000000 :: u64)"
  by code_simp

lemma take_drop_top:
  assumes "0 < W"
  shows "take 8 (drop (8 * j) (replicate (8 * W - 1) 0 @ [0x80 :: u8])) =
    (if j < W - 1 then replicate 8 0 else if j = W - 1 then replicate 7 0 @ [0x80] else [])"
proof -
  consider "j < W - 1" | "j = W - 1" | "W - 1 < j" by linarith
  then show ?thesis
  proof cases
    case 2
    then have "8 * W - 1 = 8 * j + 7" using assms by simp
    with 2 show ?thesis by simp
  qed (use assms in auto)
qed

lemma xor_block_top:
  assumes "length S = 25" and "0 < W" and "W \<le> 25"
  shows "S[W - 1 := S ! (W - 1) XOR 0x8000000000000000] =
    xor_block S (replicate (8 * W - 1) 0 @ [0x80])"
proof (rule xor_block_eqI)
  fix j :: nat assume j: "j < 25"
  show "S[W - 1 := S ! (W - 1) XOR 0x8000000000000000] ! j =
    S ! j XOR le_join (take 8 (drop (8 * j) (replicate (8 * W - 1) 0 @ [0x80])))"
    unfolding take_drop_top [OF assms(2)]
    using j assms le_join_zeros [of 8] le_join_top_byte by (simp add: nth_list_update)
qed (use assms in simp_all)

lemma xor_block_pad:
  assumes "length S = 25" and "W \<le> 25" and "length d < 8 * W"
  shows "xor_block (xor_block S (d @ [1])) (replicate (8 * W - 1) 0 @ [0x80]) =
    xor_block S (pad10star1 (8 * W) d)"
proof (rule xor_block_eqI)
  let ?z = "replicate (8 * W - length d - 1) (0 :: u8)" and ?t = "replicate (8 * W - 1) 0 @ [0x80 :: u8]"
  note pad = pad10star1_xor [OF assms(3)]
  have lens: "length ((d @ [1]) @ ?z) = length ?t" using assms(3) by simp
  show "length (pad10star1 (8 * W) d) \<le> 200" using assms by (simp add: pad)
  fix j :: nat assume j: "j < 25"
  obtain m where m: "take 8 (drop (8 * j) ((d @ [1]) @ ?z)) = take 8 (drop (8 * j) (d @ [1])) @ replicate m 0"
    by (simp only: drop_append take_append drop_replicate take_replicate)
  have "le_join (take 8 (drop (8 * j) (pad10star1 (8 * W) d))) =
      (le_join (take 8 (drop (8 * j) ((d @ [1]) @ ?z))) XOR le_join (take 8 (drop (8 * j) ?t)) :: u64)"
    unfolding pad drop_map take_map drop_zip take_zip append_assoc
    using lens by (intro le_join_xor) (simp only: length_take length_drop append_assoc)
  then show "xor_block (xor_block S (d @ [1])) ?t ! j =
      S ! j XOR le_join (take 8 (drop (8 * j) (pad10star1 (8 * W) d)))"
    using assms j unfolding m le_join_append_zeros by (simp add: nth_xor_block xor.assoc)
qed (use assms in simp_all)

lemma keccakf1600_best_spec: "length state = 25 \<Longrightarrow> keccakf1600_best h state = keccak_f 6 state"
  by (simp add: keccakf1600_best_def select_keccakf1600_implementation_spec)

lemma pad10star1_block:
  assumes "0 < r" and "r \<le> length m"
  shows "pad10star1 r m = take r m @ pad10star1 r (drop r m)"
  using assms by (simp add: pad10star1_def Let_def le_mod_geq [of r] flip: append_assoc)

lemma absorb_blocks_spec:
  assumes "r = 8 * W" and "0 < W" and "W \<le> 25" and "length S = 25"
    and "absorb_blocks h r S m (length m) = (S', d, k)"
  shows "k = length d \<and> length d < r \<and> length S' = 25 \<and>
    fold (\<lambda>block S. keccak_f 6 (xor_block S block)) (chunks r (pad10star1 r m)) S =
    keccak_f 6 (xor_block S' (pad10star1 r d))"
  using assms(4,5)
proof (induction "length m" arbitrary: S m rule: less_induct)
  case less
  show ?case
  proof (cases "r \<le> length m")
    case True
    let ?S = "keccak_f 6 (xor_block S (take r m))"
    have S: "length ?S = 25" using assms(1,3) less.prems(1) by simp
    have "absorb_blocks h r S m (length m) = absorb_blocks h r ?S (drop r m) (length (drop r m))"
      using True assms(1-3) less.prems(1)
      by (subst absorb_blocks.simps) (simp add: absorb_words_block keccakf1600_best_spec)
    moreover have "chunks r (pad10star1 r m) = take r m # chunks r (pad10star1 r (drop r m))"
      using True assms(1,2) by (simp add: pad10star1_block chunks_append)
    ultimately show ?thesis
      using less.hyps [of "drop r m" ?S] S less.prems True assms(1,2) by simp
  next
    case False
    then have "(S', d, k) = (S, m, length m)"
      using less.prems(2) by (subst (asm) absorb_blocks.simps) auto
    moreover have "length (pad10star1 r m) = r" using False by (simp add: length_pad10star1)
    ultimately show ?thesis
      using False less.prems(1) assms(1,2) chunks_append [of "pad10star1 r m" r "[]"] by auto
  qed
qed

lemma take_concat_map:
  assumes "\<And>x. length (f x) = n"
  shows "concat (map f (take k xs)) = take (n * k) (concat (map f xs))"
proof (induction xs arbitrary: k)
  case (Cons x xs)
  then show ?case using assms by (cases k) simp_all
qed simp

lemma keccak_sponge:
  assumes "1600 - bits * 2 = 64 * W" and "0 < W" and "bits = 64 * H" and "sz = length data"
  shows "keccak h bits data sz = keccak_digest bits data"
proof -
  let ?r = "8 * W"
  obtain S d k where ab: "absorb_blocks h ?r (replicate 25 0) data (length data) = (S, d, k)"
    by (metis prod_cases3)
  obtain it S1 rest k1 where tl: "absorb_tail_words (host_order h) 0 S d (length d) = (it, S1, rest, k1)"
    by (metis prod_cases4)
  obtain b lw where cp: "copy_last_bytes 0 (replicate 8 0) rest k1 = (b, lw)"
    by fastforce
  have W: "W \<le> 25" and H: "H \<le> 25" and r: "(1600 - bits * 2) div 8 = ?r"
    and hs: "bits div 8 div 8 = H" using assms(1-3) by auto
  note ab' = absorb_blocks_spec [OF refl assms(2) W _ ab, simplified]
  let ?S2 = "xor_block S (d @ [1])" and ?final = "keccak_f 6 (xor_block S (pad10star1 ?r d))"
  have d: "length ?S2 = 25" using ab' W by simp
  have fin: "keccakf1600_best h (?S2[W - 1 := ?S2 ! (W - 1) XOR 0x8000000000000000]) = ?final"
    using xor_block_top [OF d assms(2) W] xor_block_pad [of S W d] ab' W d
    by (simp add: keccakf1600_best_spec length_pad10star1)
  have "keccak h bits data sz =
      of_word64s (host_order h) (map (\<lambda>i. to_le64 (host_order h) (?final ! i)) [0..<H])"
    unfolding keccak_def r hs Let_def assms(4) ab
    using absorb_tail_last [OF _ _ W tl cp] ab' tl cp fin by simp
  also have "\<dots> = concat (map (le_split 8) (map ((!) ?final) [0..<H]))"
    by (simp add: of_word64s_def store64_to_le64 comp_def)
  also have "map ((!) ?final) [0..<H] = take H ?final"
    using H ab' W by (intro nth_equalityI) (simp_all add: length_pad10star1)
  also have "concat (map (le_split 8) (take H ?final)) = take (8 * H) (concat (map (le_split 8) ?final))"
    by (rule take_concat_map) simp
  finally show ?thesis
    using ab' assms(3) r by (simp add: keccak_digest_def sponge_keccak_def absorb_def algebra_simps)
qed

section \<open>The digests\<close>

lemma keccak_256: "keccak h 256 data (length data) = keccak_digest 256 data"
  by (rule keccak_sponge [where W = 17 and H = 4]) simp_all

lemma keccak_512: "keccak h 512 data (length data) = keccak_digest 512 data"
  by (rule keccak_sponge [where W = 9 and H = 8]) simp_all

lemma length_keccak [len_simps]:
  "length (keccak h 256 data sz) = 32" "length (keccak h 512 data sz) = 64"
  by (simp_all add: keccak_def Let_def split: prod.split)

lemma length_keccak_digest [len_simps, simp]:
  "length (keccak_digest 256 data) = 32" "length (keccak_digest 512 data) = 64"
  using length_keccak [where data = data and sz = "length data"] by (simp_all add: keccak_256 keccak_512)

lemma ethash_keccak_digest [endian_simps]:
  "ethash_keccak256 h data (length data) = keccak_digest 256 data"
  "ethash_keccak512 h data (length data) = keccak_digest 512 data"
  "length data = 32 \<Longrightarrow> ethash_keccak256_32 h data = keccak_digest 256 data"
  "length data = 64 \<Longrightarrow> ethash_keccak512_64 h data = keccak_digest 512 data"
  using keccak_256 [of h data] keccak_512 [of h data]
  by (simp_all add: ethash_keccak256_def ethash_keccak512_def ethash_keccak256_32_def
      ethash_keccak512_64_def)

text \<open>
  C2. The two digests of the library are Keccak-256 and Keccak-512 of the whole message, for
  messages of every length, on hosts of both byte orders and with either build of the
  permutation: block loop, word loop, byte loop and padding together absorb exactly the padded
  message, and the output words are written in the byte order of the standard.
\<close>

theorem keccak_digests_correct:
  "ethash_keccak256 h data (length data) = keccak_digest 256 data \<and>
   ethash_keccak512 h data (length data) = keccak_digest 512 data"
  by (simp add: ethash_keccak_digest)

end
