(* ===== verification/Bit_Manipulation.thy ===== *)
theory Bit_Manipulation
  imports Prelude
begin

text \<open>
  The word helpers of \<^verbatim>\<open>ethash/lib/ethash/bit_manipulation.h\<close> and the pseudo-random generator of
  \<^verbatim>\<open>ethash/lib/ethash/kiss99.hpp\<close>. The rotations mask their count, so that unlike the helper of the
  Keccak sources they are defined for every count; the lemmas show them to be the rotations, and
  the other helpers to have their arithmetical meaning.
\<close>

section \<open>bit\_manipulation.h\<close>

definition rotl32 :: "u32 \<Rightarrow> u32 \<Rightarrow> u32" where
  "rotl32 n c =
     (let mask = 31; c = c AND mask; neg_c = - c
      in push_bit (unat c) n OR drop_bit (unat (neg_c AND mask)) n)"

definition rotr32 :: "u32 \<Rightarrow> u32 \<Rightarrow> u32" where
  "rotr32 n c =
     (let mask = 31; c = c AND mask; neg_c = - c
      in drop_bit (unat c) n OR push_bit (unat (neg_c AND mask)) n)"

text \<open>The compiler builtins: leading zero bits, and set bits.\<close>

definition builtin_clz :: "u32 \<Rightarrow> nat" where
  "builtin_clz x = length (takeWhile (\<lambda>i. \<not> bit x i) (rev [0..<32]))"

definition builtin_popcount :: "u32 \<Rightarrow> nat" where
  "builtin_popcount x = length (filter (bit x) [0..<32])"

definition clz32 :: "u32 \<Rightarrow> u32" where
  "clz32 x = (if x \<noteq> 0 then word_of_nat (builtin_clz x) else 32)"

definition popcount32 :: "u32 \<Rightarrow> u32" where
  "popcount32 x = word_of_nat (builtin_popcount x)"

definition mul_hi32 :: "u32 \<Rightarrow> u32 \<Rightarrow> u32" where
  "mul_hi32 x y = ucast (drop_bit 32 ((ucast x :: u64) * (ucast y :: u64)))"

definition fnv_prime :: u32 where
  "fnv_prime = 0x01000193"

definition fnv_offset_basis :: u32 where
  "fnv_offset_basis = 0x811c9dc5"

definition fnv1 :: "u32 \<Rightarrow> u32 \<Rightarrow> u32" where
  "fnv1 u v = (u * fnv_prime) XOR v"

definition fnv1a :: "u32 \<Rightarrow> u32 \<Rightarrow> u32" where
  "fnv1a u v = (u XOR v) * fnv_prime"

section \<open>kiss99.hpp\<close>

record kiss99 =
  kiss_z :: u32
  kiss_w :: u32
  kiss_jsr :: u32
  kiss_jcong :: u32

definition kiss99_default :: kiss99 where
  "kiss99_default =
     \<lparr>kiss_z = 362436069, kiss_w = 521288629, kiss_jsr = 123456789, kiss_jcong = 380116160\<rparr>"

definition kiss99_next :: "kiss99 \<Rightarrow> u32 \<times> kiss99" where
  "kiss99_next g =
     (let z = 36969 * (kiss_z g AND 0xffff) + drop_bit 16 (kiss_z g);
          w = 18000 * (kiss_w g AND 0xffff) + drop_bit 16 (kiss_w g);
          jcong = 69069 * kiss_jcong g + 1234567;
          jsr = kiss_jsr g;
          jsr = jsr XOR push_bit 17 jsr;
          jsr = jsr XOR drop_bit 13 jsr;
          jsr = jsr XOR push_bit 5 jsr
      in (((push_bit 16 z + w) XOR jcong) + jsr,
          \<lparr>kiss_z = z, kiss_w = w, kiss_jsr = jsr, kiss_jcong = jcong\<rparr>))"

section \<open>What they compute\<close>

lemma and_31: "(c :: u32) AND 31 = take_bit 5 c"
  using take_bit_eq_mask [of 5 c] by (simp add: mask_eq_exp_minus_1)

lemma unat_and_31: "unat ((c :: u32) AND 31) = unat c mod 32"
  by (simp add: and_31 take_bit_eq_mod unat_mod_distrib)

lemma unat_neg_and_31: "unat (- (c AND 31) AND 31 :: u32) = (32 - unat c mod 32) mod 32"
proof -
  have "unat (c AND 31) = unat c mod 32" by (rule unat_and_31)
  then have "unat (- (c AND 31)) = (if unat c mod 32 = 0 then 0 else 2 ^ 32 - unat c mod 32)"
    using unat_sub_if' [of 0 "c AND 31"] by auto
  moreover have "(2 ^ 32 - m) mod 32 = (32 - m) mod (32 :: nat)" if "m < 32" for m
  proof -
    have "2 ^ 32 - m = (32 - m) + 134217727 * 32" using that by simp
    then show ?thesis by (simp only: mod_mult_self1)
  qed
  ultimately show ?thesis by (simp add: unat_and_31 [of "- (c AND 31)"])
qed

lemma rotl32_word_rotl: "rotl32 n c = word_rotl (unat c) n"
proof (rule bit_word_eqI)
  fix k assume k: "k < LENGTH(32)"
  define m where "m = unat c mod 32"
  have m: "m < 32" by (simp add: m_def)
  have "word_rotl (unat c) n = word_rotl m n"
    by (rule bit_word_eqI) (simp add: bit_simps m_def)
  moreover have "(k + (32 - m)) mod 32 = (if k < m then 32 + k - m else k - m)"
    using k m by (auto simp: mod_if)
  moreover have "rotl32 n c = push_bit m n OR drop_bit ((32 - m) mod 32) n"
    unfolding rotl32_def Let_def unat_neg_and_31 m_def by (simp add: unat_and_31)
  ultimately show "bit (rotl32 n c) k = bit (word_rotl (unat c) n) k"
    using k m by (cases "m = 0") (auto simp: bit_simps dest: bit_imp_le_length)
qed

lemma rotr32_rotl32: "rotr32 (rotl32 n c) c = n"
proof (rule bit_word_eqI)
  fix k assume k: "k < LENGTH(32)"
  define m where "m = unat c mod 32"
  have m: "m < 32" by (simp add: m_def)
  have "rotr32 x c = drop_bit m x OR push_bit ((32 - m) mod 32) x" for x
    unfolding rotr32_def Let_def unat_neg_and_31 m_def by (simp add: unat_and_31)
  moreover have "rotl32 n c = push_bit m n OR drop_bit ((32 - m) mod 32) n"
    unfolding rotl32_def Let_def unat_neg_and_31 m_def by (simp add: unat_and_31)
  moreover have "m + k < 32 \<or> 32 + (k + m - 32) - m = k" by linarith
  ultimately show "bit (rotr32 (rotl32 n c) c) k = bit n k"
    using k m by (cases "m = 0") (auto simp: bit_simps dest: bit_imp_le_length)
qed

lemma mul_hi32_div: "unat (mul_hi32 x y) = unat x * unat y div 2 ^ 32"
proof -
  have "unat x * unat y < 2 ^ 32 * 2 ^ 32"
    using unsigned_less [of x, where ?'a = nat] unsigned_less [of y, where ?'a = nat]
    by (intro mult_strict_mono) simp_all
  then show ?thesis
    by (simp add: mul_hi32_def unsigned_ucast_eq unat_drop_bit_eq drop_bit_eq_div unat_word_ariths
        take_bit_eq_mod mod_mult_eq
        less_mult_imp_div_less)
qed

lemma fnv1_inject [simp]: "fnv1 u v = fnv1 u w \<longleftrightarrow> v = w"
  by (auto simp: fnv1_def simp flip: xor.assoc dest: arg_cong [where f = "\<lambda>x. u * fnv_prime XOR x"])

text \<open>The first numbers of the generator with the default state.\<close>

lemma kiss99_first: "fst (kiss99_next kiss99_default) = 769445856"
  by code_simp

end
