(* ===== verification/Ethash_Spec.thy ===== *)
theory Ethash_Spec
  imports Keccak_Sponge Bit_Manipulation
begin

text \<open>
  Ethash as its specification states it, on lists of 32-bit words, with natural numbers for indices
  and without any notion of a host. Nothing here comes from the C++ sources: \<open>Ethash\<close> proves the
  sources against these definitions. An item of the cache is 16 words, an item of the dataset 32.
\<close>

definition keccak512_words :: "u32 list \<Rightarrow> u32 list" where
  "keccak512_words ws =
     word32s Little_Endian (keccak_digest 512 (of_word32s Little_Endian ws))"

definition spec_epoch_seed :: "nat \<Rightarrow> u8 list" where
  "spec_epoch_seed e = (keccak_digest 256 ^^ e) (replicate 32 0)"

section \<open>Cache generation\<close>

text \<open>The sequential fill: every item is the digest of the previous one.\<close>

fun spec_cache_items :: "nat \<Rightarrow> u32 list \<Rightarrow> u32 list list" where
  "spec_cache_items 0 x = []"
| "spec_cache_items (Suc n) x = x # spec_cache_items n (keccak512_words x)"

definition spec_cache_init :: "nat \<Rightarrow> u8 list \<Rightarrow> u32 list list" where
  "spec_cache_init n seed = spec_cache_items n (word32s Little_Endian (keccak_digest 512 seed))"

text \<open>One low-round RandMemoHash pass.\<close>

definition spec_cache_step :: "nat \<Rightarrow> nat \<Rightarrow> u32 list list \<Rightarrow> u32 list list" where
  "spec_cache_step n i c =
     c[i := keccak512_words (map2 (XOR) (c ! (unat (c ! i ! 0) mod n)) (c ! ((i + n - 1) mod n)))]"

definition spec_mkcache :: "nat \<Rightarrow> u8 list \<Rightarrow> u32 list list" where
  "spec_mkcache n seed = (fold (spec_cache_step n) [0..<n] ^^ 3) (spec_cache_init n seed)"

section \<open>Dataset items\<close>

definition spec_dataset_parent :: "u32 list list \<Rightarrow> nat \<Rightarrow> nat \<Rightarrow> u32 list \<Rightarrow> u32 list" where
  "spec_dataset_parent cache i j mix =
     map2 fnv1 mix
       (cache ! (unat (fnv1 (word_of_nat i XOR word_of_nat j) (mix ! (j mod 16))) mod length cache))"

definition spec_dataset_item :: "u32 list list \<Rightarrow> nat \<Rightarrow> u32 list" where
  "spec_dataset_item cache i =
     (let mix = cache ! (i mod length cache);
          mix = keccak512_words (mix[0 := mix ! 0 XOR word_of_nat i])
      in keccak512_words (fold (spec_dataset_parent cache i) [0..<256] mix))"

definition spec_dataset_item_1024 :: "u32 list list \<Rightarrow> nat \<Rightarrow> u32 list" where
  "spec_dataset_item_1024 cache p = spec_dataset_item cache (2 * p) @ spec_dataset_item cache (2 * p + 1)"

section \<open>The main loop\<close>

definition spec_mix_step :: "nat \<Rightarrow> (nat \<Rightarrow> u32 list) \<Rightarrow> u32 \<Rightarrow> nat \<Rightarrow> u32 list \<Rightarrow> u32 list" where
  "spec_mix_step n lookup s0 i mix =
     map2 fnv1 mix (lookup (unat (fnv1 (word_of_nat i XOR s0) (mix ! (i mod 32))) mod n))"

definition spec_compress :: "u32 list \<Rightarrow> u32 list" where
  "spec_compress mix = map (\<lambda>ws. fold (\<lambda>w h. fnv1 h w) (tl ws) (hd ws)) (chunks 4 mix)"

definition spec_seed_hash :: "u8 list \<Rightarrow> u64 \<Rightarrow> u8 list" where
  "spec_seed_hash header nonce = keccak_digest 512 (header @ le_split 8 nonce)"

definition spec_mix_hash :: "nat \<Rightarrow> (nat \<Rightarrow> u32 list) \<Rightarrow> u8 list \<Rightarrow> u8 list" where
  "spec_mix_hash n lookup seed =
     (let s = word32s Little_Endian seed
      in of_word32s Little_Endian
           (spec_compress (fold (spec_mix_step n lookup (s ! 0)) [0..<64] (s @ s))))"

text \<open>Hashimoto: the result and the mix digest of a nonce.\<close>

definition spec_hashimoto :: "nat \<Rightarrow> (nat \<Rightarrow> u32 list) \<Rightarrow> u8 list \<Rightarrow> u64 \<Rightarrow> u8 list \<times> u8 list" where
  "spec_hashimoto n lookup header nonce =
     (let seed = spec_seed_hash header nonce;
          cmix = spec_mix_hash n lookup seed
      in (keccak_digest 256 (seed @ cmix), cmix))"

section \<open>Lengths\<close>

lemma length_keccak512_words [simp, len_simps]: "length (keccak512_words ws) = 16"
  using length_word32s [of "keccak_digest 512 (of_word32s Little_Endian ws)" 16 Little_Endian]
  by (simp add: keccak512_words_def)

lemma length_spec_epoch_seed [simp, len_simps]: "length (spec_epoch_seed e) = 32"
  by (cases e) (simp_all add: spec_epoch_seed_def)

lemma spec_epoch_seed_Suc: "spec_epoch_seed (Suc e) = keccak_digest 256 (spec_epoch_seed e)"
  by (simp add: spec_epoch_seed_def)

lemma length_spec_cache_items [simp]: "length (spec_cache_items n x) = n"
  by (induction n arbitrary: x) simp_all

lemma length_spec_cache_step [simp]: "length (spec_cache_step n i c) = length c"
  by (simp add: spec_cache_step_def)

lemma length_fold_spec_cache_step [simp]: "length (fold (spec_cache_step n) is c) = length c"
  by (induction "is" arbitrary: c) simp_all

lemma length_spec_mkcache [simp]: "length (spec_mkcache n seed) = n"
  by (simp add: spec_mkcache_def spec_cache_init_def numeral_3_eq_3)

lemma length_spec_dataset_item [simp]: "length (spec_dataset_item cache i) = 16"
  by (simp add: spec_dataset_item_def Let_def)

end
