(* ===== verification/Ethash_Cache.thy ===== *)
theory Ethash_Cache
  imports Ethash_Spec
begin

text \<open>
  The light cache of \<^verbatim>\<open>ethash/lib/ethash/ethash.cpp\<close>: the word-wise helpers on 512-bit hashes and
  \<open>build_light_cache\<close>, which takes the hash function as an argument. The hash functions it may be
  given are described by a locale; the library's Keccak-512 is an instance of it, and for that
  instance the cache is the one the Ethash specification generates, on either kind of host.
\<close>

section \<open>The C++ routines\<close>

definition light_cache_rounds :: nat where
  "light_cache_rounds = 3"

definition fnv1_512 :: "byte_order \<Rightarrow> hash512 \<Rightarrow> hash512 \<Rightarrow> hash512" where
  "fnv1_512 bo u v =
     of_word32s bo (map (\<lambda>i. fnv1 (word32s bo u ! i) (word32s bo v ! i)) [0..<16])"

definition bitwise_xor :: "byte_order \<Rightarrow> hash512 \<Rightarrow> hash512 \<Rightarrow> hash512" where
  "bitwise_xor bo x y =
     of_word64s bo (map (\<lambda>i. word64s bo x ! i XOR word64s bo y ! i) [0..<8])"

text \<open>
  \<open>hash_fn\<close> is the argument \<open>hash_fn_512\<close>, applied to a buffer and its size. \<open>num_items\<close>, a
  positive \<open>int\<close> in the source, is a natural number; the array \<open>cache\<close> has that many elements.
\<close>

function fill_cache ::
    "(u8 list \<Rightarrow> nat \<Rightarrow> hash512) \<Rightarrow> nat \<Rightarrow> nat \<Rightarrow> hash512 \<Rightarrow> hash512 list \<Rightarrow> hash512 list" where
  "fill_cache hash_fn num_items i item cache =
     (if i < num_items
      then let item = hash_fn item 64
           in fill_cache hash_fn num_items (i + 1) item (cache[i := item])
      else cache)"
  by pat_completeness auto
termination
  by (relation "measure (\<lambda>(f, n, i, item, c). n - i)") auto

declare fill_cache.simps [simp del]

definition cache_step ::
    "byte_order \<Rightarrow> (u8 list \<Rightarrow> nat \<Rightarrow> hash512) \<Rightarrow> nat \<Rightarrow> nat \<Rightarrow> hash512 list \<Rightarrow> hash512 list" where
  "cache_step bo hash_fn num_items i cache =
     (let index_limit = (word_of_nat num_items :: u32);
          t = le_uint32 bo (word32s bo (cache ! i) ! 0);
          v = t mod index_limit;
          w = (word_of_int (int num_items + (int i - 1)) :: u32) mod index_limit;
          x = bitwise_xor bo (cache ! unat v) (cache ! unat w)
      in cache[i := hash_fn x 64])"

definition generic_build_light_cache ::
    "byte_order \<Rightarrow> (u8 list \<Rightarrow> nat \<Rightarrow> hash512) \<Rightarrow> hash512 list \<Rightarrow> nat \<Rightarrow> hash256 \<Rightarrow> hash512 list" where
  "generic_build_light_cache bo hash_fn cache num_items seed =
     (let item = hash_fn seed 32;
          cache = cache[0 := item];
          cache = fill_cache hash_fn num_items 1 item cache
      in fold (\<lambda>q cache. fold (\<lambda>i cache. cache_step bo hash_fn num_items i cache) [0..<num_items] cache)
           [0..<light_cache_rounds] cache)"

definition build_light_cache :: "host \<Rightarrow> hash512 list \<Rightarrow> nat \<Rightarrow> hash256 \<Rightarrow> hash512 list" where
  "build_light_cache h cache num_items seed =
     generic_build_light_cache (host_order h) (ethash_keccak512 h) cache num_items seed"

section \<open>Word-wise helpers\<close>

lemma map_nth_upt: "length xs = n \<Longrightarrow> length ys = n \<Longrightarrow> map (\<lambda>i. f (xs ! i) (ys ! i)) [0..<n] = map2 f xs ys"
  by (rule nth_equalityI) simp_all

lemma word32s_fnv1_512:
  assumes "length u = 64" and "length v = 64"
  shows "word32s bo (fnv1_512 bo u v) = map2 fnv1 (word32s bo u) (word32s bo v)"
  using assms length_word32s [of u 16 bo] length_word32s [of v 16 bo]
  by (simp add: fnv1_512_def map_nth_upt del: upt_conv_Cons)

lemma length_fnv1_512 [simp, len_simps]: "length (fnv1_512 bo u v) = 64"
  by (simp add: fnv1_512_def)

lemma length_bitwise_xor [simp, len_simps]: "length (bitwise_xor bo u v) = 64"
  by (simp add: bitwise_xor_def)

lemma load64_xor:
  assumes "length a = 8" and "length b = 8"
  shows "load64 bo a XOR load64 bo b = load64 bo (map2 (XOR) a b)"
  using assms by (cases bo) (simp_all add: load64_def le_join_xor rev_map flip: zip_rev)

lemma load32_xor:
  assumes "length a = 4" and "length b = 4"
  shows "load32 bo a XOR load32 bo b = load32 bo (map2 (XOR) a b)"
  using assms by (cases bo) (simp_all add: load32_def le_join_xor rev_map flip: zip_rev)

lemma chunks_map2:
  assumes "length xs = length ys"
  shows "chunks n (map2 f xs ys) = map2 (map2 f) (chunks n xs) (chunks n ys)"
  using assms
proof (induction n xs arbitrary: ys rule: chunks.induct)
  case (1 n xs)
  show ?case
  proof (cases "n = 0 \<or> xs = []")
    case True
    then show ?thesis using 1 by (auto simp: chunks.simps [of 0])
  next
    case False
    then have "ys \<noteq> []" "xs \<noteq> []" "n \<noteq> 0" using 1 by auto
    then show ?thesis
      using "1.IH" [OF False, of "drop n ys"] "1.prems"
      by (simp add: chunks.simps [of n xs] chunks.simps [of n ys]
          chunks.simps [of n "map2 f xs ys"] take_map drop_map take_zip drop_zip)
  qed
qed

lemma map_map2_hom:
  assumes "length xs = length ys" and "\<forall>a \<in> set xs. length a = k" and "\<forall>b \<in> set ys. length b = k"
    and "\<And>a b. length a = k \<Longrightarrow> length b = k \<Longrightarrow> h (g a) (g b) = g (f a b)"
  shows "map g (map2 f xs ys) = map2 h (map g xs) (map g ys)"
  using assms(1-3) by (induction xs ys rule: list_induct2) (simp_all add: assms(4))

lemma words_xor:
  assumes "length x = 64" and "length y = 64"
  shows "word64s bo (map2 (XOR) x y) = map2 (XOR) (word64s bo x) (word64s bo y)"
    and "word32s bo (map2 (XOR) x y) = map2 (XOR) (word32s bo x) (word32s bo y)"
proof -
  have 8: "length (chunks 8 z) = 8 \<and> (\<forall>ys \<in> set (chunks 8 z). length ys = 8)"
    and 4: "length (chunks 4 z) = 16 \<and> (\<forall>ys \<in> set (chunks 4 z). length ys = 4)"
    if "length z = 64" for z :: "u8 list"
    by (rule chunks_lengths; simp add: that)+
  show "word64s bo (map2 (XOR) x y) = map2 (XOR) (word64s bo x) (word64s bo y)"
    unfolding word64s_def chunks_map2 [OF trans [OF assms(1) assms(2) [symmetric]]]
    by (rule map_map2_hom [where k = 8]) (use 8 [OF assms(1)] 8 [OF assms(2)] in \<open>simp_all add: load64_xor\<close>)
  show "word32s bo (map2 (XOR) x y) = map2 (XOR) (word32s bo x) (word32s bo y)"
    unfolding word32s_def chunks_map2 [OF trans [OF assms(1) assms(2) [symmetric]]]
    by (rule map_map2_hom [where k = 4]) (use 4 [OF assms(1)] 4 [OF assms(2)] in \<open>simp_all add: load32_xor\<close>)
qed

lemma bitwise_xor_bytes:
  assumes "length x = 64" and "length y = 64"
  shows "bitwise_xor bo x y = map2 (XOR) x y"
proof -
  have "bitwise_xor bo x y = of_word64s bo (word64s bo (map2 (XOR) x y))"
    using assms length_word64s [of x 8 bo] length_word64s [of y 8 bo]
    by (simp add: bitwise_xor_def words_xor map_nth_upt)
  then show ?thesis using assms of_word64s_word64s [of "map2 (XOR) x y" 8] by simp
qed

section \<open>The hash function as an interface\<close>

text \<open>The array of the cache: its length, and 64 bytes in every element.\<close>

definition wf_cache :: "nat \<Rightarrow> hash512 list \<Rightarrow> bool" where
  "wf_cache n cache \<longleftrightarrow> length cache = n \<and> (\<forall>x \<in> set cache. length x = 64)"

lemma wf_cache_nth: "wf_cache n cache \<Longrightarrow> i < n \<Longrightarrow> length (cache ! i) = 64"
  by (simp add: wf_cache_def)

lemma wf_cache_update: "wf_cache n cache \<Longrightarrow> length x = 64 \<Longrightarrow> wf_cache n (cache[i := x])"
  using set_update_subset_insert [of cache i x] by (auto simp: wf_cache_def)

text \<open>The two indices of a step are the ones of the specification, and in range.\<close>

lemma cache_step_indices:
  assumes "0 < n" and "n < 2 ^ 31" and "i < n"
  shows "unat (t mod (word_of_nat n :: u32)) = unat t mod n"
    and "unat ((word_of_int (int n + (int i - 1)) :: u32) mod word_of_nat n) = (i + n - 1) mod n"
proof -
  have n: "unat (word_of_nat n :: u32) = n" using assms(2) by (simp add: unat_of_nat)
  then show "unat (t mod (word_of_nat n :: u32)) = unat t mod n" by (simp add: unat_mod_distrib)
  have "int n + (int i - 1) = int (i + n - 1)" using assms by simp
  moreover have "unat (word_of_nat (i + n - 1) :: u32) = i + n - 1"
    unfolding unat_of_nat using assms by simp
  ultimately show "unat ((word_of_int (int n + (int i - 1)) :: u32) mod word_of_nat n) = (i + n - 1) mod n"
    using n by (simp only: unat_mod_distrib of_int_of_nat_eq)
qed

text \<open>What \<open>build_light_cache\<close> needs of any hash function it is given: 64 bytes of output.\<close>

locale hash_function_512 =
  fixes hash_fn :: "u8 list \<Rightarrow> nat \<Rightarrow> hash512"
  assumes length_hash: "length (hash_fn data sz) = 64"
begin

lemma wf_fill_cache:
  "wf_cache n cache \<Longrightarrow> wf_cache n (fill_cache hash_fn num_items i item cache)"
proof (induction "num_items - i" arbitrary: i item cache)
  case 0
  then show ?case by (subst fill_cache.simps) simp
next
  case (Suc k)
  then have "i < num_items" "k = num_items - (i + 1)" by simp_all
  with Suc show ?case
    by (subst fill_cache.simps) (simp add: wf_cache_update length_hash Let_def)
qed

lemma wf_cache_step: "wf_cache n cache \<Longrightarrow> wf_cache n (cache_step bo hash_fn num_items i cache)"
  by (simp add: cache_step_def wf_cache_update length_hash Let_def)

lemma wf_cache_pass:
  "wf_cache n cache \<Longrightarrow> wf_cache n (fold (\<lambda>i. cache_step bo hash_fn num_items i) is cache)"
  by (induction "is" arbitrary: cache) (simp_all add: wf_cache_step)

lemma wf_cache_passes:
  "wf_cache n cache \<Longrightarrow>
     wf_cache n (fold (\<lambda>q. fold (\<lambda>i. cache_step bo hash_fn num_items i) is) qs cache)"
  by (induction qs arbitrary: cache) (simp_all add: wf_cache_pass)

lemma wf_generic_build_light_cache:
  "wf_cache n cache \<Longrightarrow> wf_cache n (generic_build_light_cache bo hash_fn cache num_items seed)"
  unfolding generic_build_light_cache_def Let_def
  by (intro wf_cache_passes wf_fill_cache wf_cache_update length_hash)

end

text \<open>A hash function that is Keccak-512 on whole buffers.\<close>

locale keccak_512_function = hash_function_512 +
  assumes hash_digest: "hash_fn data (length data) = keccak_digest 512 data"
begin

lemma words_hash:
  assumes "length x = 64"
  shows "word32s Little_Endian (hash_fn x 64) = keccak512_words (word32s Little_Endian x)"
  using assms hash_digest [of x] of_word32s_word32s [of x 16 Little_Endian]
  by (simp add: keccak512_words_def)

lemma fill_cache_spec:
  assumes "i \<le> n" and "length cache = n" and "length item = 64"
  shows "map (word32s Little_Endian) (fill_cache hash_fn n i item cache) =
    map (word32s Little_Endian) (take i cache) @
    spec_cache_items (n - i) (keccak512_words (word32s Little_Endian item))"
  using assms
proof (induction "n - i" arbitrary: i item cache)
  case 0
  then show ?case by (subst fill_cache.simps) simp
next
  case (Suc k)
  then have i: "i < n" "k = n - (i + 1)" "n - i = Suc (n - (i + 1))" by simp_all
  with Suc.hyps(1) [OF i(2), of "cache[i := hash_fn item 64]" "hash_fn item 64"] Suc.prems
  show ?case
    by (subst fill_cache.simps) (simp add: Let_def length_hash words_hash take_Suc_conv_app_nth)
qed

lemma cache_step_spec:
  assumes "0 < n" and "n < 2 ^ 31" and "i < n" and "wf_cache n cache"
  shows "map (word32s Little_Endian) (cache_step bo hash_fn n i cache) =
    spec_cache_step n i (map (word32s Little_Endian) cache)"
proof -
  let ?t = "le_uint32 bo (word32s bo (cache ! i) ! 0)"
  let ?v = "unat ?t mod n" and ?w = "(i + n - 1) mod n"
  have l: "length cache = n" "\<And>j. j < n \<Longrightarrow> length (cache ! j) = 64"
    using assms(4) wf_cache_nth by (auto simp: wf_cache_def)
  have vw: "?v < n" "?w < n" using assms(1) by simp_all
  have "?t = map (le_uint32 bo) (word32s bo (cache ! i)) ! 0"
    using length_word32s [of "cache ! i" 16 bo] l assms(3) by simp
  then have t: "?t = word32s Little_Endian (cache ! i) ! 0"
    using map_le_uint32_word32s [of "cache ! i" 16 bo] l assms(3) by simp
  show ?thesis
    unfolding cache_step_def Let_def cache_step_indices(2) [OF assms(1-3)]
    unfolding cache_step_indices(1) [OF assms(1-3)]
    using l vw assms(3) t
    by (simp add: spec_cache_step_def map_update words_hash bitwise_xor_bytes words_xor)
qed

lemma cache_pass_spec:
  assumes "0 < n" and "n < 2 ^ 31" and "wf_cache n cache" and "\<forall>i \<in> set is. i < n"
  shows "map (word32s Little_Endian) (fold (\<lambda>i. cache_step bo hash_fn n i) is cache) =
    fold (spec_cache_step n) is (map (word32s Little_Endian) cache)"
  using assms(3,4)
  by (induction "is" arbitrary: cache) (simp_all add: cache_step_spec [OF assms(1,2)] wf_cache_step)

lemma cache_passes_spec:
  assumes "0 < n" and "n < 2 ^ 31" and "wf_cache n cache"
  shows "map (word32s Little_Endian)
      (fold (\<lambda>q. fold (\<lambda>i. cache_step bo hash_fn n i) [0..<n]) [0..<k] cache) =
    (fold (spec_cache_step n) [0..<n] ^^ k) (map (word32s Little_Endian) cache)"
  by (induction k) (simp_all add: cache_pass_spec [OF assms(1,2)] wf_cache_passes assms(3))

lemma generic_build_light_cache_spec:
  assumes "0 < n" and "n < 2 ^ 31" and "wf_cache n cache" and "length seed = 32"
  shows "map (word32s Little_Endian) (generic_build_light_cache bo hash_fn cache n seed) =
    spec_mkcache n seed"
proof -
  let ?item = "hash_fn seed 32"
  let ?filled = "fill_cache hash_fn n 1 ?item (cache[0 := ?item])"
  have item: "word32s Little_Endian ?item = word32s Little_Endian (keccak_digest 512 seed)"
    using hash_digest [of seed] assms(4) by simp
  have wf: "wf_cache n ?filled"
    using assms(3) by (intro wf_fill_cache wf_cache_update length_hash)
  obtain m where n: "n = Suc m" using assms(1) by (cases n) auto
  have "map (word32s Little_Endian) ?filled = spec_cache_init n seed"
    using fill_cache_spec [of 1 n "cache[0 := ?item]" ?item] assms(1,3) length_hash item n
    by (cases cache) (simp_all add: wf_cache_def spec_cache_init_def)
  then show ?thesis
    unfolding generic_build_light_cache_def Let_def spec_mkcache_def light_cache_rounds_def
    using cache_passes_spec [OF assms(1,2) wf, of bo 3] by simp
qed

end

interpretation k512: keccak_512_function "ethash_keccak512 h" for h
  by unfold_locales (simp_all add: ethash_keccak512_def length_keccak keccak_512)

section \<open>The light cache\<close>

lemma wf_cache_zero [simp]: "wf_cache n (replicate n (zero_hash 64))"
  by (simp add: wf_cache_def)

lemma wf_build_light_cache [simp]:
  "wf_cache n cache \<Longrightarrow> wf_cache n (build_light_cache h cache num_items seed)"
  by (simp add: build_light_cache_def k512.wf_generic_build_light_cache)

lemma build_light_cache_spec:
  assumes "0 < n" and "n < 2 ^ 31" and "wf_cache n cache" and "length seed = 32"
  shows "map (word32s Little_Endian) (build_light_cache h cache n seed) = spec_mkcache n seed"
  unfolding build_light_cache_def by (rule k512.generic_build_light_cache_spec [OF assms])

text \<open>
  C5. For every positive number of items that fits an \<open>int\<close>, the cache that is built in an
  array of that many elements is the cache of the Ethash specification, word for word, whatever
  the array held and whatever the byte order of the host; the array keeps its shape.
\<close>

theorem build_light_cache_correct:
  assumes "0 < num_items" and "num_items < 2 ^ 31" and "wf_cache num_items cache"
    and "length seed = 32"
  shows "map (word32s Little_Endian) (build_light_cache h cache num_items seed) =
      spec_mkcache num_items seed \<and>
    wf_cache num_items (build_light_cache h cache num_items seed)"
  using build_light_cache_spec [OF assms] assms(3) by simp

theorem build_light_cache_correct_witness:
  "map (word32s Little_Endian)
     (build_light_cache \<lparr>host_order = Big_Endian, host_bmi = True, host_bmi2 = False\<rparr>
        (replicate 3 (zero_hash 64)) 3 (zero_hash 32)) = spec_mkcache 3 (zero_hash 32)"
  by (rule conjunct1 [OF build_light_cache_correct]) simp_all

end
