(* ===== verification/Ethash_Dataset.thy ===== *)
theory Ethash_Dataset
  imports Ethash_Cache
begin

text \<open>
  The dataset items of \<^verbatim>\<open>ethash/lib/ethash/ethash.cpp\<close>: the struct \<open>item_state\<close> with its constructor,
  \<open>update\<close> and \<open>final\<close>, and the items of 512, 1024 and 2048 bits, the wider ones computed with their
  parts interleaved. Each item is the item of the Ethash specification, so the wide items are the
  narrow ones side by side, and none of them depends on the host.
\<close>

section \<open>The C++ routines\<close>

text \<open>
  The pointer \<open>light_cache\<close> is the array it points to; \<open>l1_cache\<close>, which nothing reads, is its
  offset into the allocation of the context.
\<close>

record epoch_context =
  epoch_number :: int
  light_cache_num_items :: int
  light_cache :: "hash512 list"
  l1_cache :: nat
  full_dataset_num_items :: int

definition full_dataset_item_parents :: nat where
  "full_dataset_item_parents = 256"

record item_state =
  item_seed :: u32
  item_mix :: hash512

definition item_state_new :: "host \<Rightarrow> 'a epoch_context_scheme \<Rightarrow> int \<Rightarrow> item_state" where
  "item_state_new h context index =
     (let bo = host_order h;
          seed = (word_of_int index :: u32);
          mix = light_cache context ! nat (index mod light_cache_num_items context);
          ws = word32s bo mix;
          mix = of_word32s bo (ws[0 := ws ! 0 XOR le_uint32 bo seed]);
          mix = le_uint32s bo (ethash_keccak512_64 h mix)
      in \<lparr>item_seed = seed, item_mix = mix\<rparr>)"

definition item_update ::
    "host \<Rightarrow> 'a epoch_context_scheme \<Rightarrow> u32 \<Rightarrow> item_state \<Rightarrow> item_state" where
  "item_update h context round st =
     (let bo = host_order h;
          t = fnv1 (item_seed st XOR round) (word32s bo (item_mix st) ! (unat round mod 16));
          parent_index = int (unat t) mod light_cache_num_items context
      in st\<lparr>item_mix := fnv1_512 bo (item_mix st)
              (le_uint32s bo (light_cache context ! nat parent_index))\<rparr>)"

definition item_final :: "host \<Rightarrow> item_state \<Rightarrow> hash512" where
  "item_final h st = ethash_keccak512_64 h (le_uint32s (host_order h) (item_mix st))"

definition calculate_dataset_item_512 :: "host \<Rightarrow> 'a epoch_context_scheme \<Rightarrow> int \<Rightarrow> hash512" where
  "calculate_dataset_item_512 h context index =
     (let item0 = item_state_new h context index;
          item0 = fold (\<lambda>j item0. item_update h context (word_of_nat j) item0)
                    [0..<full_dataset_item_parents] item0
      in item_final h item0)"

definition calculate_dataset_item_1024 :: "host \<Rightarrow> 'a epoch_context_scheme \<Rightarrow> u32 \<Rightarrow> hash1024" where
  "calculate_dataset_item_1024 h context index =
     (let item0 = item_state_new h context (int (unat index) * 2);
          item1 = item_state_new h context (int (unat index) * 2 + 1);
          (item0, item1) =
            fold (\<lambda>j (item0, item1).
                    (item_update h context (word_of_nat j) item0,
                     item_update h context (word_of_nat j) item1))
              [0..<full_dataset_item_parents] (item0, item1)
      in item_final h item0 @ item_final h item1)"

definition calculate_dataset_item_2048 :: "host \<Rightarrow> 'a epoch_context_scheme \<Rightarrow> u32 \<Rightarrow> hash2048" where
  "calculate_dataset_item_2048 h context index =
     (let item0 = item_state_new h context (int (unat index) * 4);
          item1 = item_state_new h context (int (unat index) * 4 + 1);
          item2 = item_state_new h context (int (unat index) * 4 + 2);
          item3 = item_state_new h context (int (unat index) * 4 + 3);
          (item0, item1, item2, item3) =
            fold (\<lambda>j (item0, item1, item2, item3).
                    (item_update h context (word_of_nat j) item0,
                     item_update h context (word_of_nat j) item1,
                     item_update h context (word_of_nat j) item2,
                     item_update h context (word_of_nat j) item3))
              [0..<full_dataset_item_parents] (item0, item1, item2, item3)
      in item_final h item0 @ item_final h item1 @ item_final h item2 @ item_final h item3)"

section \<open>Contexts and their abstraction\<close>

text \<open>
  A usable context: the cache has the stated, positive number of items and the dataset size is
  positive; both fit an \<open>int\<close>.
\<close>

definition wf_context :: "'a epoch_context_scheme \<Rightarrow> bool" where
  "wf_context context \<longleftrightarrow>
     0 < light_cache_num_items context \<and> light_cache_num_items context < 2 ^ 31 \<and>
     wf_cache (nat (light_cache_num_items context)) (light_cache context) \<and>
     0 < full_dataset_num_items context \<and> full_dataset_num_items context < 2 ^ 31"

definition cache_words :: "'a epoch_context_scheme \<Rightarrow> u32 list list" where
  "cache_words context = map (word32s Little_Endian) (light_cache context)"

lemma nth_cache_words:
  assumes "wf_context context" and "0 \<le> i"
  shows "length (light_cache context ! nat (i mod light_cache_num_items context)) = 64"
    and "word32s Little_Endian (light_cache context ! nat (i mod light_cache_num_items context)) =
      cache_words context ! (nat i mod length (cache_words context))"
proof -
  let ?n = "light_cache_num_items context"
  have n: "0 < ?n" "nat ?n = length (light_cache context)"
    using assms(1) by (auto simp: wf_context_def wf_cache_def)
  have lt: "nat (i mod ?n) < nat ?n" using n(1) by simp
  then show "length (light_cache context ! nat (i mod ?n)) = 64"
    using assms(1) wf_cache_nth by (auto simp: wf_context_def)
  have "nat (i mod ?n) = nat i mod nat ?n" using assms(2) n(1) by (simp add: nat_mod_distrib)
  then show "word32s Little_Endian (light_cache context ! nat (i mod ?n)) =
      cache_words context ! (nat i mod length (cache_words context))"
    using lt n by (simp add: cache_words_def)
qed

section \<open>Items\<close>

text \<open>The words of the mix are held in host order; they are the words of the specification.\<close>

definition item_rel :: "host \<Rightarrow> nat \<Rightarrow> u32 list \<Rightarrow> item_state \<Rightarrow> bool" where
  "item_rel h i mix st \<longleftrightarrow>
     item_seed st = word_of_nat i \<and> length (item_mix st) = 64 \<and>
     word32s (host_order h) (item_mix st) = mix"

lemma keccak512_words_bytes:
  "length x = 64 \<Longrightarrow>
     word32s Little_Endian (ethash_keccak512_64 h x) = keccak512_words (word32s Little_Endian x)"
  using of_word32s_word32s [of x 16 Little_Endian]
  by (simp add: ethash_keccak_digest keccak512_words_def)

lemma length_ethash_keccak512_64 [simp, len_simps]: "length (ethash_keccak512_64 h x) = 64"
  by (simp add: ethash_keccak512_64_def length_keccak)

lemma le_uint32_xor: "le_uint32 bo (x XOR le_uint32 bo y) = le_uint32 bo x XOR y"
  by (simp add: le_uint32_def bswap32_def le_split_xor rev_map le_join_xor
      flip: zip_rev split: byte_order.split)

lemma item_rel_new:
  assumes "wf_context context"
  shows "item_rel h i
    (let mix = cache_words context ! (i mod length (cache_words context))
     in keccak512_words (mix[0 := mix ! 0 XOR word_of_nat i]))
    (item_state_new h context (int i))"
proof -
  let ?bo = "host_order h"
  let ?c = "light_cache context ! nat (int i mod light_cache_num_items context)"
  let ?ws = "word32s ?bo ?c" and ?lw = "word32s Little_Endian ?c"
  let ?mix = "of_word32s ?bo (?ws[0 := ?ws ! 0 XOR le_uint32 ?bo (word_of_nat i)])"
  note c = nth_cache_words [OF assms, of "int i"]
  have l: "length ?ws = 16" "length ?lw = 16" using c(1) length_word32s [of ?c 16] by auto
  have lm: "length ?mix = 64" by (simp add: l)
  have lw: "?lw = map (le_uint32 ?bo) ?ws"
    using map_le_uint32_word32s [of ?c 16 ?bo] c(1) by simp
  have "word32s Little_Endian ?mix = map (le_uint32 ?bo) (word32s ?bo ?mix)"
    using map_le_uint32_word32s [of ?mix 16 ?bo] lm by simp
  also have "\<dots> = ?lw[0 := ?lw ! 0 XOR word_of_nat i]"
    by (simp add: lw map_update le_uint32_xor l)
  finally have "word32s Little_Endian (ethash_keccak512_64 h ?mix) =
      keccak512_words (?lw[0 := ?lw ! 0 XOR word_of_nat i])"
    using keccak512_words_bytes [OF lm] by simp
  then show ?thesis
    using c word32s_le_uint32s [of "ethash_keccak512_64 h ?mix" 16 ?bo]
      length_le_uint32s [of "ethash_keccak512_64 h ?mix" 16 ?bo]
    by (simp add: item_rel_def item_state_new_def Let_def)
qed

lemma item_rel_update:
  assumes "wf_context context" and "item_rel h i mix st" and "j < 2 ^ 32"
  shows "item_rel h i (spec_dataset_parent (cache_words context) i j mix)
    (item_update h context (word_of_nat j) st)"
proof -
  let ?t = "fnv1 (word_of_nat i XOR word_of_nat j) (mix ! (j mod 16))"
  let ?c = "light_cache context ! nat (int (unat ?t) mod light_cache_num_items context)"
  note c = nth_cache_words [OF assms(1), of "int (unat ?t)"]
  have "unat (word_of_nat j :: u32) = j" using assms(3) by (simp add: unat_of_nat)
  then show ?thesis
    using assms(2) c word32s_le_uint32s [of ?c 16] length_le_uint32s [of ?c 16]
    by (simp add: item_rel_def item_update_def Let_def spec_dataset_parent_def word32s_fnv1_512)
qed

lemma item_rel_fold:
  assumes "wf_context context" and "item_rel h i mix st" and "\<forall>j \<in> set js. j < 2 ^ 32"
  shows "item_rel h i (fold (spec_dataset_parent (cache_words context) i) js mix)
    (fold (\<lambda>j. item_update h context (word_of_nat j)) js st)"
  using assms(2,3)
  by (induction js arbitrary: mix st) (simp_all add: item_rel_update [OF assms(1)])

lemma item_final_words:
  assumes "item_rel h i mix st"
  shows "word32s Little_Endian (item_final h st) = keccak512_words mix"
proof -
  have "le_uint32s (host_order h) (item_mix st) = of_word32s Little_Endian mix"
    using assms le_uint32s_of_word32s [of "host_order h" mix]
      of_word32s_word32s [of "item_mix st" 16 "host_order h"] by (simp add: item_rel_def)
  moreover have "length mix = 16"
    using assms length_word32s [of "item_mix st" 16 "host_order h"] by (simp add: item_rel_def)
  ultimately show ?thesis by (simp add: item_final_def keccak512_words_bytes)
qed

lemma length_item_final [simp, len_simps]: "length (item_final h st) = 64"
  by (simp add: item_final_def)

lemma length_calculate_dataset_item [simp, len_simps]:
  "length (calculate_dataset_item_512 h context i) = 64"
  "length (calculate_dataset_item_1024 h context p) = 128"
  by (simp_all add: calculate_dataset_item_512_def calculate_dataset_item_1024_def Let_def
      split: prod.split)

lemma dataset_item_512_spec:
  assumes "wf_context context"
  shows "word32s Little_Endian (calculate_dataset_item_512 h context (int i)) =
    spec_dataset_item (cache_words context) i"
  unfolding calculate_dataset_item_512_def full_dataset_item_parents_def spec_dataset_item_def Let_def
  by (rule item_final_words, rule item_rel_fold [OF assms])
    (use item_rel_new [OF assms] in \<open>simp_all add: Let_def\<close>)

text \<open>Folding over several items at once is folding over each.\<close>

lemma fold_pair:
  "fold (\<lambda>j (x, y). (f j x, g j y)) js (x, y) = (fold f js x, fold g js y)"
  by (induction js arbitrary: x y) simp_all

lemma fold_quad:
  "fold (\<lambda>j (w, x, y, z). (f j w, f j x, f j y, f j z)) js (w, x, y, z) =
     (fold f js w, fold f js x, fold f js y, fold f js z)"
  by (induction js arbitrary: w x y z) simp_all

lemma dataset_item_1024_parts:
  "calculate_dataset_item_1024 h context p =
     calculate_dataset_item_512 h context (int (unat p) * 2) @
     calculate_dataset_item_512 h context (int (unat p) * 2 + 1)"
  by (simp add: calculate_dataset_item_1024_def calculate_dataset_item_512_def fold_pair Let_def)

lemma dataset_item_2048_parts:
  "calculate_dataset_item_2048 h context p =
     calculate_dataset_item_512 h context (int (unat p) * 4) @
     calculate_dataset_item_512 h context (int (unat p) * 4 + 1) @
     calculate_dataset_item_512 h context (int (unat p) * 4 + 2) @
     calculate_dataset_item_512 h context (int (unat p) * 4 + 3)"
  by (simp add: calculate_dataset_item_2048_def calculate_dataset_item_512_def fold_quad Let_def)

lemma dataset_item_1024_spec:
  assumes "wf_context context"
  shows "word32s Little_Endian (calculate_dataset_item_1024 h context p) =
    spec_dataset_item_1024 (cache_words context) (unat p)"
  using dataset_item_512_spec [OF assms, of h "2 * unat p"]
    dataset_item_512_spec [OF assms, of h "2 * unat p + 1"]
  by (simp add: dataset_item_1024_parts spec_dataset_item_1024_def word32s_append [where k = 16]
      ac_simps)

lemma dataset_item_2048_spec:
  assumes "wf_context context"
  shows "word32s Little_Endian (calculate_dataset_item_2048 h context p) =
    concat (map (spec_dataset_item (cache_words context))
      [4 * unat p, 4 * unat p + 1, 4 * unat p + 2, 4 * unat p + 3])"
  using dataset_item_512_spec [OF assms, of h "4 * unat p"]
    dataset_item_512_spec [OF assms, of h "4 * unat p + 1"]
    dataset_item_512_spec [OF assms, of h "4 * unat p + 2"]
    dataset_item_512_spec [OF assms, of h "4 * unat p + 3"]
  by (simp add: dataset_item_2048_parts word32s_append [where k = 16] ac_simps)

text \<open>
  C6. The three item functions compute the items of the Ethash specification over the cache of the
  context, on either kind of host: the 512-bit item is item \<open>i\<close>, the 1024-bit item \<open>p\<close> is the
  items \<open>2p\<close> and \<open>2p + 1\<close>, and the 2048-bit item \<open>p\<close> the items \<open>4p\<close> to \<open>4p + 3\<close>, although the
  wide ones are computed with their parts interleaved.
\<close>

theorem dataset_items_correct:
  assumes "wf_context context"
  shows "word32s Little_Endian (calculate_dataset_item_512 h context (int i)) =
      spec_dataset_item (cache_words context) i \<and>
    word32s Little_Endian (calculate_dataset_item_1024 h context p) =
      spec_dataset_item_1024 (cache_words context) (unat p) \<and>
    word32s Little_Endian (calculate_dataset_item_2048 h context p) =
      concat (map (spec_dataset_item (cache_words context))
        [4 * unat p, 4 * unat p + 1, 4 * unat p + 2, 4 * unat p + 3])"
  using assms dataset_item_512_spec dataset_item_1024_spec dataset_item_2048_spec by blast

text \<open>A small context: a cache of one item and a dataset of two.\<close>

definition small_context :: epoch_context where
  "small_context =
     \<lparr>epoch_number = 0, light_cache_num_items = 1, light_cache = [replicate 64 7], l1_cache = 128,
      full_dataset_num_items = 2\<rparr>"

lemma wf_small_context [simp]: "wf_context small_context"
  by (simp add: wf_context_def small_context_def wf_cache_def)

theorem dataset_items_correct_witness:
  "word32s Little_Endian (calculate_dataset_item_1024
     \<lparr>host_order = Big_Endian, host_bmi = False, host_bmi2 = False\<rparr> small_context 5) =
   spec_dataset_item_1024 (cache_words small_context) 5"
  using dataset_items_correct [OF wf_small_context, of _ 0 5] by simp

end
