(* ===== verification/Ethash.thy ===== *)
theory Ethash
  imports Ethash_Dataset
begin

text \<open>
  The hash, verification and search of \<^verbatim>\<open>ethash/lib/ethash/ethash.cpp\<close> and the comparison of
  \<^verbatim>\<open>ethash/lib/ethash/ethash-internal.hpp\<close>. The kernel is parametrised by the way it obtains dataset
  items, a stateful lookup described by a locale: computing each item, or reading it from the
  lazily filled full dataset. Both are instances, so both hashes are Hashimoto of the Ethash
  specification, and the full dataset only ever holds correct items. On top of that, verification
  accepts exactly the valid solutions and the search finds the first one.
\<close>

section \<open>The C++ routines\<close>

record epoch_context_full = epoch_context +
  full_dataset :: "hash1024 list option"

record ethash_result =
  final_hash :: hash256
  mix_hash :: hash256

record search_result =
  solution_found :: bool
  sr_nonce :: u64
  sr_final_hash :: hash256
  sr_mix_hash :: hash256

definition search_result_default :: search_result where
  "search_result_default =
     \<lparr>solution_found = False, sr_nonce = 0, sr_final_hash = zero_hash 32, sr_mix_hash = zero_hash 32\<rparr>"

definition search_result_of :: "ethash_result \<Rightarrow> u64 \<Rightarrow> search_result" where
  "search_result_of res n =
     \<lparr>solution_found = True, sr_nonce = n, sr_final_hash = final_hash res, sr_mix_hash = mix_hash res\<rparr>"

function is_less_or_equal_from :: "byte_order \<Rightarrow> hash256 \<Rightarrow> hash256 \<Rightarrow> nat \<Rightarrow> bool" where
  "is_less_or_equal_from bo a b i =
     (if i < 4
      then if be_uint64 bo (word64s bo a ! i) > be_uint64 bo (word64s bo b ! i) then False
           else if be_uint64 bo (word64s bo a ! i) < be_uint64 bo (word64s bo b ! i) then True
           else is_less_or_equal_from bo a b (i + 1)
      else True)"
  by pat_completeness auto
termination
  by (relation "measure (\<lambda>(bo, a, b, i). 4 - i)") auto

declare is_less_or_equal_from.simps [simp del]

definition is_less_or_equal :: "byte_order \<Rightarrow> hash256 \<Rightarrow> hash256 \<Rightarrow> bool" where
  "is_less_or_equal bo a b = is_less_or_equal_from bo a b 0"

definition is_equal :: "hash256 \<Rightarrow> hash256 \<Rightarrow> bool" where
  "is_equal a b \<longleftrightarrow> take 32 a = take 32 b"

definition hash_seed :: "host \<Rightarrow> hash256 \<Rightarrow> u64 \<Rightarrow> hash512" where
  "hash_seed h header_hash nonce =
     (let nonce = le_uint64 (host_order h) nonce;
          init_data = header_hash @ store64 (host_order h) nonce
      in ethash_keccak512 h init_data (32 + 8))"

definition hash_final :: "host \<Rightarrow> hash512 \<Rightarrow> hash256 \<Rightarrow> hash256" where
  "hash_final h seed mix = ethash_keccak256 h (seed @ mix) (64 + 32)"

definition num_dataset_accesses :: nat where
  "num_dataset_accesses = 64"

text \<open>
  One access of the kernel. The lookup may update the context (the lazily filled dataset is
  reached through a pointer in it), so it returns the context with the item.
\<close>

definition kernel_access ::
    "byte_order \<Rightarrow> ('a epoch_context_scheme \<Rightarrow> u32 \<Rightarrow> hash1024 \<times> 'a epoch_context_scheme) \<Rightarrow>
     u32 \<Rightarrow> u32 \<Rightarrow> nat \<Rightarrow> hash1024 \<times> 'a epoch_context_scheme \<Rightarrow> hash1024 \<times> 'a epoch_context_scheme" where
  "kernel_access bo lookup index_limit seed_init i = (\<lambda>(mix, context).
     (let p = fnv1 (word_of_nat i XOR seed_init) (word32s bo mix ! (i mod 32)) mod index_limit;
          (item, context) = lookup context p;
          newdata = le_uint32s bo item;
          mix = of_word32s bo
                  (map (\<lambda>j. fnv1 (word32s bo mix ! j) (word32s bo newdata ! j)) [0..<32])
      in (mix, context)))"

definition compress_word :: "u32 list \<Rightarrow> nat \<Rightarrow> u32" where
  "compress_word ws i =
     (let h1 = fnv1 (ws ! i) (ws ! (i + 1));
          h2 = fnv1 h1 (ws ! (i + 2));
          h3 = fnv1 h2 (ws ! (i + 3))
      in h3)"

definition hash_kernel ::
    "host \<Rightarrow> 'a epoch_context_scheme \<Rightarrow> hash512 \<Rightarrow>
     ('a epoch_context_scheme \<Rightarrow> u32 \<Rightarrow> hash1024 \<times> 'a epoch_context_scheme) \<Rightarrow>
     hash256 \<times> 'a epoch_context_scheme" where
  "hash_kernel h context seed lookup =
     (let bo = host_order h;
          index_limit = (word_of_int (full_dataset_num_items context) :: u32);
          seed_init = le_uint32 bo (word32s bo seed ! 0);
          mix = le_uint32s bo seed @ le_uint32s bo seed;
          (mix, context) =
            fold (kernel_access bo lookup index_limit seed_init) [0..<num_dataset_accesses] (mix, context);
          result = of_word32s bo (map (\<lambda>k. compress_word (word32s bo mix) (4 * k)) [0..<8])
      in (le_uint32s bo result, context))"

definition light_lookup ::
    "host \<Rightarrow> 'a epoch_context_scheme \<Rightarrow> u32 \<Rightarrow> hash1024 \<times> 'a epoch_context_scheme" where
  "light_lookup h context index = (calculate_dataset_item_1024 h context index, context)"

text \<open>The lambda of \<open>hash\<close>: an item whose first 64-bit word is zero is computed and stored.\<close>

definition lazy_lookup ::
    "host \<Rightarrow> epoch_context_full \<Rightarrow> u32 \<Rightarrow> hash1024 \<times> epoch_context_full" where
  "lazy_lookup h context index =
     (let dataset = the (full_dataset context);
          item = dataset ! unat index
      in if word64s (host_order h) item ! 0 = 0
         then let item = calculate_dataset_item_1024 h context index
              in (item, context\<lparr>full_dataset := Some (dataset[unat index := item])\<rparr>)
         else (item, context))"

definition hash_full ::
    "host \<Rightarrow> epoch_context_full \<Rightarrow> hash256 \<Rightarrow> u64 \<Rightarrow> ethash_result \<times> epoch_context_full" where
  "hash_full h context header_hash nonce =
     (let seed = hash_seed h header_hash nonce;
          (mix, context) = hash_kernel h context seed (lazy_lookup h)
      in (\<lparr>final_hash = hash_final h seed mix, mix_hash = mix\<rparr>, context))"

definition ethash_hash :: "host \<Rightarrow> 'a epoch_context_scheme \<Rightarrow> hash256 \<Rightarrow> u64 \<Rightarrow> ethash_result" where
  "ethash_hash h context header_hash nonce =
     (let seed = hash_seed h header_hash nonce;
          mix = fst (hash_kernel h context seed (light_lookup h))
      in \<lparr>final_hash = hash_final h seed mix, mix_hash = mix\<rparr>)"

definition ethash_verify_final_hash :: "host \<Rightarrow> hash256 \<Rightarrow> hash256 \<Rightarrow> u64 \<Rightarrow> hash256 \<Rightarrow> bool" where
  "ethash_verify_final_hash h header_hash mix nonce boundary =
     (let seed = hash_seed h header_hash nonce
      in is_less_or_equal (host_order h) (hash_final h seed mix) boundary)"

definition ethash_verify ::
    "host \<Rightarrow> 'a epoch_context_scheme \<Rightarrow> hash256 \<Rightarrow> hash256 \<Rightarrow> u64 \<Rightarrow> hash256 \<Rightarrow> bool" where
  "ethash_verify h context header_hash mix nonce boundary =
     (let seed = hash_seed h header_hash nonce
      in if \<not> is_less_or_equal (host_order h) (hash_final h seed mix) boundary then False
         else let expected_mix_hash = fst (hash_kernel h context seed (light_lookup h))
              in is_equal expected_mix_hash mix)"

lemma less_imp_unat_Suc:
  assumes "(a :: 'a::len word) < b"
  shows "unat (a + 1) = Suc (unat a)"
proof -
  have "unat b < 2 ^ LENGTH('a)" and "unat a < unat b"
    using assms by (simp_all add: word_less_nat_alt)
  then have "Suc (unat a) < 2 ^ LENGTH('a)" by linarith
  then show ?thesis by (simp add: unat_word_ariths)
qed

function search_light_from ::
    "host \<Rightarrow> 'a epoch_context_scheme \<Rightarrow> hash256 \<Rightarrow> hash256 \<Rightarrow> u64 \<Rightarrow> u64 \<Rightarrow> search_result" where
  "search_light_from h context header_hash boundary nonce end_nonce =
     (if nonce < end_nonce
      then let r = ethash_hash h context header_hash nonce
           in if is_less_or_equal (host_order h) (final_hash r) boundary
              then search_result_of r nonce
              else search_light_from h context header_hash boundary (nonce + 1) end_nonce
      else search_result_default)"
  by pat_completeness auto
termination
  by (relation "measure (\<lambda>(h, context, header, boundary, nonce, end_nonce). unat end_nonce - unat nonce)")
    (auto simp: less_imp_unat_Suc word_less_nat_alt intro!: diff_less_mono2)

definition search_light ::
    "host \<Rightarrow> 'a epoch_context_scheme \<Rightarrow> hash256 \<Rightarrow> hash256 \<Rightarrow> u64 \<Rightarrow> u64 \<Rightarrow> search_result" where
  "search_light h context header_hash boundary start_nonce iterations =
     search_light_from h context header_hash boundary start_nonce (start_nonce + iterations)"

function search_from ::
    "host \<Rightarrow> epoch_context_full \<Rightarrow> hash256 \<Rightarrow> hash256 \<Rightarrow> u64 \<Rightarrow> u64 \<Rightarrow> search_result \<times> epoch_context_full" where
  "search_from h context header_hash boundary nonce end_nonce =
     (if nonce < end_nonce
      then let (r, context) = hash_full h context header_hash nonce
           in if is_less_or_equal (host_order h) (final_hash r) boundary
              then (search_result_of r nonce, context)
              else search_from h context header_hash boundary (nonce + 1) end_nonce
      else (search_result_default, context))"
  by pat_completeness auto
termination
  by (relation "measure (\<lambda>(h, context, header, boundary, nonce, end_nonce). unat end_nonce - unat nonce)")
    (auto simp: less_imp_unat_Suc word_less_nat_alt intro!: diff_less_mono2)

definition search ::
    "host \<Rightarrow> epoch_context_full \<Rightarrow> hash256 \<Rightarrow> hash256 \<Rightarrow> u64 \<Rightarrow> u64 \<Rightarrow> search_result \<times> epoch_context_full" where
  "search h context header_hash boundary start_nonce iterations =
     search_from h context header_hash boundary start_nonce (start_nonce + iterations)"

declare search_light_from.simps [simp del] search_from.simps [simp del]

section \<open>The comparison is numerical\<close>

lemma unat_le_join:
  assumes "8 * length bs \<le> LENGTH('a::len)"
  shows "unat (le_join bs :: 'a word) = be_nat (rev bs)"
  using assms
proof (induction bs)
  case (Cons b bs)
  let ?w = "le_join bs :: 'a word"
  have "unat ?w < 256 ^ length bs" using Cons be_nat_less [of "rev bs"] by simp
  also have "(256 :: nat) ^ length bs = 2 ^ (8 * length bs)" by (simp add: power_mult)
  also have "\<dots> \<le> 2 ^ (LENGTH('a) - 8)" using Cons.prems by (intro power_increasing) simp_all
  finally have w: "unat ?w < 2 ^ (LENGTH('a) - 8)" .
  have b: "unat b < 2 ^ 8" using unsigned_less [of b, where ?'a = nat] by simp
  moreover have "(2 ^ 8 :: nat) * 2 ^ (LENGTH('a) - 8) = 2 ^ LENGTH('a)"
    using Cons.prems power_add [of "2 :: nat" 8 "LENGTH('a) - 8"] by simp
  ultimately have bound: "unat b + 2 ^ 8 * unat ?w < 2 ^ LENGTH('a)" using w by simp
  have "push_bit 8 (unat ?w) = 2 ^ 8 * unat ?w" by (simp add: push_bit_eq_mult)
  then have push: "unat (push_bit 8 ?w) = 2 ^ 8 * unat ?w"
    using bound by (simp only: unsigned_push_bit_eq) (simp add: take_bit_nat_eq_self)
  have "(2 :: nat) ^ 8 \<le> 2 ^ LENGTH('a)" using Cons.prems by (intro power_increasing) simp_all
  then have cast: "unat (ucast b :: 'a word) = unat b"
    using b by (simp only: unsigned_ucast_eq) (simp add: take_bit_nat_eq_self)
  have "le_join (b # bs) = ucast b + push_bit 8 ?w"
    unfolding le_join.simps
    by (rule disjunctive_add [symmetric]) (auto simp: bit_simps dest: bit_imp_le_length)
  then have "unat (le_join (b # bs) :: 'a word) = unat b + 2 ^ 8 * unat ?w"
    using bound by (simp only: unat_word_ariths push cast) simp
  then show ?case using Cons by (simp add: be_nat_append) (simp add: be_nat_def)
qed (simp add: be_nat_def)

lemma unat_be_uint64:
  assumes "length a = 32" and "i < 4"
  shows "unat (be_uint64 bo (word64s bo a ! i)) = be_nat (take 8 (drop (8 * i) a))"
proof -
  let ?c = "take 8 (drop (8 * i) a)"
  have l: "length ?c = 8" using assms by simp
  have "word64s bo a ! i = load64 bo ?c"
    using assms nth_chunks [of 8 a 4 i] chunks_lengths [of 8 a 4] by (simp add: word64s_def)
  then have "be_uint64 bo (word64s bo a ! i) = le_join (rev ?c)"
    using be_uint64_load64 [OF l] by (simp add: load64_def)
  then show ?thesis using unat_le_join [of "rev ?c", where 'a = 64] l by simp
qed

lemma digit_compare:
  fixes x y m r s :: nat
  assumes "r < m" and "s < m"
  shows "x * m + r \<le> y * m + s \<longleftrightarrow> x < y \<or> x = y \<and> r \<le> s"
proof -
  have "x * m + m \<le> y * m" if "x < y" for x y
    using that mult_right_mono [of "Suc x" y m] by simp
  then show ?thesis using assms by (cases x y rule: linorder_cases) fastforce+
qed

lemma is_less_or_equal_from_iff:
  assumes "length a = 32" and "length b = 32" and "i \<le> 4"
  shows "is_less_or_equal_from bo a b i \<longleftrightarrow> be_nat (drop (8 * i) a) \<le> be_nat (drop (8 * i) b)"
  using assms
proof (induction bo a b i rule: is_less_or_equal_from.induct)
  case (1 bo a b i)
  show ?case
  proof (cases "i < 4")
    case True
    let ?x = "\<lambda>c. be_nat (take 8 (drop (8 * i) c))" and ?r = "\<lambda>c. be_nat (drop (8 * (i + 1)) c)"
    have split: "be_nat (drop (8 * i) c) = ?x c * 256 ^ (24 - 8 * i) + ?r c"
      and less: "?r c < 256 ^ (24 - 8 * i)" if "length c = 32" for c
    proof -
      have d: "drop (8 * i) c = take 8 (drop (8 * i) c) @ drop (8 * (i + 1)) c"
        by (simp add: add.commute flip: drop_drop)
      have "length (drop (8 * (i + 1)) c) = 24 - 8 * i" using that by simp
      then show "be_nat (drop (8 * i) c) = ?x c * 256 ^ (24 - 8 * i) + ?r c"
        by (subst d) (simp only: be_nat_append)
      show "?r c < 256 ^ (24 - 8 * i)" using that be_nat_less [of "drop (8 * (i + 1)) c"] by simp
    qed
    show ?thesis
      using True "1.IH" [OF True] "1.prems" unat_be_uint64 [of a i bo] unat_be_uint64 [of b i bo]
        digit_compare [OF less less, of a b "?x a" "?x b"]
      by (subst is_less_or_equal_from.simps) (auto simp: split word_less_nat_alt)
  next
    case False
    with "1.prems" show ?thesis by (subst is_less_or_equal_from.simps) simp
  qed
qed

lemma is_less_or_equal_iff:
  "length a = 32 \<Longrightarrow> length b = 32 \<Longrightarrow> is_less_or_equal bo a b \<longleftrightarrow> be_nat a \<le> be_nat b"
  by (simp add: is_less_or_equal_def is_less_or_equal_from_iff)

section \<open>The dataset lookup as an interface\<close>

lemma length_hash_seed [simp, len_simps]: "length (hash_seed h header nonce) = 64"
  by (simp add: hash_seed_def ethash_keccak512_def length_keccak)

lemma length_hash_final [simp, len_simps]: "length (hash_final h seed mix) = 32"
  by (simp add: hash_final_def ethash_keccak256_def length_keccak)

lemma hash_seed_spec: "length header = 32 \<Longrightarrow> hash_seed h header nonce = spec_seed_hash header nonce"
  using ethash_keccak_digest(2) [of h "header @ store64 Little_Endian nonce"]
  unfolding hash_seed_def Let_def le_uint64_store
  by (simp add: spec_seed_hash_def store64_def)

lemma hash_final_spec:
  "length seed = 64 \<Longrightarrow> length mix = 32 \<Longrightarrow> hash_final h seed mix = keccak_digest 256 (seed @ mix)"
  using ethash_keccak_digest(1) [of h "seed @ mix"] by (simp add: hash_final_def)

lemma compress_words:
  assumes "length ws = 32"
  shows "map (\<lambda>k. compress_word ws (4 * k)) [0..<8] = spec_compress ws"
proof -
  have c: "length (chunks 4 ws) = 8" using chunks_lengths [of 4 ws 8] assms by simp
  have "fold (\<lambda>w h. fnv1 h w) (tl (chunks 4 ws ! k)) (hd (chunks 4 ws ! k)) = compress_word ws (4 * k)"
    if "k < 8" for k
  proof -
    have "chunks 4 ws ! k = take 4 (drop (4 * k) ws)" using nth_chunks [of 4 ws 8 k] assms that by simp
    also have "\<dots> = map ((!) ws) [4 * k..<4 * k + 4]"
      using assms that by (intro nth_equalityI) simp_all
    also have "\<dots> = [ws ! (4 * k), ws ! (4 * k + 1), ws ! (4 * k + 2), ws ! (4 * k + 3)]"
      by (simp add: upt_rec eval_nat_numeral)
    finally show ?thesis by (simp add: compress_word_def Let_def)
  qed
  then show ?thesis using c by (intro nth_equalityI) (simp_all add: spec_compress_def)
qed

text \<open>
  What the kernel relies on: while the invariant holds, a lookup in range yields 128 bytes whose
  words are the item of the dataset, keeps the invariant, and the number of items does not change.
\<close>

locale dataset_lookup =
  fixes lookup :: "'a epoch_context_scheme \<Rightarrow> u32 \<Rightarrow> hash1024 \<times> 'a epoch_context_scheme"
    and inv :: "'a epoch_context_scheme \<Rightarrow> bool"
    and item :: "nat \<Rightarrow> u32 list"
    and n :: nat
  assumes num_items: "inv c \<Longrightarrow> full_dataset_num_items c = int n \<and> 0 < n \<and> n < 2 ^ 31"
    and lookup_item: "inv c \<Longrightarrow> unat p < n \<Longrightarrow>
      length (fst (lookup c p)) = 128 \<and> word32s Little_Endian (fst (lookup c p)) = item (unat p)"
    and lookup_inv: "inv c \<Longrightarrow> unat p < n \<Longrightarrow> inv (snd (lookup c p))"
begin

lemma kernel_access_spec:
  assumes "inv c" and "length mix = 128" and "i < 2 ^ 32"
  shows "case kernel_access bo lookup (word_of_nat n) s0 i (mix, c) of (mix', c') \<Rightarrow>
    inv c' \<and> length mix' = 128 \<and>
    word32s bo mix' = spec_mix_step n item s0 i (word32s bo mix)"
proof -
  let ?t = "fnv1 (word_of_nat i XOR s0) (word32s bo mix ! (i mod 32))"
  let ?p = "?t mod (word_of_nat n)"
  have n: "0 < n" "unat (word_of_nat n :: u32) = n"
    using num_items [OF assms(1)] by (simp_all add: unat_of_nat)
  have p: "unat ?p = unat ?t mod n" using n by (simp add: unat_mod_distrib)
  then have lt: "unat ?p < n" using n by simp
  obtain x c' where x: "lookup c ?p = (x, c')" by fastforce
  have "length x = 128" "word32s Little_Endian x = item (unat ?p)" "inv c'"
    using lookup_item [OF assms(1) lt] lookup_inv [OF assms(1) lt] x by simp_all
  then show ?thesis
    using x p assms(2) word32s_le_uint32s [of x 32 bo] length_word32s [of mix 32 bo]
      length_word32s [of x 32 Little_Endian]
    by (simp add: kernel_access_def Let_def spec_mix_step_def map_nth_upt)
qed

lemma kernel_fold_spec:
  assumes "inv c" and "length mix = 128" and "\<forall>i \<in> set is. i < 2 ^ 32"
  shows "case fold (kernel_access bo lookup (word_of_nat n) s0) is (mix, c) of (mix', c') \<Rightarrow>
    inv c' \<and> length mix' = 128 \<and>
    word32s bo mix' = fold (spec_mix_step n item s0) is (word32s bo mix)"
  using assms
proof (induction "is" arbitrary: mix c)
  case (Cons i "is")
  obtain mix1 c1 where step: "kernel_access bo lookup (word_of_nat n) s0 i (mix, c) = (mix1, c1)"
    by fastforce
  with kernel_access_spec [of c mix i bo s0] Cons.prems
  have "inv c1" "length mix1 = 128" "word32s bo mix1 = spec_mix_step n item s0 i (word32s bo mix)"
    by simp_all
  with Cons.IH [of c1 mix1] Cons.prems step show ?case by simp
qed simp

lemma hash_kernel_spec:
  assumes "inv c" and "length seed = 64"
  shows "fst (hash_kernel h c seed lookup) = spec_mix_hash n item seed"
    and "inv (snd (hash_kernel h c seed lookup))"
proof -
  let ?bo = "host_order h"
  let ?m = "le_uint32s ?bo seed @ le_uint32s ?bo seed"
  let ?sw = "word32s Little_Endian seed"
  have l: "length (le_uint32s ?bo seed) = 64" using assms(2) length_le_uint32s [of seed 16] by simp
  have s0: "le_uint32 ?bo (word32s ?bo seed ! 0) = ?sw ! 0"
    using arg_cong [OF map_le_uint32_word32s [of seed 16 ?bo], of "\<lambda>ws. ws ! 0"]
      length_word32s [of seed 16 ?bo] assms(2) by simp
  have mix: "word32s ?bo ?m = ?sw @ ?sw"
    using word32s_append [of "le_uint32s ?bo seed" 16] l word32s_le_uint32s [of seed 16 ?bo] assms(2)
    by simp
  have lim: "word_of_int (full_dataset_num_items c) = (word_of_nat n :: u32)"
    using num_items [OF assms(1)] by simp
  obtain m' c' where f: "fold (kernel_access ?bo lookup (word_of_nat n) (?sw ! 0)) [0..<64] (?m, c) = (m', c')"
    by fastforce
  have "inv c'" "length m' = 128"
    "word32s ?bo m' = fold (spec_mix_step n item (?sw ! 0)) [0..<64] (?sw @ ?sw)"
    using kernel_fold_spec [of c ?m "[0..<64]" ?bo "?sw ! 0"] assms(1) l f mix by simp_all
  then show "fst (hash_kernel h c seed lookup) = spec_mix_hash n item seed"
    "inv (snd (hash_kernel h c seed lookup))"
    using f compress_words [of "word32s ?bo m'"] length_word32s [of m' 32 ?bo]
    by (simp_all add: hash_kernel_def Let_def s0 lim num_dataset_accesses_def
        le_uint32s_of_word32s spec_mix_hash_def)
qed

end

section \<open>The two lookups\<close>

definition hashimoto_of :: "'a epoch_context_scheme \<Rightarrow> hash256 \<Rightarrow> u64 \<Rightarrow> hash256 \<times> hash256" where
  "hashimoto_of ctx header nonce =
     spec_hashimoto (nat (full_dataset_num_items ctx)) (spec_dataset_item_1024 (cache_words ctx))
       header nonce"

lemma length_hash_kernel [simp, len_simps]: "length (fst (hash_kernel h c seed lookup)) = 32"
  using length_le_uint32s [where k = 8] by (simp add: hash_kernel_def Let_def split: prod.split)

lemma hash_by_lookup:
  fixes h header nonce
  defines "seed \<equiv> hash_seed h header nonce"
  assumes "dataset_lookup lookup I (spec_dataset_item_1024 (cache_words ctx))
      (nat (full_dataset_num_items ctx))"
    and "I c" and "length header = 32"
  shows "(hash_final h seed (fst (hash_kernel h c seed lookup)), fst (hash_kernel h c seed lookup)) =
    hashimoto_of ctx header nonce"
proof -
  have l: "length seed = 64" by (simp add: seed_def)
  have seed: "seed = spec_seed_hash header nonce" using assms(4) by (simp add: seed_def hash_seed_spec)
  note k = dataset_lookup.hash_kernel_spec(1) [OF assms(2,3) l]
  show ?thesis
    using k [of h] length_hash_kernel [of h c seed lookup] l
    by (simp add: hash_final_spec hashimoto_of_def spec_hashimoto_def Let_def flip: seed)
qed

text \<open>Computing every item.\<close>

interpretation light: dataset_lookup "light_lookup h" "\<lambda>c. c = ctx \<and> wf_context c"
    "spec_dataset_item_1024 (cache_words ctx)" "nat (full_dataset_num_items ctx)"
  for h and ctx :: "'a epoch_context_scheme"
  by unfold_locales (auto simp: light_lookup_def dataset_item_1024_spec wf_context_def)

text \<open>
  The invariant of the lazily filled dataset: an element is correct unless its first word is
  zero, the mark of an element that has not been computed.
\<close>

definition full_dataset_ok :: "host \<Rightarrow> epoch_context_full \<Rightarrow> bool" where
  "full_dataset_ok h ctx \<longleftrightarrow> wf_context ctx \<and>
     (\<exists>ds. full_dataset ctx = Some ds \<and> length ds = nat (full_dataset_num_items ctx) \<and>
        (\<forall>i < length ds. length (ds ! i) = 128 \<and>
           (word64s (host_order h) (ds ! i) ! 0 = 0 \<or>
            ds ! i = calculate_dataset_item_1024 h ctx (word_of_nat i))))"

lemma calculate_dataset_item_full_dataset [simp]:
  "calculate_dataset_item_1024 h (ctx\<lparr>full_dataset := d\<rparr>) p = calculate_dataset_item_1024 h ctx p"
  by (simp add: calculate_dataset_item_1024_def item_state_new_def item_update_def [abs_def])

lemma cache_words_full_dataset [simp]: "cache_words (ctx\<lparr>full_dataset := d\<rparr>) = cache_words ctx"
  by (simp add: cache_words_def)

lemma wf_context_full_dataset [simp]: "wf_context (ctx\<lparr>full_dataset := d\<rparr>) = wf_context ctx"
  by (simp add: wf_context_def)

lemma lazy_lookup_spec:
  assumes "full_dataset_ok h c" and "unat p < nat (full_dataset_num_items c)"
  shows "fst (lazy_lookup h c p) = calculate_dataset_item_1024 h c p"
    and "full_dataset_ok h (snd (lazy_lookup h c p))"
    and "(snd (lazy_lookup h c p))\<lparr>full_dataset := None\<rparr> = c\<lparr>full_dataset := None\<rparr>"
proof -
  obtain ds where ds: "full_dataset c = Some ds" "length ds = nat (full_dataset_num_items c)"
    "\<forall>i < length ds. length (ds ! i) = 128 \<and> (word64s (host_order h) (ds ! i) ! 0 = 0 \<or>
       ds ! i = calculate_dataset_item_1024 h c (word_of_nat i))"
    and wf: "wf_context c"
    using assms(1) by (auto simp: full_dataset_ok_def)
  show "fst (lazy_lookup h c p) = calculate_dataset_item_1024 h c p"
    using ds assms(2) by (auto simp: lazy_lookup_def Let_def)
  show "full_dataset_ok h (snd (lazy_lookup h c p))"
    using ds assms wf by (auto simp: lazy_lookup_def Let_def full_dataset_ok_def nth_list_update)
  show "(snd (lazy_lookup h c p))\<lparr>full_dataset := None\<rparr> = c\<lparr>full_dataset := None\<rparr>"
    by (simp add: lazy_lookup_def Let_def)
qed

lemma same_context_fields:
  assumes "c\<lparr>full_dataset := None\<rparr> = ctx\<lparr>full_dataset := (None :: hash1024 list option)\<rparr>"
  shows "cache_words c = cache_words ctx" "full_dataset_num_items c = full_dataset_num_items ctx"
    "calculate_dataset_item_1024 h c p = calculate_dataset_item_1024 h ctx p"
proof -
  have "cache_words (c\<lparr>full_dataset := None\<rparr>) = cache_words (ctx\<lparr>full_dataset := None\<rparr>)"
    "full_dataset_num_items (c\<lparr>full_dataset := None\<rparr>) = full_dataset_num_items (ctx\<lparr>full_dataset := None\<rparr>)"
    "calculate_dataset_item_1024 h (c\<lparr>full_dataset := None\<rparr>) p =
      calculate_dataset_item_1024 h (ctx\<lparr>full_dataset := None\<rparr>) p"
    by (simp_all only: assms)
  then show "cache_words c = cache_words ctx" "full_dataset_num_items c = full_dataset_num_items ctx"
    "calculate_dataset_item_1024 h c p = calculate_dataset_item_1024 h ctx p"
    by simp_all
qed

interpretation lazy: dataset_lookup "lazy_lookup h"
    "\<lambda>c. full_dataset_ok h c \<and> c\<lparr>full_dataset := None\<rparr> = ctx\<lparr>full_dataset := None\<rparr>"
    "spec_dataset_item_1024 (cache_words ctx)" "nat (full_dataset_num_items ctx)"
  for h and ctx :: epoch_context_full
proof unfold_locales
  fix c :: epoch_context_full and p :: u32
  assume c: "full_dataset_ok h c \<and> c\<lparr>full_dataset := None\<rparr> = ctx\<lparr>full_dataset := None\<rparr>"
  then have wf: "wf_context c" by (simp add: full_dataset_ok_def)
  note same = same_context_fields [OF c [THEN conjunct2]]
  show "full_dataset_num_items c = int (nat (full_dataset_num_items ctx)) \<and>
    0 < nat (full_dataset_num_items ctx) \<and> nat (full_dataset_num_items ctx) < 2 ^ 31"
    using wf same(2) by (auto simp: wf_context_def nat_less_iff)
  assume "unat p < nat (full_dataset_num_items ctx)"
  then have p: "unat p < nat (full_dataset_num_items c)" using same by simp
  note l = lazy_lookup_spec [OF c [THEN conjunct1] p]
  show "length (fst (lazy_lookup h c p)) = 128 \<and>
    word32s Little_Endian (fst (lazy_lookup h c p)) = spec_dataset_item_1024 (cache_words ctx) (unat p)"
    using l(1) dataset_item_1024_spec [OF wf] same by simp
  show "full_dataset_ok h (snd (lazy_lookup h c p)) \<and>
    (snd (lazy_lookup h c p))\<lparr>full_dataset := None\<rparr> = ctx\<lparr>full_dataset := None\<rparr>"
    using l(2,3) c by simp
qed

section \<open>Hashing, verifying, searching\<close>

lemma ethash_hash_spec:
  assumes "wf_context ctx" and "length header = 32"
  shows "(final_hash (ethash_hash h ctx header nonce), mix_hash (ethash_hash h ctx header nonce)) =
    hashimoto_of ctx header nonce"
  using hash_by_lookup [OF light.dataset_lookup_axioms, of ctx ctx header h nonce] assms
  by (simp add: ethash_hash_def Let_def)

lemma length_ethash_hash [simp, len_simps]:
  "length (final_hash (ethash_hash h ctx header nonce)) = 32"
  "length (mix_hash (ethash_hash h ctx header nonce)) = 32"
  by (simp_all add: ethash_hash_def Let_def)

lemma hashimoto_of_full_dataset:
  "c\<lparr>full_dataset := None\<rparr> = ctx\<lparr>full_dataset := None\<rparr> \<Longrightarrow>
     hashimoto_of c header nonce = hashimoto_of ctx header nonce"
  using same_context_fields(1,2) [of c ctx] by (simp add: hashimoto_of_def)

lemma hash_full_spec:
  assumes "full_dataset_ok h ctx" and "length header = 32"
  shows "fst (hash_full h ctx header nonce) = ethash_hash h ctx header nonce"
    and "full_dataset_ok h (snd (hash_full h ctx header nonce))"
    and "(snd (hash_full h ctx header nonce))\<lparr>full_dataset := None\<rparr> = ctx\<lparr>full_dataset := None\<rparr>"
proof -
  let ?seed = "hash_seed h header nonce"
  let ?k = "hash_kernel h ctx ?seed (lazy_lookup h)"
  have wf: "wf_context ctx" using assms(1) by (simp add: full_dataset_ok_def)
  have "(hash_final h ?seed (fst ?k), fst ?k) = hashimoto_of ctx header nonce"
    by (rule hash_by_lookup [OF lazy.dataset_lookup_axioms [of h ctx]]) (use assms in simp_all)
  then have final: "hash_final h ?seed (fst ?k) = final_hash (ethash_hash h ctx header nonce)"
    and mix: "fst ?k = mix_hash (ethash_hash h ctx header nonce)"
    using ethash_hash_spec [OF wf assms(2), of h nonce] by (metis Pair_inject)+
  show "fst (hash_full h ctx header nonce) = ethash_hash h ctx header nonce"
    by (rule ethash_result.equality)
      (simp add: hash_full_def Let_def case_prod_beta final,
       simp_all add: hash_full_def Let_def case_prod_beta mix)
  show "full_dataset_ok h (snd (hash_full h ctx header nonce))"
    "(snd (hash_full h ctx header nonce))\<lparr>full_dataset := None\<rparr> = ctx\<lparr>full_dataset := None\<rparr>"
    using lazy.hash_kernel_spec(2) [of h ctx ctx ?seed h] assms(1)
    by (simp_all add: hash_full_def Let_def case_prod_beta)
qed

text \<open>
  C7. The result of hashing with a usable context is Hashimoto of the Ethash specification over the
  cache of the context, on every host: seed hash, 64 dataset accesses, compression and final
  digest.
\<close>

theorem ethash_hash_correct:
  assumes "wf_context ctx" and "length header = 32"
  shows "(final_hash (ethash_hash h ctx header nonce), mix_hash (ethash_hash h ctx header nonce)) =
    spec_hashimoto (nat (full_dataset_num_items ctx)) (spec_dataset_item_1024 (cache_words ctx))
      header nonce"
  using ethash_hash_spec [OF assms] by (simp add: hashimoto_of_def)

theorem ethash_hash_correct_witness:
  "(final_hash (ethash_hash \<lparr>host_order = Big_Endian, host_bmi = True, host_bmi2 = True\<rparr>
      small_context (zero_hash 32) 42),
    mix_hash (ethash_hash \<lparr>host_order = Big_Endian, host_bmi = True, host_bmi2 = True\<rparr>
      small_context (zero_hash 32) 42)) =
   spec_hashimoto (nat (full_dataset_num_items small_context))
     (spec_dataset_item_1024 (cache_words small_context)) (zero_hash 32) 42"
  by (rule ethash_hash_correct) simp_all

text \<open>
  C8. Hashing with the lazily filled full dataset gives the result of hashing without it, and keeps
  the invariant of the dataset, whatever part of the dataset had been filled before; nothing of
  the context but the dataset changes.
\<close>

theorem hash_full_correct:
  assumes "full_dataset_ok h ctx" and "length header = 32"
  shows "fst (hash_full h ctx header nonce) = ethash_hash h ctx header nonce \<and>
    full_dataset_ok h (snd (hash_full h ctx header nonce)) \<and>
    (snd (hash_full h ctx header nonce))\<lparr>full_dataset := None\<rparr> = ctx\<lparr>full_dataset := None\<rparr>"
  using hash_full_spec [OF assms] by simp

definition small_context_full :: epoch_context_full where
  "small_context_full =
     \<lparr>epoch_number = 0, light_cache_num_items = 1, light_cache = [replicate 64 7], l1_cache = 128,
      full_dataset_num_items = 2, full_dataset = Some (replicate 2 (zero_hash 128))\<rparr>"

lemma word64s_zero_hash: "i < k \<Longrightarrow> word64s bo (zero_hash (8 * k)) ! i = 0"
  using nth_chunks [of 8 "zero_hash (8 * k)" k i] chunks_lengths [of 8 "zero_hash (8 * k)" k]
  by (cases bo) (simp_all add: word64s_def zero_hash_def load64_def le_join_zeros)

lemma small_context_full_ok [simp]: "full_dataset_ok h small_context_full"
  using word64s_zero_hash [of 0 16 "host_order h"]
  by (simp add: full_dataset_ok_def small_context_full_def wf_context_def wf_cache_def)

theorem hash_full_correct_witness:
  "fst (hash_full \<lparr>host_order = Little_Endian, host_bmi = True, host_bmi2 = True\<rparr>
      small_context_full (zero_hash 32) 42) =
   ethash_hash \<lparr>host_order = Little_Endian, host_bmi = True, host_bmi2 = True\<rparr>
      small_context_full (zero_hash 32) 42"
  by (rule conjunct1 [OF hash_full_correct]) simp_all

text \<open>
  C9. Verification accepts a mix hash and a nonce exactly when the mix hash is the one the hash
  function produces for that nonce and the final hash, read as a big-endian number, does not exceed
  the boundary.
\<close>

theorem ethash_verify_correct:
  assumes "wf_context ctx" and "length header = 32" and "length mix = 32" and "length boundary = 32"
  shows "ethash_verify h ctx header mix nonce boundary \<longleftrightarrow>
    mix = mix_hash (ethash_hash h ctx header nonce) \<and>
    be_nat (final_hash (ethash_hash h ctx header nonce)) \<le> be_nat boundary"
  using assms by (auto simp: ethash_verify_def ethash_hash_def Let_def is_equal_def is_less_or_equal_iff)

theorem ethash_verify_correct_witness:
  "ethash_verify \<lparr>host_order = Big_Endian, host_bmi = True, host_bmi2 = True\<rparr> small_context
     (zero_hash 32)
     (mix_hash (ethash_hash \<lparr>host_order = Big_Endian, host_bmi = True, host_bmi2 = True\<rparr>
        small_context (zero_hash 32) 42)) 42 (replicate 32 255)"
proof -
  have "be_nat b \<le> be_nat (replicate 32 255)" if "length b = 32" for b
    using be_nat_less [of b] be_nat_max [of 32] that by simp
  then show ?thesis
    by (subst ethash_verify_correct) simp_all
qed

subsection \<open>Search\<close>

definition solves :: "host \<Rightarrow> 'a epoch_context_scheme \<Rightarrow> hash256 \<Rightarrow> hash256 \<Rightarrow> u64 \<Rightarrow> bool" where
  "solves h ctx header boundary nonce \<longleftrightarrow>
     be_nat (final_hash (ethash_hash h ctx header nonce)) \<le> be_nat boundary"

text \<open>
  \<open>first_solution h ctx header boundary start end r\<close>: \<open>r\<close> reports the first nonce from \<open>start\<close> up to, but
  not including, \<open>end\<close> that solves, with its hashes, or the absence of one.
\<close>

definition first_solution ::
    "host \<Rightarrow> 'a epoch_context_scheme \<Rightarrow> hash256 \<Rightarrow> hash256 \<Rightarrow> u64 \<Rightarrow> u64 \<Rightarrow> search_result \<Rightarrow> bool" where
  "first_solution h ctx header boundary start end_nonce r \<longleftrightarrow>
     (if solution_found r
      then start \<le> sr_nonce r \<and> sr_nonce r < end_nonce \<and> solves h ctx header boundary (sr_nonce r) \<and>
           (\<forall>n. start \<le> n \<and> n < sr_nonce r \<longrightarrow> \<not> solves h ctx header boundary n) \<and>
           r = search_result_of (ethash_hash h ctx header (sr_nonce r)) (sr_nonce r)
      else r = search_result_default \<and>
           (\<forall>n. start \<le> n \<and> n < end_nonce \<longrightarrow> \<not> solves h ctx header boundary n))"

lemma less_imp_inc_le_iff: "a < b \<Longrightarrow> a + 1 \<le> n \<longleftrightarrow> a < (n :: 'a::len word)"
  by (simp add: word_le_nat_alt word_less_nat_alt less_imp_unat_Suc Suc_le_eq)

lemma search_light_from_first:
  assumes "length boundary = 32"
  shows "first_solution h ctx header boundary nonce end_nonce
    (search_light_from h ctx header boundary nonce end_nonce)"
  using assms
proof (induction h ctx header boundary nonce end_nonce rule: search_light_from.induct)
  case (1 h ctx header boundary nonce end_nonce)
  let ?r = "ethash_hash h ctx header nonce"
  have solves: "is_less_or_equal (host_order h) (final_hash ?r) boundary \<longleftrightarrow>
      solves h ctx header boundary nonce"
    using "1.prems" by (simp add: solves_def is_less_or_equal_iff)
  consider "\<not> nonce < end_nonce" | "nonce < end_nonce" "solves h ctx header boundary nonce"
    | "nonce < end_nonce" "\<not> solves h ctx header boundary nonce" by blast
  then show ?case
  proof cases
    case 1
    then show ?thesis
      by (subst search_light_from.simps) (auto simp: first_solution_def search_result_default_def)
  next
    case 2
    then show ?thesis
      by (subst search_light_from.simps)
        (auto simp: first_solution_def search_result_of_def Let_def solves)
  next
    case 3
    then have "first_solution h ctx header boundary (nonce + 1) end_nonce
        (search_light_from h ctx header boundary (nonce + 1) end_nonce)"
      using "1.IH" [OF 3(1) refl] "1.prems" solves by simp
    then have "first_solution h ctx header boundary nonce end_nonce
        (search_light_from h ctx header boundary (nonce + 1) end_nonce)"
      unfolding first_solution_def less_imp_inc_le_iff [OF 3(1)]
      using 3 by (auto split: if_splits simp: order_le_less)
    then show ?thesis using 3 solves by (subst search_light_from.simps) (simp add: Let_def)
  qed
qed

lemma ethash_hash_full_dataset:
  assumes "wf_context c" and "c\<lparr>full_dataset := None\<rparr> = ctx\<lparr>full_dataset := None\<rparr>" and "length header = 32"
  shows "ethash_hash h c header nonce = ethash_hash h ctx header nonce"
proof -
  have "wf_context (ctx\<lparr>full_dataset := None\<rparr>)" using assms(1,2) wf_context_full_dataset by metis
  then have "wf_context ctx" by simp
  then have "(final_hash (ethash_hash h c header nonce), mix_hash (ethash_hash h c header nonce)) =
      (final_hash (ethash_hash h ctx header nonce), mix_hash (ethash_hash h ctx header nonce))"
    using ethash_hash_spec [OF assms(1,3), of h nonce] ethash_hash_spec [OF _ assms(3), of ctx h nonce]
      hashimoto_of_full_dataset [OF assms(2), of header nonce] by simp
  then show ?thesis by (intro ethash_result.equality) simp_all
qed

lemma search_from_light:
  assumes "full_dataset_ok h c" and "c\<lparr>full_dataset := None\<rparr> = ctx\<lparr>full_dataset := None\<rparr>"
    and "length header = 32"
  shows "fst (search_from h c header boundary nonce end_nonce) =
      search_light_from h ctx header boundary nonce end_nonce \<and>
    full_dataset_ok h (snd (search_from h c header boundary nonce end_nonce)) \<and>
    (snd (search_from h c header boundary nonce end_nonce))\<lparr>full_dataset := None\<rparr> =
      ctx\<lparr>full_dataset := None\<rparr>"
  using assms
proof (induction h c header boundary nonce end_nonce rule: search_from.induct)
  case (1 h c header boundary nonce end_nonce)
  obtain r c' where rc: "hash_full h c header nonce = (r, c')" by fastforce
  have wf: "wf_context c" using "1.prems"(1) by (simp add: full_dataset_ok_def)
  have r: "r = ethash_hash h ctx header nonce" "full_dataset_ok h c'"
    "c'\<lparr>full_dataset := None\<rparr> = ctx\<lparr>full_dataset := None\<rparr>"
    using hash_full_spec [OF "1.prems"(1,3), of nonce] rc "1.prems"(2)
      ethash_hash_full_dataset [OF wf "1.prems"(2,3)] by simp_all
  show ?case
  proof (cases "nonce < end_nonce \<and> \<not> is_less_or_equal (host_order h) (final_hash r) boundary")
    case True
    then show ?thesis
      using "1.IH" [OF _ rc [symmetric] refl] "1.prems"(3) r rc
      by (subst (1 2 3) search_from.simps, subst search_light_from.simps) (simp add: Let_def)
  next
    case False
    then show ?thesis
      using "1.prems" r rc
      by (subst (1 2 3) search_from.simps, subst search_light_from.simps) (auto simp: Let_def)
  qed
qed

text \<open>
  C10. When the range of nonces does not run past the end of the 64-bit numbers, the search without
  a dataset reports the first nonce of the range whose final hash does not exceed the boundary, with
  its hashes, or the default result when there is none.
\<close>

theorem search_light_correct:
  assumes "length boundary = 32" and "unat start + unat iterations < 2 ^ 64"
  shows "unat (start + iterations) = unat start + unat iterations \<and>
    first_solution h ctx header boundary start (start + iterations)
      (search_light h ctx header boundary start iterations)"
  using assms search_light_from_first [OF assms(1)]
  by (simp add: search_light_def unat_word_ariths)

theorem search_light_correct_witness:
  "first_solution \<lparr>host_order = Little_Endian, host_bmi = True, host_bmi2 = True\<rparr> small_context
     (zero_hash 32) (zero_hash 32) 7 (7 + 3)
     (search_light \<lparr>host_order = Little_Endian, host_bmi = True, host_bmi2 = True\<rparr> small_context
        (zero_hash 32) (zero_hash 32) 7 3)"
  by (rule conjunct2 [OF search_light_correct]) simp_all

text \<open>
  C11. Searching with the lazily filled dataset returns what searching without it returns, and
  leaves a dataset that still satisfies its invariant.
\<close>

theorem search_full_correct:
  assumes "full_dataset_ok h ctx" and "length header = 32"
  shows "fst (search h ctx header boundary start iterations) =
      search_light h ctx header boundary start iterations \<and>
    full_dataset_ok h (snd (search h ctx header boundary start iterations))"
  using search_from_light [OF assms(1) refl assms(2)] by (simp add: search_def search_light_def)

theorem search_full_correct_witness:
  "fst (search \<lparr>host_order = Big_Endian, host_bmi = True, host_bmi2 = True\<rparr> small_context_full
     (zero_hash 32) (zero_hash 32) 7 3) =
   search_light \<lparr>host_order = Big_Endian, host_bmi = True, host_bmi2 = True\<rparr> small_context_full
     (zero_hash 32) (zero_hash 32) 7 3"
  by (rule conjunct1 [OF search_full_correct]) simp_all

text \<open>
  C12. The end of the range is computed with wrap-around: a range that runs past the last 64-bit
  number is not searched at all, and the default result is reported even if its first nonce solves.
\<close>

theorem search_wrap:
  assumes "2 ^ 64 \<le> unat start + unat iterations"
  shows "search_light h ctx header boundary start iterations = search_result_default \<and>
    search h full header boundary start iterations = (search_result_default, full)"
proof -
  have "unat (start + iterations) = unat start + unat iterations - 2 ^ 64"
    using assms unsigned_less [of start, where ?'a = nat] unsigned_less [of iterations, where ?'a = nat]
    by (simp add: unat_word_ariths mod_if)
  then have "\<not> start < start + iterations"
    using unsigned_less [of iterations, where ?'a = nat] by (simp add: word_less_nat_alt)
  then show ?thesis
    by (simp add: search_light_def search_def search_light_from.simps [of h ctx header boundary start]
        search_from.simps [of h full header boundary start])
qed

theorem search_wrap_witness:
  "search_light \<lparr>host_order = Little_Endian, host_bmi = True, host_bmi2 = True\<rparr> small_context
     (zero_hash 32) (replicate 32 255) 0xFFFFFFFFFFFFFFFF 1 = search_result_default"
  by (rule conjunct1 [OF search_wrap]) simp

end
