(* ===== verification/Primes.thy ===== *)
theory Primes
  imports Main
begin

text \<open>
  The prime search of \<^verbatim>\<open>ethash/lib/ethash/primes.c\<close>, which sizes the light cache and the dataset.
  The C \<open>int\<close> is \<open>int\<close>: every value the loops compute lies between 3 and the argument, and the
  product \<open>d * d\<close> is taken with 64 bits in the source, so nothing overflows. Both loops terminate,
  and the search returns the largest prime that does not exceed its argument.
\<close>

section \<open>The C routines\<close>

lemma square_le_imp_le:
  assumes "d * d \<le> (n :: int)"
  shows "d \<le> n"
proof (cases "d \<le> 0")
  case True
  then show ?thesis using assms zero_le_square [of d] by linarith
next
  case False
  then show ?thesis using assms mult_right_mono [of 1 d d] by linarith
qed

function is_odd_prime_from :: "int \<Rightarrow> int \<Rightarrow> bool" where
  "is_odd_prime_from d number =
     (if d * d \<le> number
      then if number mod d = 0 then False else is_odd_prime_from (d + 2) number
      else True)"
  by pat_completeness auto
termination
  by (relation "measure (\<lambda>(d, number). nat (number - d + 1))") (auto dest: square_le_imp_le)

declare is_odd_prime_from.simps [simp del]

definition is_odd_prime :: "int \<Rightarrow> bool" where
  "is_odd_prime number = is_odd_prime_from 3 number"

lemma not_is_odd_prime_ge: "\<not> is_odd_prime n \<Longrightarrow> 9 \<le> n"
  by (simp add: is_odd_prime_def is_odd_prime_from.simps [of 3] split: if_splits)

text \<open>The loop over descending odd numbers.\<close>

function descend_to_prime :: "int \<Rightarrow> int" where
  "descend_to_prime n = (if \<not> is_odd_prime n then descend_to_prime (n - 2) else n)"
  by pat_completeness auto
termination
  by (relation "measure nat") (auto dest: not_is_odd_prime_ge)

declare descend_to_prime.simps [simp del]

definition ethash_find_largest_prime :: "int \<Rightarrow> int" where
  "ethash_find_largest_prime upper_bound =
     (let n = upper_bound in
      if n < 2 then 0
      else if n = 2 then 2
      else let n = (if n mod 2 = 0 then n - 1 else n)
           in descend_to_prime n)"

section \<open>Correctness\<close>

text \<open>The specification: primality by trial of every smaller divisor.\<close>

definition prime_number :: "int \<Rightarrow> bool" where
  "prime_number p \<longleftrightarrow> 2 \<le> p \<and> (\<forall>d. 1 < d \<and> d < p \<longrightarrow> \<not> d dvd p)"

lemma prime_number_2: "prime_number 2"
  by (auto simp: prime_number_def)

lemma even_prime_number: "prime_number p \<Longrightarrow> even p \<Longrightarrow> p = 2"
  unfolding prime_number_def by (metis less_le one_less_numeral_iff semiring_norm(76))

lemma is_odd_prime_from_iff:
  "is_odd_prime_from d n \<longleftrightarrow> (\<forall>e \<ge> d. even (e - d) \<and> e * e \<le> n \<longrightarrow> \<not> e dvd n)"
  if "0 < d"
  using that
proof (induction d n rule: is_odd_prime_from.induct)
  case (1 d n)
  have split: "e = d \<or> d + 2 \<le> e" if "d \<le> e" "even (e - d)" for e
    using that by presburger
  show ?case
  proof (cases "d * d \<le> n")
    case False
    have "n < e * e" if "d \<le> e" for e
      using False mult_mono [of d e d e] that "1.prems" by linarith
    with False show ?thesis by (subst is_odd_prime_from.simps) force
  next
    case True
    show ?thesis
    proof (cases "n mod d = 0")
      case dvd: True
      with True show ?thesis by (subst is_odd_prime_from.simps) auto
    next
      case ndvd: False
      then have "\<not> d dvd n" by (simp add: dvd_eq_mod_eq_0)
      with 1 True ndvd show ?thesis
        by (subst is_odd_prime_from.simps) (auto dest!: split)
    qed
  qed
qed

lemma is_odd_prime_iff:
  assumes "odd n" and "3 \<le> n"
  shows "is_odd_prime n \<longleftrightarrow> prime_number n"
proof
  assume "prime_number n"
  moreover have "e < n" if "e * e \<le> n" "3 \<le> e" for e
    using that mult_right_mono [of 3 e e] by linarith
  ultimately show "is_odd_prime n"
    by (auto simp: is_odd_prime_def is_odd_prime_from_iff prime_number_def)
next
  assume p: "is_odd_prime n"
  have "\<not> d dvd n" if d: "1 < d" "d < n" for d
  proof
    assume "d dvd n"
    then obtain e where e: "n = d * e" by auto
    with assms have odd: "odd d" "odd e" by auto
    have "0 < e" using zero_less_mult_pos [of d e] e d by simp
    moreover have "e \<noteq> 1" using e d by auto
    ultimately have "1 < e" by simp
    with odd d have ge: "3 \<le> d" "3 \<le> e" by presburger+
    have "d * d \<le> n \<or> e * e \<le> n"
      using e ge by (cases "d \<le> e") (auto simp: mult_left_mono mult_right_mono)
    with p odd ge e show False
      by (auto simp: is_odd_prime_def is_odd_prime_from_iff)
  qed
  with assms show "prime_number n" by (simp add: prime_number_def)
qed

lemma descend_to_prime_spec:
  assumes "odd n" and "3 \<le> n"
  shows "prime_number (descend_to_prime n) \<and> descend_to_prime n \<le> n \<and>
    (\<forall>p. prime_number p \<and> p \<le> n \<longrightarrow> p \<le> descend_to_prime n)"
  using assms
proof (induction n rule: descend_to_prime.induct)
  case (1 n)
  show ?case
  proof (cases "is_odd_prime n")
    case True
    with 1 show ?thesis by (subst (1 2 3) descend_to_prime.simps) (auto simp: is_odd_prime_iff)
  next
    case False
    then have ge: "9 \<le> n" by (rule not_is_odd_prime_ge)
    note ih = "1.IH" [OF False]
    have "p \<le> n - 2" if "prime_number p" "p \<le> n" for p
    proof -
      have "p \<noteq> n" using that False "1.prems" by (auto simp: is_odd_prime_iff)
      moreover have "p \<noteq> n - 1"
      proof
        assume "p = n - 1"
        then have "even p" and "2 < p" using "1.prems" ge by simp_all
        with that(1) show False using even_prime_number [of p] by simp
      qed
      ultimately show ?thesis using that(2) by linarith
    qed
    then show ?thesis
      using ih ge "1.prems" False by (subst (1 2 3) descend_to_prime.simps) auto
  qed
qed

lemma ethash_find_largest_prime_spec:
  assumes "2 \<le> n"
  shows "prime_number (ethash_find_largest_prime n)" "ethash_find_largest_prime n \<le> n"
    "prime_number p \<Longrightarrow> p \<le> n \<Longrightarrow> p \<le> ethash_find_largest_prime n"
proof -
  consider "n = 2" | "2 < n" "odd n" | "2 < n" "even n" using assms by linarith
  then have "prime_number (ethash_find_largest_prime n) \<and> ethash_find_largest_prime n \<le> n \<and>
      (prime_number p \<and> p \<le> n \<longrightarrow> p \<le> ethash_find_largest_prime n)"
  proof cases
    case 1
    then show ?thesis by (simp add: ethash_find_largest_prime_def prime_number_2)
  next
    case 2
    then have "ethash_find_largest_prime n = descend_to_prime n"
      by (simp add: ethash_find_largest_prime_def odd_iff_mod_2_eq_one)
    with 2 descend_to_prime_spec [of n] show ?thesis by simp
  next
    case 3
    then have "ethash_find_largest_prime n = descend_to_prime (n - 1)"
      by (simp add: ethash_find_largest_prime_def flip: even_iff_mod_2_eq_zero)
    moreover have "p \<noteq> n" if "prime_number p" using that 3 even_prime_number by auto
    ultimately show ?thesis using 3 descend_to_prime_spec [of "n - 1"] by auto
  qed
  then show "prime_number (ethash_find_largest_prime n)" "ethash_find_largest_prime n \<le> n"
    "prime_number p \<Longrightarrow> p \<le> n \<Longrightarrow> p \<le> ethash_find_largest_prime n"
    by simp_all
qed

text \<open>
  C4. For every bound from 2 on the search terminates with the largest prime that does not
  exceed it, and for smaller bounds it returns 0, as its documentation says.
\<close>

theorem find_largest_prime_correct:
  "(upper_bound < 2 \<longrightarrow> ethash_find_largest_prime upper_bound = 0) \<and>
   (2 \<le> upper_bound \<longrightarrow>
      prime_number (ethash_find_largest_prime upper_bound) \<and>
      ethash_find_largest_prime upper_bound \<le> upper_bound \<and>
      (\<forall>p. prime_number p \<and> p \<le> upper_bound \<longrightarrow> p \<le> ethash_find_largest_prime upper_bound))"
  using ethash_find_largest_prime_spec [of upper_bound]
  by (auto simp: ethash_find_largest_prime_def [of upper_bound] Let_def)

lemma find_largest_prime_100: "ethash_find_largest_prime 100 = 97"
  by code_simp

theorem find_largest_prime_correct_witness:
  "ethash_find_largest_prime 1 = 0 \<and> ethash_find_largest_prime 100 = 97 \<and> prime_number 97 \<and>
   \<not> prime_number 99"
proof -
  have "\<not> prime_number 99"
    using find_largest_prime_correct [of 100] unfolding find_largest_prime_100 by fastforce
  then show ?thesis
    using find_largest_prime_correct [of 1] find_largest_prime_correct [of 100]
    by (simp add: find_largest_prime_100)
qed

end
