(* ===== verification/Ethash_Epoch.thy ===== *)
theory Ethash_Epoch
  imports Ethash Primes "HOL-Library.Signed_Division"
begin

text \<open>
  Epochs: the seed hashes, the recovery of an epoch number from a seed hash with its thread-local
  cache, the sizes of cache and dataset with the ECIP-1099 rule, and the creation of contexts
  (\<^verbatim>\<open>ethash/lib/ethash/ethash.cpp\<close>, \<^verbatim>\<open>ethash/include/ethash/ethash.hpp\<close>). The lemmas show which
  epochs keep the sizes within an \<open>int\<close>, that a created context is usable, and that its cache is
  the one the Ethash specification prescribes.
\<close>

section \<open>The C++ routines\<close>

definition light_cache_init_size :: int where "light_cache_init_size = 2 ^ 24"

definition light_cache_growth :: int where "light_cache_growth = 2 ^ 17"

definition full_dataset_init_size :: int where "full_dataset_init_size = 2 ^ 30"

definition full_dataset_growth :: int where "full_dataset_growth = 2 ^ 23"

definition ecip_1099_activation_epoch :: int where "ecip_1099_activation_epoch = 390"

definition ethash_calculate_epoch_seed :: "host \<Rightarrow> int \<Rightarrow> hash256" where
  "ethash_calculate_epoch_seed h epoch =
     fold (\<lambda>i epoch_seed. ethash_keccak256_32 h epoch_seed) [0..<nat epoch] (zero_hash 32)"

definition ethash_calculate_light_cache_num_items :: "int \<Rightarrow> int" where
  "ethash_calculate_light_cache_num_items epoch =
     (let item_size = 64;
          num_items_init = light_cache_init_size div item_size;
          num_items_growth = light_cache_growth div item_size;
          num_items_upper_bound = num_items_init + epoch * num_items_growth
      in ethash_find_largest_prime num_items_upper_bound)"

definition ethash_calculate_full_dataset_num_items :: "int \<Rightarrow> int" where
  "ethash_calculate_full_dataset_num_items epoch =
     (let item_size = 128;
          num_items_init = full_dataset_init_size div item_size;
          num_items_growth = full_dataset_growth div item_size;
          num_items_upper_bound = num_items_init + epoch * num_items_growth
      in ethash_find_largest_prime num_items_upper_bound)"

definition get_light_cache_size :: "int \<Rightarrow> u64" where
  "get_light_cache_size num_items = word_of_int num_items * 64"

definition get_full_dataset_size :: "int \<Rightarrow> u64" where
  "get_full_dataset_size num_items = word_of_int num_items * 128"

definition get_epoch_number :: "int \<Rightarrow> int" where
  "get_epoch_number block_number =
     (if block_number \<ge> 11700000 then block_number sdiv 60000 else block_number sdiv 30000)"

text \<open>The thread-local variables of \<open>find_epoch_number\<close>.\<close>

record epoch_search_cache =
  cached_epoch_number :: int
  cached_seed :: hash256

definition epoch_search_cache_init :: epoch_search_cache where
  "epoch_search_cache_init = \<lparr>cached_epoch_number = 0, cached_seed = zero_hash 32\<rparr>"

definition num_tries :: nat where "num_tries = 30000"

function find_epoch_from :: "host \<Rightarrow> u32 \<Rightarrow> nat \<Rightarrow> hash256 \<Rightarrow> (nat \<times> hash256) option" where
  "find_epoch_from h seed_part i s =
     (if i < num_tries
      then if word32s (host_order h) s ! 0 = seed_part then Some (i, s)
           else find_epoch_from h seed_part (i + 1) (ethash_keccak256_32 h s)
      else None)"
  by pat_completeness auto
termination
  by (relation "measure (\<lambda>(h, part, i, s). num_tries - i)") auto

declare find_epoch_from.simps [simp del]

definition find_epoch_number ::
    "host \<Rightarrow> hash256 \<Rightarrow> epoch_search_cache \<Rightarrow> int \<times> epoch_search_cache" where
  "find_epoch_number h seed st =
     (let seed_part = word32s (host_order h) seed ! 0;
          e = cached_epoch_number st;
          s = cached_seed st
      in if word32s (host_order h) s ! 0 = seed_part then (e, st)
         else let s = ethash_keccak256_32 h s
              in if word32s (host_order h) s ! 0 = seed_part
                 then (e + 1, \<lparr>cached_epoch_number = e + 1, cached_seed = s\<rparr>)
                 else (case find_epoch_from h seed_part 0 (zero_hash 32) of
                         Some (i, s) \<Rightarrow> (int i, \<lparr>cached_epoch_number = int i, cached_seed = s\<rparr>)
                       | None \<Rightarrow> (-1, st)))"

text \<open>
  Contexts. \<open>calloc_ok\<close> says whether the allocator can provide a zeroed block of the given size;
  \<open>build_fn\<close> is the argument \<open>build_light_cache_fn\<close>. The cache and the dataset are the zeroed arrays
  behind the context in that block.
\<close>

definition context_alloc_size :: u64 where "context_alloc_size = 64"

definition generic_create_epoch_context ::
    "host \<Rightarrow> (u64 \<Rightarrow> bool) \<Rightarrow> (hash512 list \<Rightarrow> nat \<Rightarrow> hash256 \<Rightarrow> hash512 list) \<Rightarrow> int \<Rightarrow> bool \<Rightarrow>
     epoch_context_full option" where
  "generic_create_epoch_context h calloc_ok build_fn epoch full =
     (let epoch_ecip1099 = (if epoch \<ge> ecip_1099_activation_epoch then epoch div 2 else epoch);
          light_num = ethash_calculate_light_cache_num_items epoch_ecip1099;
          full_num = ethash_calculate_full_dataset_num_items epoch_ecip1099;
          light_cache_size = get_light_cache_size light_num;
          full_dataset_size = (if full then word_of_int full_num * 128 else 0);
          alloc_size = context_alloc_size + light_cache_size + full_dataset_size
      in if \<not> calloc_ok alloc_size then None
         else let epoch_seed = ethash_calculate_epoch_seed h epoch;
                  cache = build_fn (replicate (nat light_num) (zero_hash 64)) (nat light_num) epoch_seed;
                  l1 = unat (context_alloc_size + light_cache_size)
              in Some \<lparr>epoch_number = epoch, light_cache_num_items = light_num, light_cache = cache,
                       l1_cache = l1, full_dataset_num_items = full_num,
                       full_dataset = (if full then Some (replicate (nat full_num) (zero_hash 128))
                                       else None)\<rparr>)"

definition ethash_create_epoch_context :: "host \<Rightarrow> (u64 \<Rightarrow> bool) \<Rightarrow> int \<Rightarrow> epoch_context_full option" where
  "ethash_create_epoch_context h calloc_ok epoch =
     generic_create_epoch_context h calloc_ok (build_light_cache h) epoch False"

definition ethash_create_epoch_context_full ::
    "host \<Rightarrow> (u64 \<Rightarrow> bool) \<Rightarrow> int \<Rightarrow> epoch_context_full option" where
  "ethash_create_epoch_context_full h calloc_ok epoch =
     generic_create_epoch_context h calloc_ok (build_light_cache h) epoch True"

section \<open>Seeds\<close>

lemma length_ethash_keccak256_32 [simp, len_simps]: "length (ethash_keccak256_32 h s) = 32"
  by (simp add: ethash_keccak256_32_def length_keccak)

lemma keccak256_32_iterate:
  "length s = 32 \<Longrightarrow>
     fold (\<lambda>i s. ethash_keccak256_32 h s) is s = (keccak_digest 256 ^^ length is) s"
proof (induction "is" arbitrary: s)
  case (Cons i "is")
  then show ?case by (simp add: ethash_keccak_digest funpow_swap1)
qed simp

lemma epoch_seed_spec: "ethash_calculate_epoch_seed h e = spec_epoch_seed (nat e)"
  using keccak256_32_iterate [of "zero_hash 32" h "[0..<nat e]"]
  by (simp add: ethash_calculate_epoch_seed_def spec_epoch_seed_def zero_hash_def)

lemma keccak256_32_epoch_seed: "ethash_keccak256_32 h (spec_epoch_seed e) = spec_epoch_seed (Suc e)"
  by (simp add: ethash_keccak_digest spec_epoch_seed_Suc)

text \<open>What two seeds must share to be taken for one another: their first four bytes.\<close>

definition seed_part :: "host \<Rightarrow> hash256 \<Rightarrow> u32" where
  "seed_part h s = word32s (host_order h) s ! 0"

lemma find_epoch_from_spec:
  "find_epoch_from h part i (spec_epoch_seed i) =
     map_option (\<lambda>j. (j, spec_epoch_seed j))
       (List.find (\<lambda>j. seed_part h (spec_epoch_seed j) = part) [i..<num_tries])"
proof (induction "num_tries - i" arbitrary: i)
  case 0
  then show ?case by (subst find_epoch_from.simps) simp
next
  case (Suc k)
  then have "i < num_tries" "k = num_tries - (i + 1)" by simp_all
  with Suc.hyps(1) [of "i + 1"] show ?case
    by (subst find_epoch_from.simps)
      (simp add: seed_part_def upt_conv_Cons keccak256_32_epoch_seed)
qed

definition epoch_search_cache_ok :: "epoch_search_cache \<Rightarrow> bool" where
  "epoch_search_cache_ok st \<longleftrightarrow>
     0 \<le> cached_epoch_number st \<and> cached_seed st = spec_epoch_seed (nat (cached_epoch_number st))"

lemma epoch_search_cache_ok_init [simp]: "epoch_search_cache_ok epoch_search_cache_init"
  by (simp add: epoch_search_cache_ok_def epoch_search_cache_init_def spec_epoch_seed_def zero_hash_def)

lemma find_epoch_number_cases:
  assumes "epoch_search_cache_ok st" and "find_epoch_number h seed st = (e, st')"
  shows "epoch_search_cache_ok st' \<and>
    (e = -1 \<and> st' = st \<and> (\<forall>j < num_tries. seed_part h (spec_epoch_seed j) \<noteq> seed_part h seed) \<or>
     0 \<le> e \<and> seed_part h (spec_epoch_seed (nat e)) = seed_part h seed \<and>
     cached_epoch_number st' = e)"
proof -
  let ?c = "cached_epoch_number st" and ?part = "seed_part h seed"
  have c: "0 \<le> ?c" "cached_seed st = spec_epoch_seed (nat ?c)"
    using assms(1) by (simp_all add: epoch_search_cache_ok_def)
  have next_seed: "ethash_keccak256_32 h (cached_seed st) = spec_epoch_seed (nat (?c + 1))"
    using c by (simp add: keccak256_32_epoch_seed nat_add_distrib)
  have zero: "zero_hash 32 = spec_epoch_seed 0" by (simp add: spec_epoch_seed_def zero_hash_def)
  note found = find_epoch_from_spec [of h ?part 0, folded zero]
  show ?thesis
  proof (cases "seed_part h (cached_seed st) = ?part \<or> seed_part h (spec_epoch_seed (nat (?c + 1))) = ?part")
    case True
    then show ?thesis
      using assms(2) c next_seed assms(1)
      by (auto simp: find_epoch_number_def Let_def seed_part_def epoch_search_cache_ok_def
          split: if_splits)
  next
    case False
    then have "(e, st') = (case find_epoch_from h ?part 0 (zero_hash 32) of
        Some (i, s) \<Rightarrow> (int i, \<lparr>cached_epoch_number = int i, cached_seed = s\<rparr>) | None \<Rightarrow> (-1, st))"
      using assms(2) next_seed by (simp add: find_epoch_number_def Let_def seed_part_def)
    then show ?thesis
      using assms(1) unfolding found
      by (cases "List.find (\<lambda>j. seed_part h (spec_epoch_seed j) = ?part) [0..<num_tries]")
        (auto simp: find_None_iff find_Some_iff epoch_search_cache_ok_def)
  qed
qed

text \<open>
  C13. Starting from a thread-local cache that holds the seed of its epoch number, the search for
  an epoch number returns a non-negative epoch whose seed agrees with the given one in its first
  four bytes, or -1 when no epoch below 30000 has such a seed; the cache it leaves again holds the
  seed of its epoch number. In particular the search never fails on the seed of an epoch below
  30000.
\<close>

theorem find_epoch_number_correct:
  assumes "epoch_search_cache_ok st" and "find_epoch_number h seed st = (e, st')"
  shows "epoch_search_cache_ok st' \<and>
    (if e = -1
     then st' = st \<and> (\<forall>j. j < 30000 \<longrightarrow>
       seed_part h (ethash_calculate_epoch_seed h (int j)) \<noteq> seed_part h seed)
     else 0 \<le> e \<and> seed_part h (ethash_calculate_epoch_seed h e) = seed_part h seed)"
  using find_epoch_number_cases [OF assms]
  by (auto simp: epoch_seed_spec num_tries_def)

theorem find_epoch_number_correct_witness:
  "find_epoch_number \<lparr>host_order = Big_Endian, host_bmi = True, host_bmi2 = True\<rparr> (zero_hash 32)
     epoch_search_cache_init = (0, epoch_search_cache_init) \<and>
   seed_part \<lparr>host_order = Big_Endian, host_bmi = True, host_bmi2 = True\<rparr>
     (ethash_calculate_epoch_seed \<lparr>host_order = Big_Endian, host_bmi = True, host_bmi2 = True\<rparr> 0) =
   seed_part \<lparr>host_order = Big_Endian, host_bmi = True, host_bmi2 = True\<rparr> (zero_hash 32)"
proof -
  let ?h = "\<lparr>host_order = Big_Endian, host_bmi = True, host_bmi2 = True\<rparr>"
  have f: "find_epoch_number ?h (zero_hash 32) epoch_search_cache_init = (0, epoch_search_cache_init)"
    by (simp add: find_epoch_number_def epoch_search_cache_init_def)
  from find_epoch_number_correct [OF epoch_search_cache_ok_init f] f show ?thesis by simp
qed

section \<open>Sizes\<close>

lemmas size_constants =
  light_cache_init_size_def light_cache_growth_def full_dataset_init_size_def full_dataset_growth_def

lemma light_cache_num_items_bounds:
  assumes "0 \<le> e" and "e \<le> 32639"
  shows "prime_number (ethash_calculate_light_cache_num_items e)"
    "ethash_calculate_light_cache_num_items e \<le> 262144 + 2048 * e"
  using ethash_find_largest_prime_spec [of "262144 + 2048 * e"] assms
  by (simp_all add: ethash_calculate_light_cache_num_items_def size_constants mult.commute)

lemma full_dataset_num_items_bounds:
  assumes "0 \<le> e" and "e \<le> 32639"
  shows "prime_number (ethash_calculate_full_dataset_num_items e)"
    "ethash_calculate_full_dataset_num_items e \<le> 8388608 + 65536 * e"
  using ethash_find_largest_prime_spec [of "8388608 + 65536 * e"] assms
  by (simp_all add: ethash_calculate_full_dataset_num_items_def size_constants mult.commute)

lemma uint_mult_size:
  assumes "0 \<le> n" and "n < 2 ^ 31" and "0 < k" and "k \<le> 128"
  shows "uint ((word_of_int n :: u64) * word_of_int k) = n * k"
proof -
  have "n * k \<le> 2 ^ 31 * 128" using assms by (intro mult_mono) auto
  then have "n * k < 2 ^ 64" by simp
  then show ?thesis using assms by (simp add: uint_word_ariths uint_word_of_int)
qed



section \<open>Contexts\<close>

text \<open>The epoch whose sizes an epoch uses: ECIP-1099 halves the growth from epoch 390 on.\<close>

definition size_epoch :: "int \<Rightarrow> int" where
  "size_epoch e = (if e \<ge> 390 then e div 2 else e)"

lemma create_context_spec:
  assumes "0 \<le> e" and "size_epoch e \<le> 32639"
    and "generic_create_epoch_context h calloc_ok (build_light_cache h) e full = Some ctx"
  defines "n \<equiv> ethash_calculate_light_cache_num_items (size_epoch e)"
  shows "wf_context ctx" "epoch_number ctx = e" "light_cache_num_items ctx = n"
    "cache_words ctx = spec_mkcache (nat n) (spec_epoch_seed (nat e))"
    "full_dataset_num_items ctx = ethash_calculate_full_dataset_num_items (size_epoch e)"
    "full_dataset ctx = (if full then Some (replicate (nat (full_dataset_num_items ctx)) (zero_hash 128)) else None)"
proof -
  have se: "0 \<le> size_epoch e" using assms(1) by (simp add: size_epoch_def)
  note l = light_cache_num_items_bounds [OF se assms(2)] and f = full_dataset_num_items_bounds [OF se assms(2)]
  have r: "0 < n" "n < 2 ^ 31" "0 < ethash_calculate_full_dataset_num_items (size_epoch e)"
    "ethash_calculate_full_dataset_num_items (size_epoch e) < 2 ^ 31"
    using l f assms(2) by (simp_all add: prime_number_def n_def)
  then have nat_n: "0 < nat n" "nat n < 2 ^ 31" by (simp_all add: nat_less_iff)
  let ?seed = "ethash_calculate_epoch_seed h e"
  have ctx: "ctx = \<lparr>epoch_number = e, light_cache_num_items = n,
      light_cache = build_light_cache h (replicate (nat n) (zero_hash 64)) (nat n) ?seed,
      l1_cache = unat (context_alloc_size + get_light_cache_size n),
      full_dataset_num_items = ethash_calculate_full_dataset_num_items (size_epoch e),
      full_dataset = (if full then Some (replicate (nat (ethash_calculate_full_dataset_num_items
        (size_epoch e))) (zero_hash 128)) else None)\<rparr>"
    using assms(3) by (simp add: generic_create_epoch_context_def Let_def ecip_1099_activation_epoch_def
        size_epoch_def n_def split: if_splits)
  show "wf_context ctx" "epoch_number ctx = e" "light_cache_num_items ctx = n"
    "full_dataset_num_items ctx = ethash_calculate_full_dataset_num_items (size_epoch e)"
    "full_dataset ctx = (if full then Some (replicate (nat (full_dataset_num_items ctx)) (zero_hash 128)) else None)"
    using r by (simp_all add: ctx wf_context_def)
  show "cache_words ctx = spec_mkcache (nat n) (spec_epoch_seed (nat e))"
    using build_light_cache_spec [OF nat_n wf_cache_zero, of ?seed h]
    by (simp add: ctx cache_words_def epoch_seed_spec)
qed

lemma create_context_full_ok:
  assumes "0 \<le> e" and "size_epoch e \<le> 32639"
    and "ethash_create_epoch_context_full h calloc_ok e = Some ctx"
  shows "full_dataset_ok h ctx"
  using create_context_spec [OF assms(1,2), of h calloc_ok True ctx] assms(3)
    word64s_zero_hash [of 0 16 "host_order h"]
  by (simp add: full_dataset_ok_def ethash_create_epoch_context_full_def)



end
