(* ===== verification/Ethash_Managed.thy ===== *)
theory Ethash_Managed
  imports Ethash_Epoch
begin

text \<open>
  The managed contexts of \<^verbatim>\<open>ethash/lib/ethash/managed.cpp\<close>: one context shared by all threads and a
  thread-local pointer per thread, both replaced when another epoch is asked for. Contexts live in
  a store and the pointers are addresses in it, because the threads that share a full context also
  share the dataset that hashing fills. The mutex makes each update a single step; the lemmas hold
  for every interleaving of requests and hashes of any number of threads.
\<close>

section \<open>The C++ routines\<close>

text \<open>
  \<open>contexts\<close> is the memory behind the shared pointers, \<open>next_context\<close> the first address never used.
  The freeing of contexts that nothing points to is not modelled.
\<close>

record managed =
  shared_context :: "nat option"
  thread_local_context :: "nat \<Rightarrow> nat option"
  contexts :: "nat \<Rightarrow> epoch_context_full option"
  next_context :: nat

definition managed_init :: managed where
  "managed_init = \<lparr>shared_context = None, thread_local_context = (\<lambda>t. None), contexts = (\<lambda>a. None),
                   next_context = 0\<rparr>"

definition points_to_epoch :: "managed \<Rightarrow> nat option \<Rightarrow> int \<Rightarrow> bool" where
  "points_to_epoch st p epoch =
     (case p of None \<Rightarrow> False | Some a \<Rightarrow> epoch_number (the (contexts st a)) = epoch)"

definition store_context :: "epoch_context_full option \<Rightarrow> managed \<Rightarrow> managed" where
  "store_context c st =
     (case c of
        None \<Rightarrow> st\<lparr>shared_context := None\<rparr>
      | Some c \<Rightarrow> st\<lparr>shared_context := Some (next_context st),
                     contexts := (contexts st)(next_context st \<mapsto> c),
                     next_context := next_context st + 1\<rparr>)"

text \<open>
  The body that \<open>update_local_context\<close> and \<open>update_local_context_full\<close> share, for the thread \<open>t\<close>;
  they differ in the function that builds a context and in the variables they work on.
\<close>

definition update_local_with ::
    "(int \<Rightarrow> epoch_context_full option) \<Rightarrow> nat \<Rightarrow> int \<Rightarrow> managed \<Rightarrow> managed" where
  "update_local_with create t epoch st =
     (let st = st\<lparr>thread_local_context := (thread_local_context st)(t := None)\<rparr>;
          st = (if \<not> points_to_epoch st (shared_context st) epoch
                then let st = st\<lparr>shared_context := None\<rparr> in store_context (create epoch) st
                else st)
      in st\<lparr>thread_local_context := (thread_local_context st)(t := shared_context st)\<rparr>)"

definition update_local_context :: "host \<Rightarrow> (u64 \<Rightarrow> bool) \<Rightarrow> nat \<Rightarrow> int \<Rightarrow> managed \<Rightarrow> managed" where
  "update_local_context h calloc_ok = update_local_with (ethash_create_epoch_context h calloc_ok)"

definition update_local_context_full :: "host \<Rightarrow> (u64 \<Rightarrow> bool) \<Rightarrow> nat \<Rightarrow> int \<Rightarrow> managed \<Rightarrow> managed" where
  "update_local_context_full h calloc_ok =
     update_local_with (ethash_create_epoch_context_full h calloc_ok)"

definition ethash_get_global_epoch_context ::
    "host \<Rightarrow> (u64 \<Rightarrow> bool) \<Rightarrow> nat \<Rightarrow> int \<Rightarrow> managed \<Rightarrow> nat option \<times> managed" where
  "ethash_get_global_epoch_context h calloc_ok t epoch st =
     (let st = (if \<not> points_to_epoch st (thread_local_context st t) epoch
                then update_local_context h calloc_ok t epoch st else st)
      in (thread_local_context st t, st))"

definition ethash_get_global_epoch_context_full ::
    "host \<Rightarrow> (u64 \<Rightarrow> bool) \<Rightarrow> nat \<Rightarrow> int \<Rightarrow> managed \<Rightarrow> nat option \<times> managed" where
  "ethash_get_global_epoch_context_full h calloc_ok t epoch st =
     (let st = (if \<not> points_to_epoch st (thread_local_context st t) epoch
                then update_local_context_full h calloc_ok t epoch st else st)
      in (thread_local_context st t, st))"

section \<open>The cache of contexts as an interface\<close>

text \<open>Every stored context is good, and no pointer dangles.\<close>

definition managed_inv :: "(epoch_context_full \<Rightarrow> bool) \<Rightarrow> managed \<Rightarrow> bool" where
  "managed_inv good st \<longleftrightarrow>
     (\<forall>a c. contexts st a = Some c \<longrightarrow> good c \<and> a < next_context st) \<and>
     (\<forall>a. shared_context st = Some a \<longrightarrow> contexts st a \<noteq> None) \<and>
     (\<forall>t a. thread_local_context st t = Some a \<longrightarrow> contexts st a \<noteq> None)"

text \<open>
  The contract of a context constructor: what it returns is a good context of the epoch it was
  asked for. \<open>valid\<close> is the set of epochs for which that is promised.
\<close>

locale context_cache =
  fixes create :: "int \<Rightarrow> epoch_context_full option"
    and good :: "epoch_context_full \<Rightarrow> bool"
    and valid :: "int \<Rightarrow> bool"
  assumes create_good: "valid e \<Longrightarrow> create e = Some c \<Longrightarrow> good c \<and> epoch_number c = e"
begin

lemma update_local_inv:
  assumes "managed_inv good st" and "valid e"
  shows "managed_inv good (update_local_with create t e st)"
  using assms create_good [OF assms(2)]
  by (auto simp: update_local_with_def Let_def store_context_def managed_inv_def less_Suc_eq
      split: option.split)

lemma update_local_epoch:
  assumes "valid e"
  shows "case thread_local_context (update_local_with create t e st) t of
      None \<Rightarrow> create e = None
    | Some a \<Rightarrow> points_to_epoch (update_local_with create t e st) (Some a) e"
  using create_good [OF assms]
  by (auto simp: update_local_with_def Let_def store_context_def points_to_epoch_def
      split: option.split)

end

text \<open>
  A context as its epoch demands it, with or without a dataset. \<open>valid_epoch\<close> are the epochs
  whose sizes fit an \<open>int\<close>.
\<close>

definition valid_epoch :: "int \<Rightarrow> bool" where
  "valid_epoch e \<longleftrightarrow> 0 \<le> e \<and> size_epoch e \<le> 32639"

definition context_of_epoch :: "epoch_context_full \<Rightarrow> bool" where
  "context_of_epoch c \<longleftrightarrow> wf_context c \<and>
     light_cache_num_items c = ethash_calculate_light_cache_num_items (size_epoch (epoch_number c)) \<and>
     full_dataset_num_items c = ethash_calculate_full_dataset_num_items (size_epoch (epoch_number c)) \<and>
     cache_words c =
       spec_mkcache (nat (light_cache_num_items c)) (spec_epoch_seed (nat (epoch_number c)))"

interpretation light_contexts:
    context_cache "ethash_create_epoch_context h calloc_ok" context_of_epoch valid_epoch
  for h calloc_ok
proof unfold_locales
  fix e c
  assume "valid_epoch e" "ethash_create_epoch_context h calloc_ok e = Some c"
  then show "context_of_epoch c \<and> epoch_number c = e"
    using create_context_spec [of e h calloc_ok False c]
    by (simp add: valid_epoch_def ethash_create_epoch_context_def context_of_epoch_def)
qed

interpretation full_contexts:
    context_cache "ethash_create_epoch_context_full h calloc_ok"
      "\<lambda>c. context_of_epoch c \<and> full_dataset_ok h c" valid_epoch
  for h calloc_ok
proof unfold_locales
  fix e c
  assume "valid_epoch e" "ethash_create_epoch_context_full h calloc_ok e = Some c"
  then show "(context_of_epoch c \<and> full_dataset_ok h c) \<and> epoch_number c = e"
    using create_context_spec [of e h calloc_ok True c] create_context_full_ok [of e h calloc_ok c]
    by (simp add: valid_epoch_def ethash_create_epoch_context_full_def context_of_epoch_def)
qed

section \<open>Threads\<close>

text \<open>
  What the threads do with the full contexts: ask for the context of an epoch, with any outcome of
  the allocation, and hash with the context they hold, which may fill items of its dataset.
\<close>

inductive managed_step :: "host \<Rightarrow> managed \<Rightarrow> managed \<Rightarrow> bool" for h where
  get: "valid_epoch e \<Longrightarrow>
    managed_step h st (snd (ethash_get_global_epoch_context_full h calloc_ok t e st))"
| hash: "thread_local_context st t = Some a \<Longrightarrow> contexts st a = Some c \<Longrightarrow> length header = 32 \<Longrightarrow>
    managed_step h st (st\<lparr>contexts := (contexts st)(a \<mapsto> snd (hash_full h c header nonce))\<rparr>)"

inductive_cases managed_step_cases: "managed_step h st st'"

lemma hash_full_context:
  assumes "context_of_epoch c \<and> full_dataset_ok h c" and "length header = 32"
  shows "context_of_epoch (snd (hash_full h c header nonce)) \<and>
    full_dataset_ok h (snd (hash_full h c header nonce)) \<and>
    epoch_number (snd (hash_full h c header nonce)) = epoch_number c"
proof -
  let ?c = "snd (hash_full h c header nonce)"
  have ok: "full_dataset_ok h ?c" and same: "?c\<lparr>full_dataset := None\<rparr> = c\<lparr>full_dataset := None\<rparr>"
    using hash_full_spec [of h c header nonce] assms by simp_all
  from arg_cong [OF same, of epoch_number] arg_cong [OF same, of light_cache_num_items]
  have "epoch_number ?c = epoch_number c" "light_cache_num_items ?c = light_cache_num_items c"
    by simp_all
  then show ?thesis
    using ok same_context_fields [OF same] assms
    by (simp add: context_of_epoch_def full_dataset_ok_def)
qed

lemma get_global_full_spec:
  assumes "managed_inv (\<lambda>c. context_of_epoch c \<and> full_dataset_ok h c) st" and "valid_epoch e"
    and "ethash_get_global_epoch_context_full h calloc_ok t e st = (p, st')"
  shows "managed_inv (\<lambda>c. context_of_epoch c \<and> full_dataset_ok h c) st'"
    and "case p of None \<Rightarrow> ethash_create_epoch_context_full h calloc_ok e = None
      | Some a \<Rightarrow> points_to_epoch st' (Some a) e"
    and "p = thread_local_context st' t"
  using assms full_contexts.update_local_inv [OF assms(1,2), of calloc_ok t]
    full_contexts.update_local_epoch [OF assms(2), of h calloc_ok t st]
  by (auto simp: ethash_get_global_epoch_context_full_def update_local_context_full_def Let_def
      points_to_epoch_def split: if_splits option.splits)

lemma managed_step_inv:
  assumes "managed_step h st st'" and "managed_inv (\<lambda>c. context_of_epoch c \<and> full_dataset_ok h c) st"
  shows "managed_inv (\<lambda>c. context_of_epoch c \<and> full_dataset_ok h c) st'"
  using assms
proof (cases rule: managed_step.cases)
  case (get e calloc_ok t)
  then show ?thesis using get_global_full_spec(1) [OF assms(2) get(2)] by (metis prod.collapse)
next
  case (hash t a c header nonce)
  then show ?thesis
    using hash_full_context [of c h header nonce] assms(2) by (auto simp: managed_inv_def)
qed

lemma managed_inv_init: "managed_inv good managed_init"
  by (simp add: managed_inv_def managed_init_def)

lemma managed_reachable_inv:
  "(managed_step h)\<^sup>*\<^sup>* managed_init st \<Longrightarrow>
     managed_inv (\<lambda>c. context_of_epoch c \<and> full_dataset_ok h c) st"
  by (induction rule: rtranclp_induct) (rule managed_inv_init, rule managed_step_inv)



end
