(* ===== verification/Common_Data.thy ===== *)
theory Common_Data
  imports Prelude
begin

text \<open>
  The conversions of \<^verbatim>\<open>libdev/CommonData.h\<close> and \<^verbatim>\<open>libdev/CommonData.cpp\<close>: hexadecimal text to and from
  bytes and integers, big-endian bytes to and from integers, and padding. Strings are character
  lists; an exception is an \<open>Inl\<close> value. The integers of the multiprecision library are natural
  numbers, reduced modulo their width where they have one. Reading a string at its size yields the
  terminating zero character, as in the language.
\<close>

section \<open>The C++ routines\<close>

datatype when_error = DontThrow | Throw

datatype hex_prefix = DontAdd | Add

datatype hex_error = BadHexCharacter

definition char_at :: "string \<Rightarrow> nat \<Rightarrow> char" where
  "char_at s i = (if i < length s then s ! i else CHR 0x00)"

text \<open>\<open>fromHex\<close> on a character, when told not to throw: \<open>-1\<close> stands for a bad character.\<close>

definition fromHex_char :: "char \<Rightarrow> int" where
  "fromHex_char c =
     (let i = (of_char c :: nat)
      in if i \<ge> 48 \<and> i \<le> 57 then int i - 48
         else if i \<ge> 97 \<and> i \<le> 102 then int i - 97 + 10
         else if i \<ge> 65 \<and> i \<le> 70 then int i - 65 + 10
         else -1)"

definition fromHex_char_throw :: "when_error \<Rightarrow> char \<Rightarrow> hex_error + int" where
  "fromHex_char_throw w c =
     (if fromHex_char c = -1 then (case w of Throw \<Rightarrow> Inl BadHexCharacter | DontThrow \<Rightarrow> Inr (-1))
      else Inr (fromHex_char c))"

definition hex_failure :: "when_error \<Rightarrow> hex_error + u8 list" where
  "hex_failure w = (case w of Throw \<Rightarrow> Inl BadHexCharacter | DontThrow \<Rightarrow> Inr [])"

function fromHex_pairs :: "when_error \<Rightarrow> string \<Rightarrow> nat \<Rightarrow> u8 list \<Rightarrow> hex_error + u8 list" where
  "fromHex_pairs w s i ret =
     (if i < length s
      then let h = fromHex_char (char_at s i); l = fromHex_char (char_at s (i + 1))
           in if h \<noteq> -1 \<and> l \<noteq> -1
              then fromHex_pairs w s (i + 2) (ret @ [word_of_int (h * 16 + l)])
              else hex_failure w
      else Inr ret)"
  by pat_completeness auto
termination
  by (relation "measure (\<lambda>(w, s, i, ret). length s - i)") auto

declare fromHex_pairs.simps [simp del]

definition fromHex :: "string \<Rightarrow> when_error \<Rightarrow> hex_error + u8 list" where
  "fromHex str w =
     (let s = (if char_at str 0 = CHR ''0'' \<and> char_at str 1 = CHR ''x'' then 2 else 0)
      in if length str mod 2 \<noteq> 0
         then let h = fromHex_char (char_at str s)
              in if h \<noteq> -1 then fromHex_pairs w str (s + 1) [word_of_int h] else hex_failure w
         else fromHex_pairs w str s [])"

text \<open>A stream with \<open>std::hex\<close>, and with \<open>setfill('0')\<close> and \<open>setw\<close>.\<close>

definition hex_digit :: "nat \<Rightarrow> char" where
  "hex_digit d = (if d < 10 then char_of (48 + d) else char_of (87 + d))"

fun hex_of_nat :: "nat \<Rightarrow> string" where
  "hex_of_nat n = (if n < 16 then [hex_digit n] else hex_of_nat (n div 16) @ [hex_digit (n mod 16)])"

declare hex_of_nat.simps [simp del]

definition padLeft :: "string \<Rightarrow> nat \<Rightarrow> char \<Rightarrow> string" where
  "padLeft s n c = (if n > length s then replicate (n - length s) c @ s else s)"

definition padRight :: "string \<Rightarrow> nat \<Rightarrow> char \<Rightarrow> string" where
  "padRight s n c = (if n > length s then s @ replicate (n - length s) c else s)"

definition hex_setw :: "nat \<Rightarrow> nat \<Rightarrow> string" where
  "hex_setw width n = padLeft (hex_of_nat n) width (CHR ''0'')"

definition with_prefix :: "hex_prefix \<Rightarrow> string \<Rightarrow> string" where
  "with_prefix p s = (case p of Add \<Rightarrow> ''0x'' @ s | DontAdd \<Rightarrow> s)"

fun toHex_bytes :: "u8 list \<Rightarrow> nat \<Rightarrow> string" where
  "toHex_bytes [] w = []"
| "toHex_bytes (b # bs) w = hex_setw w (unat b) @ toHex_bytes bs 2"

definition toHex :: "u8 list \<Rightarrow> nat \<Rightarrow> hex_prefix \<Rightarrow> string" where
  "toHex data w p = with_prefix p (toHex_bytes data w)"

definition toHex_u64 :: "u64 \<Rightarrow> hex_prefix \<Rightarrow> nat \<Rightarrow> string" where
  "toHex_u64 n p width = with_prefix p (hex_setw width (unat n))"

definition toHex_u32 :: "u32 \<Rightarrow> hex_prefix \<Rightarrow> nat \<Rightarrow> string" where
  "toHex_u32 n p width = with_prefix p (hex_setw width (unat n))"

definition toCompactHex :: "u64 \<Rightarrow> hex_prefix \<Rightarrow> string" where
  "toCompactHex n p = with_prefix p (hex_of_nat (unat n))"

definition toCompactHex32 :: "u32 \<Rightarrow> hex_prefix \<Rightarrow> string" where
  "toCompactHex32 n p = with_prefix p (hex_of_nat (unat n))"

text \<open>\<open>toBigEndian\<close> fills a collection of the given size from its end; the first bytes come last.\<close>

fun toBigEndian :: "nat \<Rightarrow> nat \<Rightarrow> u8 list" where
  "toBigEndian v 0 = []"
| "toBigEndian v (Suc i) = toBigEndian (v div 256) i @ [word_of_nat (v mod 256)]"

text \<open>\<open>fromBigEndian\<close> into an unsigned type of \<open>bits\<close> bits.\<close>

definition fromBigEndian :: "nat \<Rightarrow> u8 list \<Rightarrow> nat" where
  "fromBigEndian bits bs = foldl (\<lambda>ret b. (ret * 256 + unat b) mod 2 ^ bits) 0 bs"

fun bytesRequired :: "nat \<Rightarrow> nat" where
  "bytesRequired v = (if v \<noteq> 0 then Suc (bytesRequired (v div 256)) else 0)"

declare bytesRequired.simps [simp del]

definition toCompactBigEndian :: "nat \<Rightarrow> nat \<Rightarrow> u8 list" where
  "toCompactBigEndian v m = toBigEndian v (max m (bytesRequired v))"

section \<open>Hexadecimal text\<close>

lemma fromHex_char_digit: "d < 16 \<Longrightarrow> fromHex_char (hex_digit d) = int d"
  by (auto simp: fromHex_char_def hex_digit_def of_char_of Let_def)

lemma hex_digit_not_x: "d < 16 \<Longrightarrow> hex_digit d \<noteq> CHR ''x''"
  by (auto simp: hex_digit_def char_of_eq_iff take_bit_nat_eq_self)

lemma hex_digit_0: "hex_digit 0 = CHR ''0''"
  by code_simp

lemma hex_of_nat_byte: "n < 256 \<Longrightarrow> hex_setw 2 n = [hex_digit (n div 16), hex_digit (n mod 16)]"
proof -
  assume n: "n < 256"
  have "hex_of_nat n = (if n < 16 then [hex_digit n] else [hex_digit (n div 16), hex_digit (n mod 16)])"
    using n by (subst hex_of_nat.simps) (simp add: hex_of_nat.simps [of "n div 16"] less_mult_imp_div_less)
  then show ?thesis
    by (auto simp: hex_setw_def padLeft_def hex_digit_0)
qed

lemma length_toHex_bytes: "length (toHex_bytes bs 2) = 2 * length bs"
proof (induction bs)
  case (Cons b bs)
  have "unat b < 256" using unsigned_less [of b, where ?'a = nat] by simp
  with Cons show ?case by (simp add: hex_of_nat_byte)
qed simp

lemma nth_toHex_bytes:
  assumes "i < length bs"
  shows "toHex_bytes bs 2 ! (2 * i) = hex_digit (unat (bs ! i) div 16)"
    "toHex_bytes bs 2 ! (2 * i + 1) = hex_digit (unat (bs ! i) mod 16)"
  using assms
proof (induction bs arbitrary: i)
  case (Cons b bs)
  have b: "unat b < 256" using unsigned_less [of b, where ?'a = nat] by simp
  { case 1 with Cons.IH(1) b show ?case by (cases i) (simp_all add: hex_of_nat_byte) }
  { case 2 with Cons.IH(2) b show ?case by (cases i) (simp_all add: hex_of_nat_byte) }
qed simp_all

lemma fromHex_pairs_toHex:
  assumes "str = p @ toHex_bytes bs 2" and "i \<le> length bs"
  shows "fromHex_pairs w str (length p + 2 * i) (take i bs) = Inr bs"
  using assms(2)
proof (induction "length bs - i" arbitrary: i)
  case 0
  then show ?case
    using length_toHex_bytes [of bs] by (subst fromHex_pairs.simps) (simp add: assms(1))
next
  case (Suc k)
  then have i: "i < length bs" "k = length bs - (i + 1)" by simp_all
  let ?b = "bs ! i"
  have b: "unat ?b < 256" using unsigned_less [of ?b, where ?'a = nat] by simp
  have c: "char_at str (length p + 2 * i) = hex_digit (unat ?b div 16)"
    "char_at str (length p + 2 * i + 1) = hex_digit (unat ?b mod 16)"
    using i(1) length_toHex_bytes [of bs] nth_toHex_bytes [OF i(1)]
    by (simp_all add: char_at_def assms(1) nth_append)
  have "int (unat ?b div 16) * 16 + int (unat ?b mod 16) = int (unat ?b)"
    by (metis div_mult_mod_eq of_nat_add of_nat_mult of_nat_numeral)
  then have "word_of_int (int (unat ?b div 16) * 16 + int (unat ?b mod 16)) = ?b"
    by (simp only:) simp
  then show ?case
    using Suc.hyps(1) [OF i(2)] i(1) c b length_toHex_bytes [of bs]
    by (subst fromHex_pairs.simps)
      (simp add: Let_def assms(1) fromHex_char_digit less_mult_imp_div_less take_Suc_conv_app_nth)
qed

lemma fromHex_toHex: "fromHex (toHex bs 2 p) w = Inr bs"
proof (cases p)
  case Add
  have "length (''0x'' @ toHex_bytes bs 2) mod 2 = 0" by (simp add: length_toHex_bytes)
  then show ?thesis
    using fromHex_pairs_toHex [of _ "''0x''" bs 0 w] Add
    by (simp add: fromHex_def toHex_def with_prefix_def char_at_def numeral_2_eq_2)
next
  case DontAdd
  have x: "char_at (toHex_bytes bs 2) 1 \<noteq> CHR ''x''"
  proof (cases bs)
    case (Cons b bs')
    have "unat b < 256" using unsigned_less [of b, where ?'a = nat] by simp
    then show ?thesis by (simp add: Cons char_at_def hex_of_nat_byte hex_digit_not_x)
  qed (simp add: char_at_def)
  show ?thesis
    using fromHex_pairs_toHex [of _ "[]" bs 0 w] DontAdd x
    by (simp add: fromHex_def toHex_def with_prefix_def length_toHex_bytes)
qed

text \<open>Where the digits of a string begin, and whether it has a bad character from there on.\<close>

definition hex_start :: "string \<Rightarrow> nat" where
  "hex_start s = (if take 2 s = ''0x'' then 2 else 0)"

definition has_bad_hex :: "string \<Rightarrow> bool" where
  "has_bad_hex s \<longleftrightarrow> (\<exists>c \<in> set (drop (hex_start s) s). fromHex_char c = -1)"

lemma fromHex_pairs_cases:
  assumes "even (length s - i)"
  shows "if \<exists>c \<in> set (drop i s). fromHex_char c = -1
    then \<forall>w. fromHex_pairs w s i ret = hex_failure w
    else \<exists>bs. \<forall>w. fromHex_pairs w s i ret = Inr bs"
  using assms
proof (induction "length s - i" arbitrary: i ret rule: less_induct)
  case less
  show ?case
  proof (cases "i < length s")
    case True
    then have i: "i + 1 < length s" "length s - (i + 2) < length s - i" "even (length s - (i + 2))"
      using less.prems by presburger+
    then have d: "drop i s = s ! i # s ! (i + 1) # drop (i + 2) s"
      by (simp add: Cons_nth_drop_Suc)
    have step: "fromHex_pairs w s i ret =
        (if fromHex_char (s ! i) \<noteq> -1 \<and> fromHex_char (s ! (i + 1)) \<noteq> -1
         then fromHex_pairs w s (i + 2) (ret @ [word_of_int (fromHex_char (s ! i) * 16 + fromHex_char (s ! (i + 1)))])
         else hex_failure w)" for w
      using i(1) by (subst fromHex_pairs.simps) (simp add: Let_def char_at_def)
    have bad: "(\<exists>c \<in> set (drop i s). fromHex_char c = -1) \<longleftrightarrow>
        \<not> (fromHex_char (s ! i) \<noteq> -1 \<and> fromHex_char (s ! (i + 1)) \<noteq> -1) \<or>
        (\<exists>c \<in> set (drop (i + 2) s). fromHex_char c = -1)"
      unfolding d by auto
    show ?thesis
      unfolding step bad
      using less.hyps [OF i(2,3),
          of "ret @ [word_of_int (fromHex_char (s ! i) * 16 + fromHex_char (s ! (i + 1)))]"]
      by (cases "fromHex_char (s ! i) \<noteq> -1 \<and> fromHex_char (s ! (i + 1)) \<noteq> -1") (simp_all only: if_True simp_thms not_False_eq_True if_False)
  next
    case False
    then show ?thesis by (simp add: fromHex_pairs.simps [of _ s i])
  qed
qed

lemma fromHex_cases:
  "if has_bad_hex s then \<forall>w. fromHex s w = hex_failure w else \<exists>bs. \<forall>w. fromHex s w = Inr bs"
proof -
  have start: "(if char_at s 0 = CHR ''0'' \<and> char_at s 1 = CHR ''x'' then 2 else 0) = hex_start s"
    by (cases s rule: remdups_adj.cases) (auto simp: char_at_def hex_start_def)
  have le: "hex_start s \<le> length s" by (auto simp: hex_start_def dest: arg_cong [of _ _ length])
  have par: "even (hex_start s)" by (simp add: hex_start_def)
  show ?thesis
  proof (cases "even (length s)")
    case True
    then show ?thesis
      using fromHex_pairs_cases [of s "hex_start s" "[]"] par le
      unfolding fromHex_def Let_def start has_bad_hex_def by auto
  next
    case False
    then have lt: "hex_start s < length s" using le par by (cases "hex_start s = length s") auto
    then have d: "drop (hex_start s) s = s ! hex_start s # drop (hex_start s + 1) s"
      by (simp add: Cons_nth_drop_Suc)
    let ?h = "fromHex_char (s ! hex_start s)"
    have eq: "fromHex s w = (if ?h \<noteq> -1 then fromHex_pairs w s (hex_start s + 1) [word_of_int ?h]
        else hex_failure w)" for w
      unfolding fromHex_def Let_def start using False lt by (simp add: char_at_def odd_iff_mod_2_eq_one)
    have bad: "has_bad_hex s \<longleftrightarrow>
        ?h = -1 \<or> (\<exists>c \<in> set (drop (hex_start s + 1) s). fromHex_char c = -1)"
      unfolding has_bad_hex_def d by auto
    have "even (length s - (hex_start s + 1))" using False par lt by presburger
    from fromHex_pairs_cases [OF this, of "[word_of_int ?h]"] show ?thesis
      unfolding eq bad by (cases "?h = -1") (simp_all only: if_True simp_thms if_False)
  qed
qed

text \<open>
  C17. Decoding the hexadecimal text of a byte string gives the byte string back, with and without
  the prefix and in both error modes; in particular the first digits of a byte string are never
  mistaken for the prefix.
\<close>

theorem hex_roundtrip: "fromHex (toHex bs 2 p) w = Inr bs"
  by (rule fromHex_toHex)

text \<open>
  C18. A string with a character that is not a hexadecimal digit after its prefix raises the
  exception when asked to, and otherwise decodes to the empty byte string; the bad character is not
  replaced by zero. Every other string decodes, to the same bytes in both modes.
\<close>

theorem hex_errors:
  "if has_bad_hex s
   then fromHex s Throw = Inl BadHexCharacter \<and> fromHex s DontThrow = Inr []
   else (\<exists>bs. fromHex s Throw = Inr bs \<and> fromHex s DontThrow = Inr bs)"
  using fromHex_cases [of s] by (auto simp: hex_failure_def split: if_splits)

section \<open>Big-endian integers\<close>

lemma length_toBigEndian [simp, len_simps]: "length (toBigEndian v n) = n"
  by (induction n arbitrary: v) simp_all

lemma be_nat_toBigEndian: "be_nat (toBigEndian v n) = v mod 256 ^ n"
proof (induction n arbitrary: v)
  case (Suc n)
  have "be_nat [word_of_nat (v mod 256)] = v mod 256"
    by (simp add: be_nat_def unat_of_nat)
  then show ?case by (simp add: be_nat_append Suc mod_mult2_eq [of v 256 "256 ^ n"])
qed (simp add: be_nat_def)

lemma toBigEndian_be_nat: "toBigEndian (be_nat bs) (length bs) = bs"
proof (induction bs rule: rev_induct)
  case (snoc b bs)
  have b: "be_nat [b] = unat b" "unat b < 256"
    using unsigned_less [of b, where ?'a = nat] by (simp_all add: be_nat_def)
  then show ?case using snoc by (simp add: be_nat_append)
qed simp

lemma fromBigEndian_be_nat: "fromBigEndian bits bs = be_nat bs mod 2 ^ bits"
proof (induction bs rule: rev_induct)
  case (snoc b bs)
  have "(m mod 2 ^ bits * 256 + unat b) mod 2 ^ bits = (256 * m + unat b) mod 2 ^ bits" for m
    by (metis mod_add_left_eq mod_mult_left_eq mult.commute)
  with snoc show ?case by (simp add: fromBigEndian_def be_nat_def)
qed (simp add: fromBigEndian_def be_nat_def)

lemma fromBigEndian_exact: "8 * length bs \<le> bits \<Longrightarrow> fromBigEndian bits bs = be_nat bs"
proof -
  assume "8 * length bs \<le> bits"
  then have "(256 :: nat) ^ length bs \<le> 2 ^ bits"
    using power_increasing [of "8 * length bs" bits "2 :: nat"] by (simp add: power_mult)
  then show ?thesis using be_nat_less [of bs] by (simp add: fromBigEndian_be_nat)
qed

lemma bytesRequired_bound: "v < 256 ^ bytesRequired v"
proof (induction v rule: bytesRequired.induct)
  case (1 v)
  show ?case
  proof (cases "v = 0")
    case False
    then show ?thesis using "1.IH" by (subst bytesRequired.simps) (simp add: less_mult_imp_div_less div_less_iff_less_mult mult.commute)
  qed (simp add: bytesRequired.simps)
qed

lemma be_nat_toCompactBigEndian: "be_nat (toCompactBigEndian v m) = v"
proof -
  have "(256 :: nat) ^ bytesRequired v \<le> 256 ^ max m (bytesRequired v)" by (intro power_increasing) simp_all
  with bytesRequired_bound [of v] have "v < 256 ^ max m (bytesRequired v)" by linarith
  then show ?thesis by (simp add: toCompactBigEndian_def be_nat_toBigEndian)
qed

end
