(* ===== verification/Fixed_Hash.thy ===== *)
theory Fixed_Hash
  imports Common_Data
begin

text \<open>
  The template \<open>FixedHash\<close> of \<^verbatim>\<open>libdev/FixedHash.h\<close>. A hash of \<open>N\<close> bytes is a list of \<open>N\<close> bytes; the
  template parameter is an argument where a routine depends on it. The lemmas show that the
  conversions to and from numbers are inverse to one another, that the byte-wise order is the order
  of the numbers, and that the byte-wise increment is the increment modulo \<open>256 ^ N\<close>.
\<close>

section \<open>The C++ routines\<close>

type_synonym fixed_hash = "u8 list"

datatype construct_from_hash = AlignLeft | AlignRight | FailIfDifferent

definition fixed_hash_empty :: "nat \<Rightarrow> fixed_hash" where
  "fixed_hash_empty N = replicate N 0"

text \<open>The copy loop that the converting constructors share; \<open>c\<close> is the number of bytes to copy.\<close>

definition fixed_hash_copy :: "nat \<Rightarrow> construct_from_hash \<Rightarrow> u8 list \<Rightarrow> nat \<Rightarrow> fixed_hash" where
  "fixed_hash_copy N t b c =
     fold (\<lambda>i d. d[(if t = AlignRight then N - 1 - i else i) :=
                     b ! (if t = AlignRight then length b - 1 - i else i)])
       [0..<c] (replicate N 0)"

definition fixed_hash_of_hash :: "nat \<Rightarrow> construct_from_hash \<Rightarrow> fixed_hash \<Rightarrow> fixed_hash" where
  "fixed_hash_of_hash N t h = fixed_hash_copy N t h (min (length h) N)"

definition fixed_hash_of_arith :: "nat \<Rightarrow> nat \<Rightarrow> fixed_hash" where
  "fixed_hash_of_arith N v = toBigEndian v N"

definition fixed_hash_of_bytes :: "nat \<Rightarrow> construct_from_hash \<Rightarrow> u8 list \<Rightarrow> fixed_hash" where
  "fixed_hash_of_bytes N t b =
     (if length b = N then b
      else if t \<noteq> FailIfDifferent then fixed_hash_copy N t b (min (length b) N)
      else replicate N 0)"

definition fixed_hash_of_string :: "nat \<Rightarrow> string \<Rightarrow> hex_error + fixed_hash" where
  "fixed_hash_of_string N s =
     (case fromHex s Throw of
        Inl e \<Rightarrow> Inl e
      | Inr b \<Rightarrow> Inr (fixed_hash_of_bytes N FailIfDifferent b))"

definition fixed_hash_arith :: "fixed_hash \<Rightarrow> nat" where
  "fixed_hash_arith h = fromBigEndian (length h * 8) h"

definition fixed_hash_bool :: "fixed_hash \<Rightarrow> bool" where
  "fixed_hash_bool h = list_ex (\<lambda>b. b \<noteq> 0) h"

text \<open>\<open>operator<\<close> over the bytes from \<open>i\<close> on.\<close>

fun fixed_hash_less :: "fixed_hash \<Rightarrow> fixed_hash \<Rightarrow> bool" where
  "fixed_hash_less (a # as) (b # bs) =
     (if a < b then True else if a > b then False else fixed_hash_less as bs)"
| "fixed_hash_less _ _ = False"

definition fixed_hash_less_eq :: "fixed_hash \<Rightarrow> fixed_hash \<Rightarrow> bool" where
  "fixed_hash_less_eq a b \<longleftrightarrow> a = b \<or> fixed_hash_less a b"

definition fixed_hash_xor :: "fixed_hash \<Rightarrow> fixed_hash \<Rightarrow> fixed_hash" where
  "fixed_hash_xor a b = map2 (XOR) a b"

definition fixed_hash_or :: "fixed_hash \<Rightarrow> fixed_hash \<Rightarrow> fixed_hash" where
  "fixed_hash_or a b = map2 (OR) a b"

definition fixed_hash_and :: "fixed_hash \<Rightarrow> fixed_hash \<Rightarrow> fixed_hash" where
  "fixed_hash_and a b = map2 (AND) a b"

definition fixed_hash_not :: "fixed_hash \<Rightarrow> fixed_hash" where
  "fixed_hash_not a = map NOT a"

text \<open>The loop of \<open>operator++\<close>: the byte before \<open>i\<close> is incremented, and again while it wraps to zero.\<close>

fun fixed_hash_inc_from :: "nat \<Rightarrow> fixed_hash \<Rightarrow> fixed_hash" where
  "fixed_hash_inc_from 0 h = h"
| "fixed_hash_inc_from (Suc i) h =
     (let h' = h[i := h ! i + 1] in if h' ! i = 0 then fixed_hash_inc_from i h' else h')"

definition fixed_hash_inc :: "fixed_hash \<Rightarrow> fixed_hash" where
  "fixed_hash_inc h = fixed_hash_inc_from (length h) h"

definition fixed_hash_abridged :: "fixed_hash \<Rightarrow> string" where
  "fixed_hash_abridged h = toHex (take 4 h) 2 DontAdd"

definition fixed_hash_hex :: "hex_prefix \<Rightarrow> fixed_hash \<Rightarrow> string" where
  "fixed_hash_hex p h = toHex h 2 p"

definition fixed_hash_clear :: "fixed_hash \<Rightarrow> fixed_hash" where
  "fixed_hash_clear h = replicate (length h) 0"

text \<open>\<open>operator==\<close> of 32-byte hashes, which compares four words of the host.\<close>

definition h256_equal :: "byte_order \<Rightarrow> fixed_hash \<Rightarrow> fixed_hash \<Rightarrow> bool" where
  "h256_equal bo a b =
     (let hash1 = map (load64 bo) (chunks 8 a); hash2 = map (load64 bo) (chunks 8 b)
      in hash1 ! 0 = hash2 ! 0 \<and> hash1 ! 1 = hash2 ! 1 \<and> hash1 ! 2 = hash2 ! 2 \<and> hash1 ! 3 = hash2 ! 3)"

section \<open>Numbers\<close>

lemma fixed_hash_arith_be_nat: "fixed_hash_arith h = be_nat h"
  by (simp add: fixed_hash_arith_def fromBigEndian_exact)

lemma be_nat_Cons: "be_nat (b # bs) = unat b * 256 ^ length bs + be_nat bs"
  using be_nat_append [of "[b]" bs] by (simp add: be_nat_def [of "[b]"])

lemma fixed_hash_less_iff:
  "length a = length b \<Longrightarrow> fixed_hash_less a b \<longleftrightarrow> be_nat a < be_nat b"
proof (induction a b rule: list_induct2)
  case (Cons x xs y ys)
  have lt: "be_nat xs < 256 ^ length ys" "be_nat ys < 256 ^ length ys"
    using be_nat_less [of xs] be_nat_less [of ys] Cons.hyps by simp_all
  have step: "u * 256 ^ length ys + be_nat xs' < v * 256 ^ length ys + be_nat ys'"
    if "u < v" "be_nat xs' < 256 ^ length ys" for u v xs' ys'
  proof -
    have "Suc u * 256 ^ length ys \<le> v * 256 ^ length ys" using that(1) by (intro mult_right_mono) simp_all
    with that(2) show ?thesis by simp
  qed
  consider "unat x < unat y" | "unat y < unat x" | "x = y"
    using word_unat_eq_iff [of x y] by linarith
  then show ?case
  proof cases
    case 1
    then show ?thesis using step [OF 1 lt(1)] Cons.hyps by (simp add: be_nat_Cons word_less_nat_alt)
  next
    case 2
    then show ?thesis using step [OF 2 lt(2), of xs] Cons.hyps by (simp add: be_nat_Cons word_less_nat_alt)
  next
    case 3
    then show ?thesis using Cons by (simp add: be_nat_Cons)
  qed
qed (simp add: be_nat_def)

lemma be_nat_inject: "length a = length b \<Longrightarrow> be_nat a = be_nat b \<longleftrightarrow> a = b"
  using toBigEndian_be_nat [of a] toBigEndian_be_nat [of b] by metis

lemma length_fixed_hash_inc_from [simp, len_simps]: "length (fixed_hash_inc_from i h) = length h"
  by (induction i arbitrary: h) (simp_all add: Let_def)

lemma be_nat_inc_from:
  assumes "i \<le> length h"
  shows "be_nat (fixed_hash_inc_from i h) =
    (be_nat (take i h) + 1) mod 256 ^ i * 256 ^ (length h - i) + be_nat (drop i h)"
  using assms
proof (induction i arbitrary: h)
  case (Suc i)
  let ?b = "h ! i" and ?r = "drop (Suc i) h" and ?t = "take i h"
  have h: "h = ?t @ [?b] @ ?r" using Suc.prems by (simp add: Cons_nth_drop_Suc)
  have tk: "be_nat (take (Suc i) h) = be_nat ?t * 256 + unat ?b"
    using Suc.prems by (simp add: take_Suc_conv_app_nth be_nat_append be_nat_def [of "[_]"])
  have t: "be_nat ?t < 256 ^ i" using be_nat_less [of ?t] Suc.prems by simp
  have len: "length h - i = Suc (length h - Suc i)" using Suc.prems by simp
  define B where "B = (256 :: nat) ^ (length h - Suc i)"
  have B: "256 ^ (length h - i) = 256 * B" by (simp add: len B_def)
  show ?case
  proof (cases "?b + 1 = 0")
    case True
    then have "?b = - 1" by (simp add: eq_neg_iff_add_eq_0)
    then have b: "unat ?b = 255" by (simp add: unsigned_minus_1_eq_mask mask_eq_exp_minus_1)
    have "drop i (h[i := 0]) = 0 # ?r" using Suc.prems by (simp add: Cons_nth_drop_Suc [symmetric])
    then have "be_nat (fixed_hash_inc_from i (h[i := 0])) =
        (be_nat ?t + 1) mod 256 ^ i * (256 * B) + be_nat ?r"
      using Suc.IH [of "h[i := 0]"] Suc.prems B by (simp add: be_nat_Cons)
    moreover have "(be_nat ?t * 256 + 255 + 1) mod 256 ^ Suc i = 256 * ((be_nat ?t + 1) mod 256 ^ i)"
      using mult_mod_right [of 256 "be_nat ?t + 1" "256 ^ i"] by (simp add: algebra_simps)
    ultimately show ?thesis
      using True Suc.prems b tk by (simp add: Let_def flip: B_def)
  next
    case False
    then have "unat ?b + 1 \<noteq> 256" using word_unat_eq_iff [of "?b + 1" 0] by (auto simp: unat_word_ariths)
    then have u: "unat (?b + 1) = unat ?b + 1" "unat ?b < 255"
      using unsigned_less [of ?b, where ?'a = nat] by (simp_all add: unat_word_ariths)
    have "be_nat (h[i := ?b + 1]) = (be_nat ?t * 256 + unat ?b + 1) * B + be_nat ?r"
    proof -
      have "h[i := ?b + 1] = ?t @ (?b + 1) # ?r" using Suc.prems by (simp add: upd_conv_take_nth_drop)
      then show ?thesis using Suc.prems u(1) by (simp add: be_nat_append be_nat_Cons len B_def algebra_simps)
    qed
    moreover have "be_nat ?t * 256 + unat ?b + 1 < 256 ^ Suc i" using t u(2) by simp
    ultimately show ?thesis using False Suc.prems tk by (simp add: Let_def flip: B_def)
  qed
qed (simp add: be_nat_def)

lemma be_nat_fixed_hash_inc: "be_nat (fixed_hash_inc h) = (be_nat h + 1) mod 256 ^ length h"
  using be_nat_inc_from [of "length h" h] by (simp add: fixed_hash_inc_def be_nat_def [of "[]"])

lemma h256_equal_iff:
  assumes "length a = 32" and "length b = 32"
  shows "h256_equal bo a b \<longleftrightarrow> a = b"
proof
  assume eq: "h256_equal bo a b"
  have w: "length (chunks 8 c) = 4" "\<forall>x \<in> set (chunks 8 c). length x = 8" if "length c = 32" for c :: fixed_hash
    using chunks_lengths [of 8 c 4] that by simp_all
  have "map (load64 bo) (chunks 8 a) = map (load64 bo) (chunks 8 b)"
  proof (rule nth_equalityI)
    fix i assume "i < length (map (load64 bo) (chunks 8 a))"
    then have "i = 0 \<or> i = 1 \<or> i = 2 \<or> i = 3" using w(1) [OF assms(1)] by auto
    with eq show "map (load64 bo) (chunks 8 a) ! i = map (load64 bo) (chunks 8 b) ! i"
      by (auto simp: h256_equal_def Let_def)
  qed (simp add: w assms)
  then have "map (store64 bo) (map (load64 bo) (chunks 8 a)) = map (store64 bo) (map (load64 bo) (chunks 8 b))"
    by simp
  then have "chunks 8 a = chunks 8 b"
    using w(2) [OF assms(1)] w(2) [OF assms(2)] by (simp add: map_idI)
  then show "a = b" by (metis concat_chunks zero_less_numeral)
qed (simp add: h256_equal_def Let_def)

text \<open>
  C19. Hashes behave as the big-endian numbers they stand for: converting to a number and back is
  the identity, a number that fits survives the conversion to a hash, the byte-wise comparison is
  the comparison of the numbers, the increment adds one modulo \<open>256 ^ N\<close>, and a hash written in
  hexadecimal is read back unchanged.
\<close>

theorem fixed_hash_numbers:
  assumes "length a = N" and "length b = N" and "v < 256 ^ N"
  shows "fixed_hash_of_arith N (fixed_hash_arith a) = a \<and>
    fixed_hash_arith (fixed_hash_of_arith N v) = v \<and>
    (fixed_hash_less a b \<longleftrightarrow> fixed_hash_arith a < fixed_hash_arith b) \<and>
    (fixed_hash_less_eq a b \<longleftrightarrow> fixed_hash_arith a \<le> fixed_hash_arith b) \<and>
    fixed_hash_arith (fixed_hash_inc a) = (fixed_hash_arith a + 1) mod 256 ^ N \<and>
    fixed_hash_of_string N (fixed_hash_hex p a) = Inr a"
proof -
  have "fixed_hash_of_string N (fixed_hash_hex p a) = Inr a"
    using assms(1) by (simp add: fixed_hash_of_string_def fixed_hash_hex_def fromHex_toHex
        fixed_hash_of_bytes_def)
  moreover have "fixed_hash_of_arith N (fixed_hash_arith a) = a"
    using toBigEndian_be_nat [of a] assms(1) by (simp add: fixed_hash_of_arith_def fixed_hash_arith_be_nat)
  moreover have "a = b \<longleftrightarrow> be_nat a = be_nat b" using assms be_nat_inject [of a b] by simp
  ultimately show ?thesis
    using assms fixed_hash_less_iff [of a b]
    by (auto simp: fixed_hash_of_arith_def fixed_hash_arith_be_nat be_nat_toBigEndian
        fixed_hash_less_eq_def be_nat_fixed_hash_inc)
qed

theorem fixed_hash_numbers_witness:
  "fixed_hash_less [0, 255] [1, 0] \<and> fixed_hash_arith (fixed_hash_inc [0, 255]) = 256 \<and>
   fixed_hash_of_string 2 (fixed_hash_hex Add [0, 255]) = Inr [0, 255]"
  using fixed_hash_numbers [of "[0, 255]" 2 "[1, 0]" 0 Add]
  by (simp add: fixed_hash_arith_def fromBigEndian_def)

end
