(* ===== verification/Ethash_Aux.thy ===== *)
theory Ethash_Aux
  imports Ethash_Managed Fixed_Hash
begin

text \<open>
  The data that the miner components pass around, from \<^verbatim>\<open>libeth/EthashAux.h\<close>: work packages, solutions
  and the epoch data of a miner, and the evaluation of a nonce in \<^verbatim>\<open>libeth/EthashAux.cpp\<close>. The lemmas
  show that the evaluation is Hashimoto over the cache of the epoch, whatever the state of the
  shared contexts.
\<close>

section \<open>The C++ types\<close>

text \<open>A \<open>double\<close> is carried as its 64 bits; nothing here computes with it.\<close>

type_synonym double_bits = u64

record eval_result =
  er_value :: fixed_hash
  er_mixHash :: fixed_hash

record miner_epoch =
  ec_epochNumber :: int
  ec_lightNumItems :: int
  ec_lightSize :: u64
  ec_lightCache :: "hash512 list option"
  ec_dagNumItems :: int
  ec_dagSize :: u64

record work_package =
  wp_job :: string
  wp_boundary :: fixed_hash
  wp_header :: fixed_hash
  wp_seed :: fixed_hash
  wp_epoch :: int
  wp_block :: int
  wp_startNonce :: u64
  wp_exSizeBytes :: u16
  wp_difficulty :: double_bits

definition work_package_default :: work_package where
  "work_package_default =
     \<lparr>wp_job = [], wp_boundary = fixed_hash_empty 32, wp_header = fixed_hash_empty 32,
      wp_seed = fixed_hash_empty 32, wp_epoch = -1, wp_block = -1, wp_startNonce = 0,
      wp_exSizeBytes = 0, wp_difficulty = 0\<rparr>"

definition work_package_bool :: "work_package \<Rightarrow> bool" where
  "work_package_bool w \<longleftrightarrow> wp_header w \<noteq> fixed_hash_empty 32"

record solution =
  s_nonce :: u64
  s_mixHash :: fixed_hash
  s_work :: work_package
  s_tstamp :: nat
  s_midx :: nat

section \<open>Evaluation of a nonce\<close>

text \<open>
  \<open>eval\<close> on thread \<open>t\<close>, with the shared contexts \<open>st\<close>. The reference that \<open>get_global_epoch_context\<close>
  returns is the dereferenced pointer; dereferencing a null pointer has no defined result.
\<close>

definition ethash_aux_eval ::
    "host \<Rightarrow> (u64 \<Rightarrow> bool) \<Rightarrow> nat \<Rightarrow> managed \<Rightarrow> int \<Rightarrow> fixed_hash \<Rightarrow> u64 \<Rightarrow> (eval_result \<times> managed) option" where
  "ethash_aux_eval h calloc_ok t st epoch headerHash nonce =
     (case ethash_get_global_epoch_context h calloc_ok t epoch st of
        (None, st') \<Rightarrow> None
      | (Some a, st') \<Rightarrow>
          (case contexts st' a of
             None \<Rightarrow> None
           | Some c \<Rightarrow>
               let result = ethash_hash h c headerHash nonce
               in Some (\<lparr>er_value = final_hash result, er_mixHash = mix_hash result\<rparr>, st')))"

section \<open>Correctness\<close>

text \<open>The states of the shared contexts that requests and evaluations can produce.\<close>

inductive light_step :: "host \<Rightarrow> managed \<Rightarrow> managed \<Rightarrow> bool" for h where
  get: "valid_epoch e \<Longrightarrow> light_step h st (snd (ethash_get_global_epoch_context h calloc_ok t e st))"

lemma get_global_light_spec:
  assumes "managed_inv context_of_epoch st" and "valid_epoch e"
    and "ethash_get_global_epoch_context h calloc_ok t e st = (p, st')"
  shows "managed_inv context_of_epoch st'"
    and "case p of None \<Rightarrow> ethash_create_epoch_context h calloc_ok e = None
      | Some a \<Rightarrow> points_to_epoch st' (Some a) e"
    and "p = thread_local_context st' t"
  using assms light_contexts.update_local_inv [OF assms(1,2), of h calloc_ok t]
    light_contexts.update_local_epoch [OF assms(2), of h calloc_ok t st]
  by (auto simp: ethash_get_global_epoch_context_def update_local_context_def Let_def
      points_to_epoch_def split: if_splits option.splits)

lemma light_reachable_inv:
  "(light_step h)\<^sup>*\<^sup>* managed_init st \<Longrightarrow> managed_inv context_of_epoch st"
proof (induction rule: rtranclp_induct)
  case base
  show ?case by (rule managed_inv_init)
next
  case (step st st')
  from step.hyps(2) show ?case
  proof cases
    case (get e calloc_ok t)
    then show ?thesis
      using get_global_light_spec(1) [OF step.IH get(2)] by (metis prod.collapse)
  qed
qed

lemma get_global_light_context:
  assumes "managed_inv context_of_epoch st" and "valid_epoch e"
    and "ethash_get_global_epoch_context h calloc_ok t e st = (Some a, st')"
  obtains c where "contexts st' a = Some c" "context_of_epoch c" "epoch_number c = e"
proof -
  note spec = get_global_light_spec [OF assms]
  then obtain c where c: "contexts st' a = Some c"
    unfolding managed_inv_def by (metis not_Some_eq)
  with spec(1,2) show ?thesis
    by (intro that [of c]) (auto simp: managed_inv_def points_to_epoch_def)
qed

text \<open>The hash and the mix of a nonce for an epoch, from the Ethash specification alone.\<close>

definition epoch_hashimoto :: "int \<Rightarrow> fixed_hash \<Rightarrow> u64 \<Rightarrow> hash256 \<times> hash256" where
  "epoch_hashimoto e header nonce =
     spec_hashimoto (nat (ethash_calculate_full_dataset_num_items (size_epoch e)))
       (spec_dataset_item_1024
          (spec_mkcache (nat (ethash_calculate_light_cache_num_items (size_epoch e))) (spec_epoch_seed (nat e))))
       header nonce"

lemma context_of_epoch_hash:
  assumes "context_of_epoch c" and "epoch_number c = e" and "length header = 32"
  shows "(final_hash (ethash_hash h c header nonce), mix_hash (ethash_hash h c header nonce)) =
    epoch_hashimoto e header nonce"
  using ethash_hash_spec [of c header h nonce] assms
  by (simp add: context_of_epoch_def hashimoto_of_def epoch_hashimoto_def)

lemma ethash_aux_eval_spec:
  assumes "managed_inv context_of_epoch st" and "valid_epoch e" and "length header = 32"
  shows "case ethash_aux_eval h calloc_ok t st e header nonce of
      None \<Rightarrow> ethash_create_epoch_context h calloc_ok e = None
    | Some (r, st') \<Rightarrow> (er_value r, er_mixHash r) = epoch_hashimoto e header nonce \<and>
        managed_inv context_of_epoch st'"
proof -
  obtain p st' where g: "ethash_get_global_epoch_context h calloc_ok t e st = (p, st')" by fastforce
  note spec = get_global_light_spec [OF assms(1,2) g]
  show ?thesis
  proof (cases p)
    case None
    then show ?thesis using g spec by (simp add: ethash_aux_eval_def)
  next
    case (Some a)
    then obtain c where "contexts st' a = Some c" "context_of_epoch c" "epoch_number c = e"
      using get_global_light_context [OF assms(1,2)] g by metis
    then show ?thesis
      using g Some spec(1) context_of_epoch_hash [OF _ _ assms(3), of c e]
      by (simp add: ethash_aux_eval_def Let_def)
  qed
qed

end
