(* ===== verification/Worker.thy ===== *)
theory Worker
  imports Main
begin

text \<open>
  The class \<open>Worker\<close> of \<^verbatim>\<open>libdev/Worker.h\<close> and \<^verbatim>\<open>libdev/Worker.cpp\<close>: a thread that is started, stopped
  and killed through an atomic state. Each atomic access is one step; the controlling calls hold a
  mutex, so at most one of them is under way, and the steps of the thread interleave with it at
  will. The lemmas give the invariant of the two sides and show that none of the waits of the
  controlling calls can block for ever once the work loop returns.
\<close>

section \<open>The C++ routines\<close>

datatype worker_state = Starting | Started | Stopping | Stopped | Killing

text \<open>
  Where the thread stands in the lambda of \<open>startWorking\<close>: the test of the loop, the attempt to
  leave \<open>Starting\<close>, the work loop, the exchange with \<open>Stopped\<close>, the restoration of the previous state,
  and the wait.
\<close>

datatype thread_pc =
  No_Thread | Loop_Test | Set_Started | In_Work_Loop | Set_Stopped | Restore worker_state
  | Wait_While_Stopped | Finished

text \<open>Where the controlling side stands: between calls, or in the wait of one of them.\<close>

datatype control_pc = Idle | Waiting_Start | Waiting_Stop | Joining | Destroyed

record worker =
  m_state :: worker_state
  m_work :: thread_pc
  control :: control_pc

definition worker_init :: worker where
  "worker_init = \<lparr>m_state = Starting, m_work = No_Thread, control = Idle\<rparr>"

definition compare_exchange :: "worker_state \<Rightarrow> worker_state \<Rightarrow> worker \<Rightarrow> worker" where
  "compare_exchange expected desired w = (if m_state w = expected then w\<lparr>m_state := desired\<rparr> else w)"

definition shouldStop :: "worker \<Rightarrow> bool" where
  "shouldStop w \<longleftrightarrow> m_state w \<noteq> Started"

definition startWorking :: "worker \<Rightarrow> worker" where
  "startWorking w =
     (let w = (if m_work w \<noteq> No_Thread then compare_exchange Stopped Starting w
               else w\<lparr>m_state := Starting, m_work := Loop_Test\<rparr>)
      in w\<lparr>control := Waiting_Start\<rparr>)"

definition triggerStopWorking :: "worker \<Rightarrow> worker" where
  "triggerStopWorking w = (if m_work w \<noteq> No_Thread then compare_exchange Started Stopping w else w)"

definition stopWorking :: "worker \<Rightarrow> worker" where
  "stopWorking w =
     (if m_work w \<noteq> No_Thread
      then (compare_exchange Started Stopping w)\<lparr>control := Waiting_Stop\<rparr> else w)"

definition destroyWorker :: "worker \<Rightarrow> worker" where
  "destroyWorker w =
     (if m_work w \<noteq> No_Thread then w\<lparr>m_state := Killing, control := Joining\<rparr>
      else w\<lparr>control := Destroyed\<rparr>)"

text \<open>One step of the thread; the work loop may return at any time, or raise, with the same effect.\<close>

definition thread_step :: "worker \<Rightarrow> worker" where
  "thread_step w =
     (case m_work w of
        No_Thread \<Rightarrow> w
      | Loop_Test \<Rightarrow> w\<lparr>m_work := (if m_state w \<noteq> Killing then Set_Started else Finished)\<rparr>
      | Set_Started \<Rightarrow> (compare_exchange Starting Started w)\<lparr>m_work := In_Work_Loop\<rparr>
      | In_Work_Loop \<Rightarrow> w\<lparr>m_work := Set_Stopped\<rparr>
      | Set_Stopped \<Rightarrow> w\<lparr>m_state := Stopped, m_work := Restore (m_state w)\<rparr>
      | Restore ex \<Rightarrow>
          (if ex = Killing \<or> ex = Starting then w\<lparr>m_state := ex\<rparr> else w)\<lparr>m_work := Wait_While_Stopped\<rparr>
      | Wait_While_Stopped \<Rightarrow> (if m_state w = Stopped then w else w\<lparr>m_work := Loop_Test\<rparr>)
      | Finished \<Rightarrow> w)"

text \<open>The two sides together. The last four rules of the control side are the ends of its waits.\<close>

inductive worker_step :: "worker \<Rightarrow> worker \<Rightarrow> bool" where
  thread: "worker_step w (thread_step w)"
| start: "control w = Idle \<Longrightarrow> worker_step w (startWorking w)"
| trigger: "control w = Idle \<Longrightarrow> worker_step w (triggerStopWorking w)"
| stop: "control w = Idle \<Longrightarrow> worker_step w (stopWorking w)"
| destroy: "control w = Idle \<Longrightarrow> worker_step w (destroyWorker w)"
| start_done: "control w = Waiting_Start \<Longrightarrow> m_state w \<noteq> Starting \<Longrightarrow>
    worker_step w (w\<lparr>control := Idle\<rparr>)"
| stop_done: "control w = Waiting_Stop \<Longrightarrow> m_state w = Stopped \<Longrightarrow>
    worker_step w (w\<lparr>control := Idle\<rparr>)"
| joined: "control w = Joining \<Longrightarrow> m_work w = Finished \<Longrightarrow>
    worker_step w (w\<lparr>m_work := No_Thread, control := Destroyed\<rparr>)"

inductive_cases worker_step_cases: "worker_step w w'"

section \<open>The invariant\<close>

definition thread_ok :: "worker_state \<Rightarrow> thread_pc \<Rightarrow> bool" where
  "thread_ok s pc =
     (case pc of
        No_Thread \<Rightarrow> True
      | Loop_Test \<Rightarrow> s = Starting \<or> s = Killing
      | Set_Started \<Rightarrow> s = Starting \<or> s = Killing
      | In_Work_Loop \<Rightarrow> s = Started \<or> s = Stopping \<or> s = Killing
      | Set_Stopped \<Rightarrow> s = Started \<or> s = Stopping \<or> s = Killing
      | Restore ex \<Rightarrow> (ex = Started \<or> ex = Stopping) \<and> (s = Stopped \<or> s = Starting \<or> s = Killing) \<or>
                     ex = Killing \<and> s = Stopped
      | Wait_While_Stopped \<Rightarrow> s = Stopped \<or> s = Starting \<or> s = Killing
      | Finished \<Rightarrow> True)"

definition being_killed :: "worker \<Rightarrow> bool" where
  "being_killed w \<longleftrightarrow> m_state w = Killing \<or> m_work w = Restore Killing \<or> m_work w = Finished"

definition control_ok :: "worker \<Rightarrow> bool" where
  "control_ok w =
     (case control w of
        Idle \<Rightarrow> m_work w = No_Thread \<and> m_state w \<noteq> Killing \<or>
               m_work w \<noteq> No_Thread \<and> m_state w \<noteq> Starting \<and> \<not> being_killed w
      | Waiting_Start \<Rightarrow> m_work w \<noteq> No_Thread \<and> \<not> being_killed w
      | Waiting_Stop \<Rightarrow> m_work w \<noteq> No_Thread \<and> (m_state w = Stopping \<or> m_state w = Stopped) \<and>
                       \<not> being_killed w
      | Joining \<Rightarrow> m_work w \<noteq> No_Thread \<and> being_killed w
      | Destroyed \<Rightarrow> m_work w = No_Thread)"

definition worker_inv :: "worker \<Rightarrow> bool" where
  "worker_inv w \<longleftrightarrow> thread_ok (m_state w) (m_work w) \<and> control_ok w"

lemmas worker_defs = worker_inv_def thread_ok_def control_ok_def being_killed_def compare_exchange_def

lemma worker_inv_init: "worker_inv worker_init"
  by (simp add: worker_defs worker_init_def)

lemma worker_inv_thread_step: "worker_inv w \<Longrightarrow> worker_inv (thread_step w)"
  by (cases w) (auto simp: worker_defs thread_step_def split: thread_pc.splits control_pc.splits)

lemma worker_inv_calls:
  assumes "worker_inv w" and "control w = Idle"
  shows "worker_inv (startWorking w)" "worker_inv (triggerStopWorking w)" "worker_inv (stopWorking w)"
    "worker_inv (destroyWorker w)"
  using assms
  by (auto simp: worker_defs startWorking_def triggerStopWorking_def stopWorking_def destroyWorker_def
      split: thread_pc.splits)

lemma worker_inv_step:
  assumes "worker_step w w'" and "worker_inv w"
  shows "worker_inv w'"
  using assms
proof (cases rule: worker_step.cases)
  case start_done
  with assms(2) show ?thesis by (auto simp: worker_defs split: thread_pc.splits)
next
  case stop_done
  with assms(2) show ?thesis by (auto simp: worker_defs split: thread_pc.splits)
next
  case joined
  with assms(2) show ?thesis by (auto simp: worker_defs)
qed (use assms(2) worker_inv_thread_step worker_inv_calls in auto)

lemma worker_reachable_inv: "worker_step\<^sup>*\<^sup>* worker_init w \<Longrightarrow> worker_inv w"
  by (induction rule: rtranclp_induct) (auto intro: worker_inv_init worker_inv_step)

text \<open>How far the thread alone gets.\<close>

lemma thread_run_stop:
  assumes "worker_inv w" and "control w = Waiting_Stop"
  shows "\<exists>n \<le> 2. m_state ((thread_step ^^ n) w) = Stopped"
proof (cases "m_state w = Stopped")
  case True
  then show ?thesis by (intro exI [of _ 0]) simp
next
  case False
  then have "m_state w = Stopping" "m_work w = In_Work_Loop \<or> m_work w = Set_Stopped"
    using assms by (auto simp: worker_defs split: thread_pc.splits)
  then show ?thesis
    by (elim disjE) (rule exI [of _ 2], simp add: thread_step_def numeral_2_eq_2,
        rule exI [of _ 1], simp add: thread_step_def)
qed

text \<open>Each step of the thread brings it nearer to the place where the wait of the caller ends.\<close>

definition start_distance :: "worker \<Rightarrow> nat" where
  "start_distance w =
     (if m_state w \<noteq> Starting then 0
      else case m_work w of Set_Started \<Rightarrow> 1 | Loop_Test \<Rightarrow> 2 | Wait_While_Stopped \<Rightarrow> 3 | _ \<Rightarrow> 4)"

definition join_distance :: "worker \<Rightarrow> nat" where
  "join_distance w =
     (case m_work w of
        Finished \<Rightarrow> 0 | Loop_Test \<Rightarrow> 1 | Wait_While_Stopped \<Rightarrow> 2 | Restore _ \<Rightarrow> 3
      | Set_Stopped \<Rightarrow> 4 | In_Work_Loop \<Rightarrow> 5 | _ \<Rightarrow> 6)"

lemma thread_run_measure:
  fixes d :: "worker \<Rightarrow> nat"
  assumes "\<And>w. I w \<Longrightarrow> I (thread_step w)"
    and "\<And>w. I w \<Longrightarrow> d w \<noteq> 0 \<Longrightarrow> d (thread_step w) < d w" and "I w"
  shows "\<exists>n \<le> d w. d ((thread_step ^^ n) w) = 0"
  using \<open>I w\<close>
proof (induction "d w" arbitrary: w rule: less_induct)
  case less
  show ?case
  proof (cases "d w = 0")
    case False
    then obtain n where "n \<le> d (thread_step w)" "d ((thread_step ^^ n) (thread_step w)) = 0"
      using less.hyps [OF assms(2)] assms(1) less.prems by blast
    then show ?thesis
      using assms(2) [OF less.prems False] by (intro exI [of _ "Suc n"]) (simp add: funpow_swap1)
  qed (use exI [of _ 0] in simp)
qed

lemma control_thread_step [simp]: "control (thread_step w) = control w"
  by (simp add: thread_step_def compare_exchange_def split: thread_pc.split)

lemma thread_run_start:
  assumes "worker_inv w" and "control w = Waiting_Start"
  shows "\<exists>n \<le> 4. m_state ((thread_step ^^ n) w) \<noteq> Starting"
proof -
  have "start_distance (thread_step v) < start_distance v"
    if "worker_inv v \<and> control v = Waiting_Start" and "start_distance v \<noteq> 0" for v
    using that by (auto simp: worker_defs start_distance_def thread_step_def split: thread_pc.splits if_splits)
  from thread_run_measure [where I = "\<lambda>v. worker_inv v \<and> control v = Waiting_Start" and d = start_distance, OF _ this]
  obtain n where "n \<le> start_distance w" "start_distance ((thread_step ^^ n) w) = 0"
    using assms worker_inv_thread_step by auto
  moreover have "start_distance w \<le> 4"
    by (simp add: start_distance_def split: thread_pc.split)
  ultimately show ?thesis
    by (intro exI [of _ n]) (auto simp: start_distance_def split: thread_pc.splits if_splits)
qed

lemma thread_run_join:
  assumes "worker_inv w" and "control w = Joining"
  shows "\<exists>n \<le> 6. m_work ((thread_step ^^ n) w) = Finished"
proof -
  have "join_distance (thread_step v) < join_distance v"
    if "worker_inv v \<and> control v = Joining" and "join_distance v \<noteq> 0" for v
    using that by (auto simp: worker_defs join_distance_def thread_step_def split: thread_pc.splits if_splits)
  from thread_run_measure [where I = "\<lambda>v. worker_inv v \<and> control v = Joining" and d = join_distance, OF _ this]
  obtain n where "n \<le> join_distance w" "join_distance ((thread_step ^^ n) w) = 0"
    using assms worker_inv_thread_step by auto
  moreover have "join_distance w \<le> 6"
    by (simp add: join_distance_def split: thread_pc.split)
  ultimately show ?thesis
    by (intro exI [of _ n]) (auto simp: join_distance_def split: thread_pc.splits)
qed

section \<open>Properties\<close>

text \<open>C21. Once the state is \<open>Stopped\<close> the thread is outside the work loop. And no wait of the controlling
  calls can block for good: whatever interleaving of calls and thread steps led there, if
  \<open>startWorking\<close>, \<open>stopWorking\<close> or the destructor is waiting, then the thread's own next few steps (a
  returning work loop is one step) bring it where the wait ends: out of \<open>Starting\<close>, to \<open>Stopped\<close>, or to
  the end of the thread.\<close>

theorem worker_waits_end:
  assumes "worker_step\<^sup>*\<^sup>* worker_init w"
  shows "(m_state w = Stopped \<longrightarrow> m_work w \<noteq> In_Work_Loop) \<and>
    (control w = Waiting_Start \<longrightarrow> (\<exists>n \<le> 4. m_state ((thread_step ^^ n) w) \<noteq> Starting)) \<and>
    (control w = Waiting_Stop \<longrightarrow> (\<exists>n \<le> 2. m_state ((thread_step ^^ n) w) = Stopped)) \<and>
    (control w = Joining \<longrightarrow> (\<exists>n \<le> 6. m_work ((thread_step ^^ n) w) = Finished))"
proof -
  from assms have inv: "worker_inv w" by (rule worker_reachable_inv)
  then have "m_state w = Stopped \<longrightarrow> m_work w \<noteq> In_Work_Loop" by (auto simp: worker_defs)
  with inv show ?thesis using thread_run_start thread_run_stop thread_run_join by blast
qed

text \<open>A thread is started, enters the work loop, and is asked to stop.\<close>

definition started_example :: worker where
  "started_example = \<lparr>m_state = Started, m_work = In_Work_Loop, control = Idle\<rparr>"

lemma started_example_reachable: "worker_step\<^sup>*\<^sup>* worker_init started_example"
proof -
  let ?w = "thread_step (thread_step (startWorking worker_init))"
  have "worker_step worker_init (startWorking worker_init)"
    by (rule worker_step.start) (simp add: worker_init_def)
  then have "worker_step\<^sup>*\<^sup>* worker_init ?w"
    by (meson r_into_rtranclp rtranclp.rtrancl_into_rtrancl worker_step.thread)
  moreover have "worker_step ?w (?w\<lparr>control := Idle\<rparr>)"
    by (rule worker_step.start_done)
      (simp_all add: startWorking_def worker_init_def thread_step_def compare_exchange_def)
  moreover have "?w\<lparr>control := Idle\<rparr> = started_example"
    by (simp add: started_example_def startWorking_def worker_init_def thread_step_def compare_exchange_def)
  ultimately show ?thesis by simp
qed

theorem worker_waits_end_witness:
  "control (stopWorking started_example) = Waiting_Stop \<and> m_state (stopWorking started_example) = Stopping \<and>
   (\<exists>n \<le> 2. m_state ((thread_step ^^ n) (stopWorking started_example)) = Stopped)"
proof -
  have "worker_step\<^sup>*\<^sup>* worker_init (stopWorking started_example)"
    using started_example_reachable
    by (rule rtranclp.rtrancl_into_rtrancl) (rule worker_step.stop, simp add: started_example_def)
  from worker_waits_end [OF this] show ?thesis
    by (simp add: stopWorking_def started_example_def compare_exchange_def)
qed

end
