(* ===== verification/C_Strings.thy ===== *)
theory C_Strings
  imports Common_Data
begin

text \<open>
  The conversions of the C and C++ standard libraries from text to numbers that the sources use, in
  base 16: \<open>strtoull\<close>, which saturates, and \<open>stoull\<close>, \<open>stoul\<close> and \<open>stoi\<close>, which throw. An
  \<open>unsigned long\<close> has 64 bits. The lemmas say what they return on plain hexadecimal digits.
\<close>

section \<open>The library routines\<close>

datatype std_error = Invalid_Argument | Out_Of_Range | Runtime_Error string | Json_Error | Bad_Hex_Character

definition c_isspace :: "char \<Rightarrow> bool" where
  "c_isspace c \<longleftrightarrow> (of_char c :: nat) = 32 \<or> (9 \<le> (of_char c :: nat) \<and> (of_char c :: nat) \<le> 13)"

definition is_hex :: "char \<Rightarrow> bool" where
  "is_hex c \<longleftrightarrow> fromHex_char c \<noteq> -1"

definition parse_sign :: "string \<Rightarrow> bool \<times> string" where
  "parse_sign s =
     (case s of
        [] \<Rightarrow> (False, [])
      | c # r \<Rightarrow> if c = CHR ''-'' then (True, r) else if c = CHR ''+'' then (False, r) else (False, s))"

definition strip_0x :: "string \<Rightarrow> string" where
  "strip_0x s =
     (if 3 \<le> length s \<and> s ! 0 = CHR ''0'' \<and> (s ! 1 = CHR ''x'' \<or> s ! 1 = CHR ''X'') \<and> is_hex (s ! 2)
      then drop 2 s else s)"

definition hex_value :: "string \<Rightarrow> nat" where
  "hex_value ds = foldl (\<lambda>v c. v * 16 + nat (fromHex_char c)) 0 ds"

text \<open>The sign and the magnitude of the longest numeral at the start of the text, if there is one.\<close>

definition parse_base16 :: "string \<Rightarrow> (bool \<times> nat) option" where
  "parse_base16 s =
     (case parse_sign (dropWhile c_isspace s) of
        (neg, r) \<Rightarrow> let ds = takeWhile is_hex (strip_0x r) in if ds = [] then None else Some (neg, hex_value ds))"

definition strtoull16 :: "string \<Rightarrow> u64" where
  "strtoull16 s =
     (case parse_base16 s of
        None \<Rightarrow> 0
      | Some (neg, v) \<Rightarrow> if v \<ge> 2 ^ 64 then -1 else if neg then - word_of_nat v else word_of_nat v)"

definition stoull16 :: "string \<Rightarrow> std_error + u64" where
  "stoull16 s =
     (case parse_base16 s of
        None \<Rightarrow> Inl Invalid_Argument
      | Some (neg, v) \<Rightarrow> if v \<ge> 2 ^ 64 then Inl Out_Of_Range else Inr (strtoull16 s))"

definition stoi16 :: "string \<Rightarrow> std_error + int" where
  "stoi16 s =
     (case parse_base16 s of
        None \<Rightarrow> Inl Invalid_Argument
      | Some (neg, v) \<Rightarrow>
          let i = (if neg then - int v else int v)
          in if i < - (2 ^ 31) \<or> 2 ^ 31 \<le> i then Inl Out_Of_Range else Inr i)"

text \<open>\<open>to_string\<close> of an unsigned number.\<close>

fun decimal :: "nat \<Rightarrow> string" where
  "decimal n = (if n < 10 then [char_of (48 + n)] else decimal (n div 10) @ [char_of (48 + n mod 10)])"

declare decimal.simps [simp del]

section \<open>Plain hexadecimal digits\<close>

lemma not_is_hex [simp]:
  "\<not> is_hex (CHR ''-'')" "\<not> is_hex (CHR ''+'')" "\<not> is_hex (CHR ''x'')" "\<not> is_hex (CHR ''X'')"
  by (simp_all add: is_hex_def fromHex_char_def)

lemma is_hex_not_space: "is_hex c \<Longrightarrow> \<not> c_isspace c"
  by (auto simp: is_hex_def fromHex_char_def c_isspace_def Let_def split: if_splits)

lemma fromHex_char_range: "is_hex c \<Longrightarrow> 0 \<le> fromHex_char c \<and> fromHex_char c < 16"
  by (auto simp: is_hex_def fromHex_char_def Let_def split: if_splits)

lemma hex_value_snoc: "hex_value (ds @ [c]) = hex_value ds * 16 + nat (fromHex_char c)"
  by (simp add: hex_value_def)

lemma hex_value_less: "list_all is_hex ds \<Longrightarrow> hex_value ds < 16 ^ length ds"
proof (induction ds rule: rev_induct)
  case (snoc c ds)
  then have "hex_value ds < 16 ^ length ds" "nat (fromHex_char c) < 16"
    using fromHex_char_range [of c] by (simp_all add: nat_less_iff)
  then show ?case by (simp add: hex_value_snoc)
qed (simp add: hex_value_def)

lemma parse_base16_hex:
  assumes "list_all is_hex s" and "s \<noteq> []"
  shows "parse_base16 s = Some (False, hex_value s)"
proof -
  obtain c r where s: "s = c # r" using assms(2) by (cases s) auto
  have c: "is_hex c" "c \<noteq> CHR ''-''" "c \<noteq> CHR ''+''" using assms(1) s by auto
  then have "dropWhile c_isspace s = s" "parse_sign s = (False, s)"
    using s is_hex_not_space by (simp_all add: parse_sign_def)
  moreover have "strip_0x s = s"
  proof -
    have "is_hex (s ! 1)" if "3 \<le> length s" using that assms(1) by (simp add: list_all_length)
    then have "\<not> (3 \<le> length s \<and> (s ! 1 = CHR ''x'' \<or> s ! 1 = CHR ''X''))" using not_is_hex by metis
    then show ?thesis by (auto simp: strip_0x_def)
  qed
  moreover have "takeWhile is_hex s = s" using assms(1) by (simp add: takeWhile_eq_all_conv list_all_iff)
  ultimately show ?thesis using assms(2) unfolding parse_base16_def by (simp only: Let_def split if_False)
qed

lemma strtoull16_hex:
  assumes "list_all is_hex s" and "s \<noteq> []" and "length s \<le> 16"
  shows "strtoull16 s = word_of_nat (hex_value s)" and "stoull16 s = Inr (word_of_nat (hex_value s))"
    and "hex_value s < 2 ^ 64"
proof -
  have "hex_value s < 16 ^ length s" by (rule hex_value_less [OF assms(1)])
  also have "\<dots> \<le> (16 :: nat) ^ 16" using assms(3) by (intro power_increasing) simp_all
  finally show v: "hex_value s < 2 ^ 64" by simp
  then show "strtoull16 s = word_of_nat (hex_value s)" "stoull16 s = Inr (word_of_nat (hex_value s))"
    using parse_base16_hex [OF assms(1,2)] by (simp_all add: strtoull16_def stoull16_def)
qed

end
