(* ===== verification/Miner.thy ===== *)
theory Miner
  imports Ethash_Aux Worker C_Strings
begin

text \<open>
  The class \<open>Miner\<close> of \<^verbatim>\<open>libeth/Miner.h\<close> and \<^verbatim>\<open>libeth/Miner.cpp\<close>, the part that the device back ends
  share: the current work, the reasons for a pause, the hash rate and the data of an epoch. The
  lemmas show that a paused miner holds no work as long as the calls do not overlap, where the
  overlap of \<open>setWork\<close> and \<open>pause\<close> breaks this, and that the epoch data handed to the device is that
  of the Ethash specification.
\<close>

section \<open>The C++ types\<close>

datatype device_type = Unknown_Device | Cpu | Gpu | Accelerator

datatype device_subscription = None_Subscribed | OpenCL | Cuda

datatype hw_monitor_type = UNKNOWN | NVIDIA | AMD

datatype cl_platform_type = Unknown_Platform | Amd | Clover | Nvidia | Intel

datatype solution_accounting = Accepted | Rejected | Wasted | Failed

datatype miner_pause =
  PauseDueToOverHeating | PauseDueToAPIRequest | PauseDueToFarmPaused
  | PauseDueToInsufficientMemory | PauseDueToInitEpochError

text \<open>The values below \<open>Pause_MAX\<close>, in the order of the enumeration.\<close>

definition all_pauses :: "miner_pause list" where
  "all_pauses = [PauseDueToOverHeating, PauseDueToAPIRequest, PauseDueToFarmPaused,
     PauseDueToInsufficientMemory, PauseDueToInitEpochError]"

record solution_account =
  accepted :: u32
  rejected :: u32
  wasted :: u32
  failed :: u32
  collectAcceptd :: u32
  account_tstamp :: nat

definition solution_account_new :: "nat \<Rightarrow> solution_account" where
  "solution_account_new now =
     \<lparr>accepted = 0, rejected = 0, wasted = 0, failed = 0, collectAcceptd = 0, account_tstamp = now\<rparr>"

definition solution_account_str :: "solution_account \<Rightarrow> string" where
  "solution_account_str a =
     ''A'' @ decimal (unat (accepted a)) @
     (if wasted a \<noteq> 0 then '':W'' @ decimal (unat (wasted a)) else []) @
     (if rejected a \<noteq> 0 then '':R'' @ decimal (unat (rejected a)) else []) @
     (if failed a \<noteq> 0 then '':F'' @ decimal (unat (failed a)) else [])"

text \<open>A \<open>float\<close> is carried as its 32 bits.\<close>

type_synonym float_bits = u32

record hw_sensors =
  tempC :: u32
  memtempC :: u32
  fanP :: u32
  powerW :: double_bits

record telemetry_account =
  prefix :: string
  hashrate :: float_bits
  t_paused :: bool
  sensors :: hw_sensors
  solutions :: solution_account

definition telemetry_account_new :: "nat \<Rightarrow> telemetry_account" where
  "telemetry_account_new now =
     \<lparr>prefix = [], hashrate = 0, t_paused = False,
      sensors = \<lparr>tempC = 0, memtempC = 0, fanP = 0, powerW = 0\<rparr>,
      solutions = solution_account_new now\<rparr>"

record hw_monitor_info =
  deviceType :: hw_monitor_type
  devicePciId :: string
  deviceIndex :: int

text \<open>
  The fields of \<open>DeviceDescriptor\<close> that the farm and the miners read or write; the others only hold
  what the drivers report.
\<close>

record device_descriptor =
  subscriptionType :: device_subscription
  uniqueId :: string
  totalMemory :: u64
  cuBlockSize :: u32
  cuStreamSize :: u32
  clPlatformType :: cl_platform_type
  clGroupSize :: u32
  clSplit :: bool

text \<open>
  \<open>worker_part\<close> is the base class. \<open>kicked\<close> records that the device has been told to abandon its
  current search and the waiting thread has been notified, which is what \<open>kick_miner\<close> of both back
  ends does.
\<close>

record miner =
  worker_part :: worker
  m_index :: nat
  m_deviceDescriptor :: device_descriptor
  m_epochContext :: miner_epoch
  m_hwmoninfo :: hw_monitor_info
  m_block_multiple :: u32
  m_pauseFlags :: "miner_pause \<Rightarrow> bool"
  miner_work :: work_package
  m_hashTime :: nat
  m_hashRate :: float_bits
  m_hashRateUpdate :: bool
  m_groupCount :: u64
  m_hung_miner :: bool
  m_initialized :: bool
  kicked :: bool

definition miner_epoch_none :: miner_epoch where
  "miner_epoch_none =
     \<lparr>ec_epochNumber = 0, ec_lightNumItems = 0, ec_lightSize = 0, ec_lightCache = None,
      ec_dagNumItems = 0, ec_dagSize = 0\<rparr>"

definition miner_new :: "nat \<Rightarrow> nat \<Rightarrow> device_descriptor \<Rightarrow> u32 \<Rightarrow> miner" where
  "miner_new now index device block_multiple =
     \<lparr>worker_part = worker_init, m_index = index, m_deviceDescriptor = device,
      m_epochContext = miner_epoch_none,
      m_hwmoninfo = \<lparr>deviceType = UNKNOWN, devicePciId = [], deviceIndex = -1\<rparr>,
      m_block_multiple = block_multiple, m_pauseFlags = (\<lambda>p. False), miner_work = work_package_default,
      m_hashTime = now, m_hashRate = 0, m_hashRateUpdate = False, m_groupCount = 0,
      m_hung_miner = False, m_initialized = False, kicked = False\<rparr>"

section \<open>The C++ routines\<close>

definition kick_miner :: "miner \<Rightarrow> miner" where
  "kick_miner m = m\<lparr>kicked := True\<rparr>"

definition paused :: "miner \<Rightarrow> bool" where
  "paused m = list_ex (m_pauseFlags m) all_pauses"

definition pauseTest :: "miner_pause \<Rightarrow> miner \<Rightarrow> bool" where
  "pauseTest what m = m_pauseFlags m what"

text \<open>\<open>setWork\<close> reads the pause flags, and then stores the work under another mutex.\<close>

definition setWork_store :: "bool \<Rightarrow> work_package \<Rightarrow> miner \<Rightarrow> miner" where
  "setWork_store is_paused w m =
     (if is_paused then m\<lparr>miner_work := (miner_work m)\<lparr>wp_header := fixed_hash_empty 32\<rparr>\<rparr>
      else m\<lparr>miner_work := w\<rparr>)"

definition miner_setWork :: "work_package \<Rightarrow> miner \<Rightarrow> miner" where
  "miner_setWork w m = kick_miner (setWork_store (paused m) w m)"

definition miner_pause_for :: "miner_pause \<Rightarrow> miner \<Rightarrow> miner" where
  "miner_pause_for what m =
     kick_miner (m\<lparr>m_pauseFlags := (m_pauseFlags m)(what := True),
                   miner_work := (miner_work m)\<lparr>wp_header := fixed_hash_empty 32\<rparr>\<rparr>)"

definition miner_resume :: "miner_pause \<Rightarrow> miner \<Rightarrow> miner" where
  "miner_resume fromwhat m = m\<lparr>m_pauseFlags := (m_pauseFlags m)(fromwhat := False)\<rparr>"

definition pause_text :: "miner_pause \<Rightarrow> string" where
  "pause_text p =
     (case p of
        PauseDueToOverHeating \<Rightarrow> ''Overheating''
      | PauseDueToAPIRequest \<Rightarrow> ''Api request''
      | PauseDueToFarmPaused \<Rightarrow> ''Farm suspended''
      | PauseDueToInsufficientMemory \<Rightarrow> ''Insufficient GPU memory''
      | PauseDueToInitEpochError \<Rightarrow> ''Epoch initialization error'')"

definition pausedString :: "miner \<Rightarrow> string" where
  "pausedString m =
     (if paused m
      then fold (\<lambda>p retVar. if m_pauseFlags m p
                            then (if retVar \<noteq> [] then retVar @ ''; '' else retVar) @ pause_text p
                            else retVar) all_pauses []
      else [])"

text \<open>
  The weak exchanges may fail although the value is the expected one; \<open>spurious\<close> says whether this
  one does.
\<close>

definition triggerHashRateUpdate :: "bool \<Rightarrow> miner \<Rightarrow> miner" where
  "triggerHashRateUpdate spurious m =
     (if \<not> m_hashRateUpdate m \<and> \<not> spurious then m\<lparr>m_hashRateUpdate := True\<rparr> else m\<lparr>m_hashRate := 0\<rparr>)"

text \<open>
  The product of the 32-bit arguments wraps before it is added to the 64-bit count. \<open>rate\<close> is the
  quotient \<open>float(groupCount * 1e6) / us\<close> of the floating-point unit.
\<close>

definition updateHashRate ::
    "(u64 \<Rightarrow> nat \<Rightarrow> float_bits) \<Rightarrow> bool \<Rightarrow> nat \<Rightarrow> u32 \<Rightarrow> u32 \<Rightarrow> miner \<Rightarrow> miner" where
  "updateHashRate rate spurious now groupSize increment m =
     (let m = m\<lparr>m_groupCount := m_groupCount m + ucast (increment * groupSize)\<rparr>
      in if \<not> m_hashRateUpdate m \<or> spurious then m
         else let us = now - m_hashTime m
              in m\<lparr>m_hashRateUpdate := False, m_hashTime := now,
                   m_hashRate := (if us \<noteq> 0 then rate (m_groupCount m) us else 0), m_groupCount := 0\<rparr>)"

text \<open>
  \<open>setEpoch\<close> on thread \<open>t\<close>. The copy of the cache has as many items as the byte count covers; None
  stands for the dereferenced null pointer of a context that could not be allocated.
\<close>

definition setEpoch ::
    "host \<Rightarrow> (u64 \<Rightarrow> bool) \<Rightarrow> nat \<Rightarrow> work_package \<Rightarrow> managed \<Rightarrow> miner \<Rightarrow> (miner \<times> managed) option" where
  "setEpoch h calloc_ok t w st m =
     (case ethash_get_global_epoch_context h calloc_ok t (wp_epoch w) st of
        (None, st') \<Rightarrow> None
      | (Some a, st') \<Rightarrow>
          (case contexts st' a of
             None \<Rightarrow> None
           | Some ec \<Rightarrow>
               let lightSize = get_light_cache_size (light_cache_num_items ec)
               in Some (m\<lparr>m_epochContext :=
                    \<lparr>ec_epochNumber = wp_epoch w,
                     ec_lightNumItems = light_cache_num_items ec,
                     ec_lightSize = lightSize,
                     ec_lightCache = Some (take (unat lightSize div 64) (light_cache ec)),
                     ec_dagNumItems = full_dataset_num_items ec,
                     ec_dagSize = get_full_dataset_size (full_dataset_num_items ec)\<rparr>\<rparr>, st')))"

definition freeCache :: "miner \<Rightarrow> miner" where
  "freeCache m = m\<lparr>m_epochContext := (m_epochContext m)\<lparr>ec_lightCache := None\<rparr>\<rparr>"

definition reportGPUNoMemoryAndPause :: "miner \<Rightarrow> miner" where
  "reportGPUNoMemoryAndPause m = miner_pause_for PauseDueToInsufficientMemory m"

section \<open>Pausing\<close>

lemma paused_iff: "paused m \<longleftrightarrow> (\<exists>p. m_pauseFlags m p)"
proof -
  have "set all_pauses = UNIV" using miner_pause.exhaust by (auto simp: all_pauses_def)
  then show ?thesis by (auto simp: paused_def list_ex_iff)
qed

lemma pausedString_Nil_iff: "pausedString m = [] \<longleftrightarrow> \<not> paused m"
proof -
  have "pause_text p \<noteq> []" for p by (cases p) (simp_all add: pause_text_def)
  then show ?thesis by (simp add: pausedString_def paused_def all_pauses_def)
qed

text \<open>The calls that other threads make, one at a time.\<close>

inductive miner_call :: "miner \<Rightarrow> miner \<Rightarrow> bool" where
  set_work: "miner_call m (miner_setWork w m)"
| pause_for: "miner_call m (miner_pause_for p m)"
| resume: "miner_call m (miner_resume p m)"
| hash_rate: "miner_call m (triggerHashRateUpdate spurious m)"

inductive_cases miner_call_cases: "miner_call m m'"

lemma miner_call_extend:
  assumes "miner_call\<^sup>*\<^sup>* a m"
  shows "miner_call\<^sup>*\<^sup>* a (miner_setWork w m)" and "miner_call\<^sup>*\<^sup>* a (miner_pause_for p m)"
  using rtranclp.rtrancl_into_rtrancl [OF assms miner_call.set_work [of m w]]
    rtranclp.rtrancl_into_rtrancl [OF assms miner_call.pause_for [of m p]] by simp_all

definition idle_if_paused :: "miner \<Rightarrow> bool" where
  "idle_if_paused m \<longleftrightarrow> (paused m \<longrightarrow> \<not> work_package_bool (miner_work m))"

lemmas miner_call_defs = miner_setWork_def setWork_store_def kick_miner_def miner_pause_for_def
  miner_resume_def triggerHashRateUpdate_def

lemma idle_if_paused_call: "miner_call m m' \<Longrightarrow> idle_if_paused m \<Longrightarrow> idle_if_paused m'"
  by (erule miner_call_cases)
    (auto simp: idle_if_paused_def paused_iff work_package_bool_def miner_call_defs)

lemma idle_if_paused_reachable:
  "miner_call\<^sup>*\<^sup>* (miner_new now i d b) m \<Longrightarrow> idle_if_paused m"
  by (induction rule: rtranclp_induct)
    (auto simp: idle_if_paused_def paused_iff miner_new_def intro: idle_if_paused_call
      dest: idle_if_paused_call)

lemma pauseFlags_calls:
  "m_pauseFlags (miner_setWork w m) = m_pauseFlags m"
  "m_pauseFlags (miner_pause_for p m) = (m_pauseFlags m)(p := True)"
  "m_pauseFlags (miner_resume p m) = (m_pauseFlags m)(p := False)"
  by (simp_all add: miner_call_defs)

text \<open>
  When the test of \<open>setWork\<close> is separated from its store by a \<open>pause\<close> of another thread, which only
  holds the other mutex, the paused miner is left with work.
\<close>

lemma setWork_pause_race:
  fixes p :: miner_pause
  assumes "\<not> paused m" and "work_package_bool w"
  defines "m' \<equiv> kick_miner (setWork_store (paused m) w (miner_pause_for p m))"
  shows "paused m' \<and> work_package_bool (miner_work m')"
  using assms by (auto simp: paused_iff miner_call_defs)

text \<open>C22. As long as the calls of other threads do not overlap, a paused miner has no work to search on:
  its header is void. Pausing for one reason and resuming from another leaves the miner paused;
  it is running exactly when no reason is left, and exactly then the text that lists the reasons is
  empty.\<close>

theorem paused_miner_idle:
  assumes "miner_call\<^sup>*\<^sup>* (miner_new now i d b) m"
  shows "(paused m \<longrightarrow> \<not> work_package_bool (miner_work m)) \<and>
    (paused (miner_resume p m) \<longleftrightarrow> (\<exists>q. q \<noteq> p \<and> pauseTest q m)) \<and>
    pauseTest p (miner_pause_for p m) \<and>
    (pausedString m = [] \<longleftrightarrow> \<not> paused m)"
  using idle_if_paused_reachable [OF assms]
  by (auto simp: idle_if_paused_def pausedString_Nil_iff paused_iff pauseTest_def miner_call_defs)

definition device_example :: device_descriptor where
  "device_example =
     \<lparr>subscriptionType = Cuda, uniqueId = ''0000:01:00.0'', totalMemory = 2 ^ 33, cuBlockSize = 128,
      cuStreamSize = 2, clPlatformType = Unknown_Platform, clGroupSize = 0, clSplit = False\<rparr>"

theorem paused_miner_idle_witness:
  "\<exists>m w. m = miner_setWork w (miner_pause_for PauseDueToOverHeating
        (miner_setWork w (miner_new 0 0 device_example 1000))) \<and>
     work_package_bool w \<and> paused m \<and> \<not> work_package_bool (miner_work m) \<and>
     pausedString m = ''Overheating''"
proof -
  let ?w = "work_package_default\<lparr>wp_header := replicate 32 1\<rparr>"
  let ?start = "miner_new 0 0 device_example 1000"
  let ?m = "miner_setWork ?w (miner_pause_for PauseDueToOverHeating (miner_setWork ?w ?start))"
  have "miner_call\<^sup>*\<^sup>* ?start ?m" by (intro miner_call_extend rtranclp.rtrancl_refl)
  note idle = paused_miner_idle [OF this, of PauseDueToOverHeating]
  have flags: "m_pauseFlags ?m = (\<lambda>p. p = PauseDueToOverHeating)"
    by (rule ext) (simp add: pauseFlags_calls miner_new_def)
  then have "paused ?m" by (simp add: paused_iff)
  moreover from flags have "pausedString ?m = ''Overheating''"
    by (simp add: pausedString_def paused_def all_pauses_def pause_text_def)
  moreover have "work_package_bool ?w" by (simp add: work_package_bool_def fixed_hash_empty_def)
  ultimately show ?thesis using idle by blast
qed

section \<open>The data of an epoch\<close>

lemma unat_sizes:
  assumes "0 \<le> n" and "n < 2 ^ 31"
  shows "unat (get_light_cache_size n) = 64 * nat n" and "unat (get_full_dataset_size n) = 128 * nat n"
  using uint_mult_size [OF assms, of 64] uint_mult_size [OF assms, of 128] assms
  by (simp_all add: get_light_cache_size_def get_full_dataset_size_def unat_eq_nat_uint nat_mult_distrib)

lemma context_of_epoch_cache:
  assumes "context_of_epoch c"
  shows "length (light_cache c) = nat (light_cache_num_items c)"
    and "unat (get_light_cache_size (light_cache_num_items c)) = 64 * length (light_cache c)"
    and "unat (get_full_dataset_size (full_dataset_num_items c)) = 128 * nat (full_dataset_num_items c)"
    and "0 \<le> light_cache_num_items c"
  using assms by (auto simp: context_of_epoch_def wf_context_def wf_cache_def unat_sizes)

text \<open>C23. Whatever requests the threads made before, the epoch data of a miner is that of the epoch of its
  work: the cache handed to the device is the whole cache of the Ethash specification, the byte
  counts are exactly 64 and 128 times the item counts with no wrap-around, and the copy neither
  reads nor writes past the end of the cache. The call fails only if the context could not be
  allocated.\<close>

theorem setEpoch_correct:
  assumes "(light_step h)\<^sup>*\<^sup>* managed_init st" and "valid_epoch (wp_epoch w)"
  shows "case setEpoch h calloc_ok t w st m of
      None \<Rightarrow> ethash_create_epoch_context h calloc_ok (wp_epoch w) = None
    | Some (m', st') \<Rightarrow>
        (\<exists>cache. ec_lightCache (m_epochContext m') = Some cache \<and>
          map (word32s Little_Endian) cache =
            spec_mkcache (nat (ec_lightNumItems (m_epochContext m'))) (spec_epoch_seed (nat (wp_epoch w))) \<and>
          int (length cache) = ec_lightNumItems (m_epochContext m') \<and>
          unat (ec_lightSize (m_epochContext m')) = 64 * length cache) \<and>
        unat (ec_dagSize (m_epochContext m')) = 128 * nat (ec_dagNumItems (m_epochContext m')) \<and>
        ec_lightNumItems (m_epochContext m') =
          ethash_calculate_light_cache_num_items (size_epoch (wp_epoch w)) \<and>
        ec_dagNumItems (m_epochContext m') =
          ethash_calculate_full_dataset_num_items (size_epoch (wp_epoch w))"
proof -
  note inv = light_reachable_inv [OF assms(1)]
  obtain p st' where g: "ethash_get_global_epoch_context h calloc_ok t (wp_epoch w) st = (p, st')"
    by fastforce
  show ?thesis
  proof (cases p)
    case None
    then show ?thesis using get_global_light_spec(2) [OF inv assms(2) g] g by (simp add: setEpoch_def)
  next
    case (Some a)
    then obtain c where c: "contexts st' a = Some c" "context_of_epoch c" "epoch_number c = wp_epoch w"
      using get_global_light_context [OF inv assms(2)] g by metis
    note cache = context_of_epoch_cache [OF c(2)]
    show ?thesis
      using g Some c cache by (simp add: setEpoch_def Let_def context_of_epoch_def cache_words_def)
  qed
qed

theorem setEpoch_correct_witness:
  "\<exists>h calloc_ok w m m' st'. wp_epoch w = 2 \<and>
     setEpoch h calloc_ok 0 w managed_init m = Some (m', st') \<and>
     ec_dagNumItems (m_epochContext m') = ethash_calculate_full_dataset_num_items 2"
proof -
  let ?h = "\<lparr>host_order = Little_Endian, host_bmi = False, host_bmi2 = False\<rparr>"
  let ?w = "work_package_default\<lparr>wp_epoch := 2\<rparr>" and ?m = "miner_new 0 0 device_example 1000"
  have create: "ethash_create_epoch_context ?h (\<lambda>sz. True) 2 \<noteq> None"
    by (simp add: ethash_create_epoch_context_def generic_create_epoch_context_def Let_def)
  have "valid_epoch (wp_epoch ?w)" by (simp add: valid_epoch_def size_epoch_def)
  note epoch = setEpoch_correct [OF rtranclp.rtrancl_refl this, of ?h "\<lambda>sz. True" 0 ?m]
  then obtain m' st' where "setEpoch ?h (\<lambda>sz. True) 0 ?w managed_init ?m = Some (m', st')"
    using create by (cases "setEpoch ?h (\<lambda>sz. True) 0 ?w managed_init ?m") auto
  moreover from this have "ec_dagNumItems (m_epochContext m') = ethash_calculate_full_dataset_num_items 2"
    using epoch by (simp add: size_epoch_def)
  moreover have "wp_epoch ?w = 2" by simp
  ultimately show ?thesis by blast
qed

end
