(* ===== verification/Farm.thy ===== *)
theory Farm
  imports Miner
begin

text \<open>
  The class \<open>Farm\<close> of \<^verbatim>\<open>libeth/Farm.h\<close> and \<^verbatim>\<open>libeth/Farm.cpp\<close>, which owns the miners: their creation
  and lifecycle, the distribution of work with a nonce segment for each miner, the accounts of
  solutions, the check of solutions before they are submitted, and the periodic collection of data
  with the temperature control. The monitor libraries are parameters, and the branch of the
  preprocessor for Linux is the one modelled; the floating-point unit is a parameter too.
\<close>

section \<open>The C++ routines\<close>

record farm_settings =
  hwMon :: u32
  tempStart :: u32
  tempStop :: u32
  set_nonce :: string
  set_cuBlockSize :: u32
  set_cuStreams :: u32
  set_clGroupSize :: u32
  set_clSplit :: bool

record telemetry =
  tel_hwmon :: bool
  tel_farm :: telemetry_account
  tel_miners :: "telemetry_account list"

text \<open>
  A monitor handle comes with the map from the identification of a device to its index. The timer
  of the data collection is armed or not. \<open>m_DevicesCollection\<close> is in the order of its keys.
\<close>

record farm =
  m_DevicesCollection :: "(string \<times> device_descriptor) list"
  m_miners :: "miner list"
  m_currentWp :: work_package
  m_isMining :: bool
  m_paused :: bool
  m_telemetry :: telemetry
  m_Settings :: farm_settings
  sysfsh :: "(string \<rightharpoonup> int) option"
  nvmlh :: "(string \<rightharpoonup> int) option"
  m_collectTimer :: bool

subsection \<open>Creation\<close>

text \<open>Which monitors the devices need: the one for AMD, and the one for NVIDIA.\<close>

fun needed_monitors :: "(string \<times> device_descriptor) list \<Rightarrow> bool \<times> bool \<Rightarrow> bool \<times> bool" where
  "needed_monitors [] need = need"
| "needed_monitors ((i, d) # ds) (need_sysfsh, need_nvmlh) =
     needed_monitors ds
       (if subscriptionType d = Cuda then (need_sysfsh, True)
        else if subscriptionType d = OpenCL \<and> clPlatformType d = Nvidia then (need_sysfsh, True)
        else if subscriptionType d = OpenCL \<and> clPlatformType d = Amd then (True, need_nvmlh)
        else (need_sysfsh, need_nvmlh))"

definition pci_id :: "nat \<Rightarrow> nat \<Rightarrow> nat \<Rightarrow> string" where
  "pci_id domain bus device =
     hex_setw 4 domain @ '':'' @ hex_setw 2 bus @ '':'' @ hex_setw 2 device @ ''.0''"

text \<open>The identifications of the devices a monitor reports, in the order of their indices.\<close>

definition monitor_map :: "string list \<Rightarrow> (string \<rightharpoonup> int)" where
  "monitor_map ids = fold (\<lambda>(i, s) m. m(s \<mapsto> int i)) (enumerate 0 ids) Map.empty"

text \<open>
  The results of \<open>wrap_amdsysfs_create\<close> and \<open>wrap_nvml_create\<close> are parameters: no handle, or the
  domain, bus and device of every device found.
\<close>

definition farm_new ::
    "(nat \<times> nat \<times> nat) list option \<Rightarrow> (nat \<times> nat \<times> nat) list option \<Rightarrow> nat \<Rightarrow>
     (string \<times> device_descriptor) list \<Rightarrow> farm_settings \<Rightarrow> farm" where
  "farm_new wrap_amdsysfs_create wrap_nvml_create now devices settings =
     (let (need_sysfsh, need_nvmlh) = needed_monitors devices (False, False);
          mon = hwMon settings \<noteq> 0
      in \<lparr>m_DevicesCollection = devices, m_miners = [], m_currentWp = work_package_default,
          m_isMining = False, m_paused = False,
          m_telemetry = \<lparr>tel_hwmon = mon, tel_farm = telemetry_account_new now, tel_miners = []\<rparr>,
          m_Settings = settings,
          sysfsh = (if mon \<and> need_sysfsh
                    then map_option (\<lambda>l. monitor_map (map (\<lambda>(dom, bus, dev). pci_id dom bus dev) l))
                      wrap_amdsysfs_create
                    else None),
          nvmlh = (if mon \<and> need_nvmlh
                   then map_option (\<lambda>l. monitor_map (map (\<lambda>(dom, bus, dev). pci_id dom bus (dev div 8)) l))
                     wrap_nvml_create
                   else None),
          m_collectTimer = True\<rparr>)"

subsection \<open>Work\<close>

text \<open>\<open>ceil(log2(n))\<close> for a positive \<open>n\<close>; the value for 0 is never used.\<close>

fun ceil_log2 :: "nat \<Rightarrow> nat" where
  "ceil_log2 n = (if n \<le> 1 then 0 else Suc (ceil_log2 ((n + 1) div 2)))"

declare ceil_log2.simps [simp del]

text \<open>A shift of a 64-bit number by 64 or more is undefined; \<open>undef\<close> is what it yields.\<close>

definition shl64 :: "(nat \<Rightarrow> u64) \<Rightarrow> u64 \<Rightarrow> nat \<Rightarrow> u64" where
  "shl64 undef x n = (if n < 64 then push_bit n x else undef n)"

fun setWork_miners ::
    "(nat \<Rightarrow> u64) \<Rightarrow> u16 \<Rightarrow> work_package \<Rightarrow> miner list \<Rightarrow> miner list \<times> work_package" where
  "setWork_miners undef segmentBits wp [] = ([], wp)"
| "setWork_miners undef segmentBits wp (m # ms) =
     (let wp' = wp\<lparr>wp_startNonce := wp_startNonce wp + shl64 undef 1 (unat segmentBits)\<rparr>;
          (ms', wp'') = setWork_miners undef segmentBits wp' ms
      in (miner_setWork wp m # ms', wp''))"

text \<open>\<open>random\<close> is the number drawn for the start nonce.\<close>

definition farm_setWork :: "(nat \<Rightarrow> u64) \<Rightarrow> u64 \<Rightarrow> work_package \<Rightarrow> farm \<Rightarrow> farm" where
  "farm_setWork undef random newWp f =
     (let segmentBits = (64 - word_of_nat (ceil_log2 (length (m_miners f)))) :: u16;
          nonce = set_nonce (m_Settings f);
          (segmentBits, wp) =
            (if nonce \<noteq> []
             then (segmentBits - word_of_nat (4 * length nonce),
                   newWp\<lparr>wp_startNonce :=
                     shl64 undef (strtoull16 nonce) (unat (64 - word_of_nat (4 * length nonce) :: u64))\<rparr>)
             else if wp_exSizeBytes newWp > 0 then (segmentBits - wp_exSizeBytes newWp * 4, newWp)
             else (segmentBits, newWp\<lparr>wp_startNonce := random\<rparr>));
          (ms, wp) = setWork_miners undef segmentBits wp (m_miners f)
      in f\<lparr>m_miners := ms, m_currentWp := wp\<rparr>)"

subsection \<open>Lifecycle\<close>

text \<open>
  \<open>startWorking\<close> with its wait: the thread runs until it has left \<open>Starting\<close>, which takes at most
  four of its steps.
\<close>

fun await_started :: "nat \<Rightarrow> worker \<Rightarrow> worker" where
  "await_started 0 w = w"
| "await_started (Suc n) w = (if m_state w \<noteq> Starting then w else await_started n (thread_step w))"

definition miner_startWorking :: "miner \<Rightarrow> miner" where
  "miner_startWorking m =
     m\<lparr>worker_part := (await_started 4 (startWorking (worker_part m)))\<lparr>control := Idle\<rparr>\<rparr>"

text \<open>One turn of the loop over the devices; \<open>eth_cuda\<close> and \<open>eth_cl\<close> are the build options.\<close>

definition start_device :: "bool \<Rightarrow> bool \<Rightarrow> nat \<Rightarrow> string \<times> device_descriptor \<Rightarrow> farm \<Rightarrow> farm" where
  "start_device eth_cuda eth_cl now dev f =
     (let (i, d) = dev; cfg = m_Settings f; n = length (m_miners f) in
      if eth_cuda \<and> subscriptionType d = Cuda then
        let d = (if set_cuBlockSize cfg \<noteq> 0 then d\<lparr>cuBlockSize := set_cuBlockSize cfg\<rparr> else d);
            d = (if set_cuStreams cfg \<noteq> 0 then d\<lparr>cuStreamSize := set_cuStreams cfg\<rparr> else d)
        in f\<lparr>m_DevicesCollection := m_DevicesCollection f @ [(i, d)],
             m_miners := m_miners f @ [miner_startWorking (miner_new now n d 1000)],
             m_telemetry := (m_telemetry f)\<lparr>tel_miners := tel_miners (m_telemetry f) @
                [(telemetry_account_new now)\<lparr>prefix := ''cu''\<rparr>]\<rparr>\<rparr>
      else if eth_cl \<and> subscriptionType d = OpenCL then
        let d = (if set_clGroupSize cfg \<noteq> 0 then d\<lparr>clGroupSize := set_clGroupSize cfg\<rparr> else d);
            d = d\<lparr>clSplit := set_clSplit cfg\<rparr>
        in f\<lparr>m_DevicesCollection := m_DevicesCollection f @ [(i, d)],
             m_miners := m_miners f @ [miner_startWorking (miner_new now n d 200000)],
             m_telemetry := (m_telemetry f)\<lparr>tel_miners := tel_miners (m_telemetry f) @
                [(telemetry_account_new now)\<lparr>prefix := ''cl''\<rparr>]\<rparr>\<rparr>
      else f\<lparr>m_DevicesCollection := m_DevicesCollection f @ [(i, d)]\<rparr>)"

definition farm_start :: "bool \<Rightarrow> bool \<Rightarrow> nat \<Rightarrow> farm \<Rightarrow> farm" where
  "farm_start eth_cuda eth_cl now f =
     (if m_isMining f then f
      else (if m_miners f = []
            then fold (start_device eth_cuda eth_cl now) (m_DevicesCollection f) (f\<lparr>m_DevicesCollection := []\<rparr>)
            else f\<lparr>m_miners := map miner_startWorking (m_miners f)\<rparr>)
           \<lparr>m_isMining := True\<rparr>)"

text \<open>Dropping the miners destroys them, which joins their threads.\<close>

definition farm_stop :: "farm \<Rightarrow> farm" where
  "farm_stop f =
     (if m_isMining f
      then f\<lparr>m_miners := [], m_telemetry := (m_telemetry f)\<lparr>tel_miners := []\<rparr>, m_isMining := False\<rparr>
      else f)"

definition farm_pause :: "farm \<Rightarrow> farm" where
  "farm_pause f = f\<lparr>m_paused := True, m_miners := map (miner_pause_for PauseDueToFarmPaused) (m_miners f)\<rparr>"

definition farm_resume :: "farm \<Rightarrow> farm" where
  "farm_resume f = f\<lparr>m_paused := False, m_miners := map (miner_resume PauseDueToFarmPaused) (m_miners f)\<rparr>"

definition setTStartTStop :: "u32 \<Rightarrow> u32 \<Rightarrow> farm \<Rightarrow> farm" where
  "setTStartTStop tstart tstop f = f\<lparr>m_Settings := (m_Settings f)\<lparr>tempStart := tstart, tempStop := tstop\<rparr>\<rparr>"

subsection \<open>Accounts\<close>

definition add_solution :: "solution_accounting \<Rightarrow> solution_account \<Rightarrow> solution_account" where
  "add_solution k a =
     (case k of
        Accepted \<Rightarrow> a\<lparr>accepted := accepted a + 1, collectAcceptd := collectAcceptd a + 1\<rparr>
      | Wasted \<Rightarrow> a\<lparr>wasted := wasted a + 1\<rparr>
      | Rejected \<Rightarrow> a\<lparr>rejected := rejected a + 1\<rparr>
      | Failed \<Rightarrow> a\<lparr>failed := failed a + 1\<rparr>)"

definition account :: "nat \<Rightarrow> solution_accounting \<Rightarrow> telemetry_account \<Rightarrow> telemetry_account" where
  "account now k t = t\<lparr>solutions := (add_solution k (solutions t))\<lparr>account_tstamp := now\<rparr>\<rparr>"

text \<open>The account of the farm is updated before the index of the miner is checked.\<close>

definition accountSolution ::
    "nat \<Rightarrow> nat \<Rightarrow> solution_accounting \<Rightarrow> farm \<Rightarrow> std_error option \<times> farm" where
  "accountSolution now idx k f =
     (let t = (m_telemetry f)\<lparr>tel_farm := account now k (tel_farm (m_telemetry f))\<rparr>
      in if idx < length (tel_miners t)
         then (None, f\<lparr>m_telemetry := t\<lparr>tel_miners := (tel_miners t)[idx := account now k (tel_miners t ! idx)]\<rparr>\<rparr>)
         else (Some Out_Of_Range, f\<lparr>m_telemetry := t\<rparr>))"

text \<open>The default for an index out of range is the static account created at time \<open>t0\<close>.\<close>

definition getSolutions :: "nat \<Rightarrow> nat \<Rightarrow> farm \<Rightarrow> solution_account" where
  "getSolutions t0 idx f =
     (if idx < length (tel_miners (m_telemetry f)) then solutions (tel_miners (m_telemetry f) ! idx)
      else solution_account_new t0)"

text \<open>
  \<open>submitProofAsync\<close> on thread \<open>t\<close>: the solution that goes to the pool, if any, the exception of the
  accounting, and the new state. None is the null pointer of \<open>eval\<close>.
\<close>

definition submitProofAsync ::
    "host \<Rightarrow> (u64 \<Rightarrow> bool) \<Rightarrow> nat \<Rightarrow> nat \<Rightarrow> solution \<Rightarrow> managed \<Rightarrow> farm \<Rightarrow>
     (solution option \<times> std_error option \<times> managed \<times> farm) option" where
  "submitProofAsync h calloc_ok t now s st f =
     (case ethash_aux_eval h calloc_ok t st (wp_epoch (s_work s)) (wp_header (s_work s)) (s_nonce s) of
        None \<Rightarrow> None
      | Some (r, st') \<Rightarrow>
          if \<not> fixed_hash_less_eq (er_value r) (wp_boundary (s_work s))
          then let (e, f') = accountSolution now (s_midx s) Failed f in Some (None, e, st', f')
          else Some (Some \<lparr>s_nonce = s_nonce s, s_mixHash = er_mixHash r, s_work = s_work s,
                       s_tstamp = s_tstamp s, s_midx = s_midx s\<rparr>, None, st', f))"

subsection \<open>Collection of data\<close>

text \<open>
  What a monitor reports of a device: temperatures, fan and power. The reads are parameters, as are
  the sum of two floats, the conversion of milliwatts and the failures of the weak exchanges.
\<close>

record raw_sensors =
  raw_tempC :: u32
  raw_memtempC :: u32
  raw_fanpcnt :: u32
  raw_powerW :: u32

record environment =
  read_nvml :: "int \<Rightarrow> raw_sensors"
  read_sysfs :: "int \<Rightarrow> raw_sensors"
  float_add :: "float_bits \<Rightarrow> float_bits \<Rightarrow> float_bits"
  div_1000 :: "u32 \<Rightarrow> double_bits"
  spurious_failure :: "nat \<Rightarrow> bool"
  exitOnError :: bool

definition no_sensors :: raw_sensors where
  "no_sensors = \<lparr>raw_tempC = 0, raw_memtempC = 0, raw_fanpcnt = 0, raw_powerW = 0\<rparr>"

text \<open>The miners up to the first hung one are marked; the flag says whether there is a hung one.\<close>

fun check_hung :: "miner list \<Rightarrow> bool \<times> miner list" where
  "check_hung [] = (False, [])"
| "check_hung (m # ms) =
     (if \<not> paused m \<and> m_initialized m
      then if m_hung_miner m then (True, m # ms)
           else let (b, ms') = check_hung ms in (b, m\<lparr>m_hung_miner := True\<rparr> # ms')
      else let (b, ms') = check_hung ms in (b, m # ms'))"

definition monitor_index :: "(string \<rightharpoonup> int) \<Rightarrow> hw_monitor_info \<Rightarrow> int \<times> hw_monitor_info" where
  "monitor_index ids info =
     (if deviceIndex info = -1 \<and> devicePciId info \<noteq> []
      then case ids (devicePciId info) of
          Some devIdx \<Rightarrow> (devIdx, info\<lparr>deviceIndex := devIdx\<rparr>)
        | None \<Rightarrow> (-1, info\<lparr>deviceIndex := -2\<rparr>)
      else (deviceIndex info, info))"

definition read_monitor ::
    "(string \<rightharpoonup> int) option \<Rightarrow> (int \<Rightarrow> raw_sensors) \<Rightarrow> u32 \<Rightarrow> miner \<Rightarrow> raw_sensors \<times> miner" where
  "read_monitor handle read_device mon m =
     (case handle of
        None \<Rightarrow> (no_sensors, m)
      | Some ids \<Rightarrow>
          let (devIdx, info) = monitor_index ids (m_hwmoninfo m);
              r = (if devIdx \<ge> 0 then read_device devIdx else no_sensors);
              r = (if mon = 2 then r else r\<lparr>raw_powerW := 0\<rparr>)
          in (r, m\<lparr>m_hwmoninfo := info\<rparr>))"

definition read_sensors :: "environment \<Rightarrow> farm \<Rightarrow> miner \<Rightarrow> raw_sensors \<times> miner" where
  "read_sensors env f m =
     (case deviceType (m_hwmoninfo m) of
        NVIDIA \<Rightarrow> read_monitor (nvmlh f) (read_nvml env) (hwMon (m_Settings f)) m
      | AMD \<Rightarrow> read_monitor (sysfsh f) (read_sysfs env) (hwMon (m_Settings f)) m
      | UNKNOWN \<Rightarrow> (no_sensors, m))"

definition temperature_control :: "farm_settings \<Rightarrow> u32 \<Rightarrow> miner \<Rightarrow> miner" where
  "temperature_control cfg temp m =
     (if tempStop cfg \<noteq> 0
      then let was_paused = pauseTest PauseDueToOverHeating m;
               m = (if \<not> was_paused \<and> temp \<ge> tempStop cfg then miner_pause_for PauseDueToOverHeating m else m)
           in if was_paused \<and> temp \<le> tempStart cfg then miner_resume PauseDueToOverHeating m else m
      else m)"

text \<open>One turn of the loop: the miner at position \<open>i\<close>, whose accounts are at the index it carries.\<close>

definition collect_miner ::
    "environment \<Rightarrow> nat \<Rightarrow> std_error option \<times> float_bits \<times> farm \<Rightarrow> std_error option \<times> float_bits \<times> farm" where
  "collect_miner env i st =
     (case st of (e, farm_hr, f) \<Rightarrow>
        let m = m_miners f ! i; idx = m_index m;
            hr = (if paused m then 0 else m_hashRate m);
            farm_hr = float_add env farm_hr hr;
            was_paused = paused m
        in if e \<noteq> None then st
           else if idx \<ge> length (tel_miners (m_telemetry f)) then (Some Out_Of_Range, farm_hr, f)
           else
             let acc = (tel_miners (m_telemetry f) ! idx)\<lparr>hashrate := hr, t_paused := was_paused\<rparr>;
                 (m, acc) =
                   (if hwMon (m_Settings f) \<noteq> 0
                    then let (r, m) = read_sensors env f m;
                             m = temperature_control (m_Settings f) (raw_tempC r) m
                         in (m, acc\<lparr>sensors := \<lparr>tempC = raw_tempC r, memtempC = raw_memtempC r,
                               fanP = raw_fanpcnt r, powerW = div_1000 env (raw_powerW r)\<rparr>\<rparr>)
                    else (m, acc));
                 m = triggerHashRateUpdate (spurious_failure env i) m;
                 tel = m_telemetry f
             in (None, farm_hr,
                 f\<lparr>m_miners := (m_miners f)[i := m],
                   m_telemetry := tel\<lparr>tel_miners := (tel_miners tel)[idx := acc],
                     tel_farm := (tel_farm tel)\<lparr>hashrate := farm_hr\<rparr>\<rparr>\<rparr>))"

text \<open>
  The handler of the timer; \<open>ec\<close> says that the timer was cancelled. The timer that fired is no
  longer armed. A hung miner ends the handler, with an exception if the program is to exit on
  errors; the reboot script that is started otherwise does not change the state.
\<close>

definition collectData :: "environment \<Rightarrow> bool \<Rightarrow> farm \<Rightarrow> std_error option \<times> farm" where
  "collectData env ec f =
     (let f = f\<lparr>m_collectTimer := False\<rparr> in
      if ec then (None, f)
      else case check_hung (m_miners f) of
          (True, ms) \<Rightarrow> (if exitOnError env then Some (Runtime_Error ''Hung GPU'') else None, f\<lparr>m_miners := ms\<rparr>)
        | (False, ms) \<Rightarrow>
            (case fold (collect_miner env) [0..<length ms] (None, 0, f\<lparr>m_miners := ms\<rparr>) of
               (Some e, hr, f) \<Rightarrow> (Some e, f)
             | (None, hr, f) \<Rightarrow> (None, f\<lparr>m_collectTimer := True\<rparr>)))"

section \<open>Nonce segments\<close>

lemma ceil_log2_ge: "n \<le> 2 ^ ceil_log2 n"
proof (induction n rule: ceil_log2.induct)
  case (1 n)
  then show ?case by (cases "n \<le> 1") (auto simp: ceil_log2.simps [of n])
qed

lemma setWork_miners_nth:
  "length (fst (setWork_miners u b wp ms)) = length ms \<and>
   (\<forall>i < length ms. fst (setWork_miners u b wp ms) ! i =
      miner_setWork (wp\<lparr>wp_startNonce := wp_startNonce wp + word_of_nat i * shl64 u 1 (unat b)\<rparr>) (ms ! i))"
proof (induction ms arbitrary: wp)
  case (Cons m ms)
  show ?case
  proof (intro conjI allI impI)
    fix i assume i: "i < length (m # ms)"
    show "fst (setWork_miners u b wp (m # ms)) ! i =
      miner_setWork (wp\<lparr>wp_startNonce := wp_startNonce wp + word_of_nat i * shl64 u 1 (unat b)\<rparr>) ((m # ms) ! i)"
      using i Cons by (cases i) (simp_all add: Let_def split_beta algebra_simps)
  qed (use Cons in \<open>simp add: Let_def split_beta\<close>)
qed simp

lemma farm_setWork_miner:
  assumes "i < length (m_miners f)" and "\<not> paused (m_miners f ! i)"
  shows "\<exists>start. miner_work (m_miners (farm_setWork u random w f) ! i) = w\<lparr>wp_startNonce := start\<rparr>"
proof -
  obtain b start where m: "m_miners (farm_setWork u random w f) =
      fst (setWork_miners u b (w\<lparr>wp_startNonce := start\<rparr>) (m_miners f))"
  proof (cases "set_nonce (m_Settings f) = []")
    case True
    then show thesis
      by (cases "wp_exSizeBytes w > 0")
        (rule that [of _ "wp_startNonce w"] that [of _ random]; simp add: farm_setWork_def Let_def split_beta)+
  next
    case False
    then show thesis by (intro that) (simp add: farm_setWork_def Let_def split_beta)
  qed
  show ?thesis using setWork_miners_nth [of u b "w\<lparr>wp_startNonce := start\<rparr>" "m_miners f"] assms
    by (auto simp: m miner_call_defs)
qed

text \<open>
  The \<open>k\<close> hexadecimal digits with value \<open>p\<close> that every nonce must begin with: those of the user, or
  those of the pool, which come in a start nonce that ends in zeros, or none.
\<close>

definition nonce_prefix :: "farm \<Rightarrow> work_package \<Rightarrow> nat \<Rightarrow> nat \<Rightarrow> bool" where
  "nonce_prefix f w k p \<longleftrightarrow>
     (let nonce = set_nonce (m_Settings f) in
      if nonce \<noteq> [] then k = length nonce \<and> list_all is_hex nonce \<and> p = hex_value nonce
      else if wp_exSizeBytes w > 0
      then k = unat (wp_exSizeBytes w) \<and> p < 16 ^ k \<and> wp_startNonce w = word_of_nat (p * 2 ^ (64 - 4 * k))
      else k = 0 \<and> p = 0)"

text \<open>The \<open>2 ^ b\<close> nonces that the miner at position \<open>i\<close> can search.\<close>

definition nonce_segment :: "farm \<Rightarrow> nat \<Rightarrow> nat \<Rightarrow> u64 set" where
  "nonce_segment f b i = {wp_startNonce (miner_work (m_miners f ! i)) + word_of_nat x | x. x < 2 ^ b}"

lemma push_bit_word_of_nat: "push_bit n (word_of_nat p :: u64) = word_of_nat (p * 2 ^ n)"
  by (simp add: push_bit_eq_mult)

lemma nonce_prefix_cases:
  assumes "nonce_prefix f w k p" and "b + 4 * k + ceil_log2 (length (m_miners f)) = 64"
  obtains base where
    "m_miners (farm_setWork u random w f) =
       fst (setWork_miners u (word_of_nat b) (w\<lparr>wp_startNonce := base\<rparr>) (m_miners f))"
    "0 < k \<Longrightarrow> base = word_of_nat (p * 2 ^ (64 - 4 * k))" "p < 16 ^ k"
proof -
  let ?n = "set_nonce (m_Settings f)" and ?c = "ceil_log2 (length (m_miners f))"
  have bits: "(64 - word_of_nat ?c - word_of_nat (4 * k) :: u16) = word_of_nat b"
  proof -
    have "(64 :: u16) = word_of_nat (b + 4 * k + ?c)" by (simp only: assms(2)) simp
    then show ?thesis by (simp add: algebra_simps)
  qed
  consider (user) "?n \<noteq> []" | (pool) "?n = []" "wp_exSizeBytes w > 0" | (none) "?n = []" "wp_exSizeBytes w = 0"
    by (auto simp: word_gt_0)
  then show ?thesis
  proof cases
    case user
    then have k: "k = length ?n" "list_all is_hex ?n" "p = hex_value ?n" "0 < k"
      using assms(1) by (auto simp: nonce_prefix_def Let_def)
    have "unat (64 - word_of_nat (4 * k) :: u64) = 64 - 4 * k"
    proof -
      define q where "q = (word_of_nat (4 * k) :: u64)"
      have "4 * k \<le> 64" using assms(2) by simp
      then have "unat q = 4 * k" unfolding q_def by (simp only: unat_of_nat) simp
      then show ?thesis
        using \<open>4 * k \<le> 64\<close> unfolding q_def [symmetric] by (simp add: unat_sub_if')
    qed
    then show ?thesis
      using user k bits strtoull16_hex(1) [OF k(2) user] assms(2) hex_value_less [OF k(2)]
      by (intro that [of "word_of_nat (p * 2 ^ (64 - 4 * k))"])
        (simp_all add: farm_setWork_def Let_def split_beta shl64_def push_bit_word_of_nat)
  next
    case pool
    then have k: "k = unat (wp_exSizeBytes w)" "p < 16 ^ k" "wp_startNonce w = word_of_nat (p * 2 ^ (64 - 4 * k))"
      using assms(1) by (auto simp: nonce_prefix_def)
    then show ?thesis
    proof (intro that [of "wp_startNonce w"])
      show "m_miners (farm_setWork u random w f) =
          fst (setWork_miners u (word_of_nat b) (w\<lparr>wp_startNonce := wp_startNonce w\<rparr>) (m_miners f))"
        using pool bits k(1) by (simp add: farm_setWork_def Let_def split_beta mult.commute)
    qed
  next
    case none
    then have "k = 0" "p = 0" using assms(1) by (auto simp: nonce_prefix_def)
    then show ?thesis
      using none bits by (intro that [of random]) (simp_all add: farm_setWork_def Let_def split_beta)
  qed
qed

text \<open>The start nonces as numbers from the base on, and the segments that follow from them.\<close>

lemma farm_setWork_nth:
  assumes "nonce_prefix f w k p" and "b + 4 * k + ceil_log2 (length (m_miners f)) = 64"
  obtains base where "0 < k \<Longrightarrow> base = word_of_nat (p * 2 ^ (64 - 4 * k))" "p < 16 ^ k"
    "length (m_miners (farm_setWork u random w f)) = length (m_miners f)"
    "\<And>i. i < length (m_miners f) \<Longrightarrow> m_miners (farm_setWork u random w f) ! i =
       miner_setWork (w\<lparr>wp_startNonce := base + word_of_nat (i * 2 ^ b)\<rparr>) (m_miners f ! i)"
proof -
  obtain base where base:
    "m_miners (farm_setWork u random w f) =
       fst (setWork_miners u (word_of_nat b) (w\<lparr>wp_startNonce := base\<rparr>) (m_miners f))"
    "0 < k \<Longrightarrow> base = word_of_nat (p * 2 ^ (64 - 4 * k))" "p < 16 ^ k"
    using nonce_prefix_cases [OF assms] by metis
  have b: "unat (word_of_nat b :: u16) = b" using assms(2) by (simp only: unat_of_nat) simp
  have "word_of_nat i * shl64 u 1 b = word_of_nat (i * 2 ^ b)" if "i < length (m_miners f)" for i
  proof (cases "b < 64")
    case False
    then have "ceil_log2 (length (m_miners f)) = 0" using assms(2) by simp
    then have "i = 0" using that ceil_log2_ge [of "length (m_miners f)"] by simp
    then show ?thesis by simp
  qed (simp add: shl64_def push_bit_eq_mult)
  then show ?thesis
    using base setWork_miners_nth [of u "word_of_nat b" "w\<lparr>wp_startNonce := base\<rparr>" "m_miners f"] b
    by (intro that [of base]) simp_all
qed

lemma segment_bound:
  fixes i x b c n :: nat
  assumes "i < n" and "n \<le> 2 ^ c" and "x < 2 ^ b"
  shows "i * 2 ^ b + x < 2 ^ (b + c)"
proof -
  have "i * 2 ^ b + x < Suc i * 2 ^ b" using assms(3) by simp
  also have "\<dots> \<le> 2 ^ c * 2 ^ b" using assms(1,2) by (intro mult_right_mono) simp_all
  finally show ?thesis by (simp add: power_add mult.commute)
qed

lemma word_of_nat_inject_64:
  "a < 2 ^ 64 \<Longrightarrow> b < 2 ^ 64 \<Longrightarrow> (word_of_nat a :: u64) = word_of_nat b \<longleftrightarrow> a = b"
  by (simp add: word_of_nat_eq_iff take_bit_nat_eq_self)

lemma segment_inject:
  fixes i j x y b :: nat
  assumes "i * 2 ^ b + x = j * 2 ^ b + y" and "x < 2 ^ b" and "y < 2 ^ b"
  shows "i = j"
proof -
  have "(i * 2 ^ b + x) div 2 ^ b = i" "(j * 2 ^ b + y) div 2 ^ b = j" using assms(2,3) by simp_all
  with assms(1) show ?thesis by metis
qed

lemma drop_bit_word_of_nat:
  assumes "a < 2 ^ 64"
  shows "drop_bit n (word_of_nat a :: u64) = word_of_nat (a div 2 ^ n)"
proof -
  have "a div 2 ^ n < 2 ^ 64" using assms div_le_dividend le_less_trans by blast
  then have "unat (drop_bit n (word_of_nat a :: u64)) = unat (word_of_nat (a div 2 ^ n) :: u64)"
    using assms by (simp add: unat_drop_bit_eq unat_of_nat drop_bit_eq_div [of n a])
  then show ?thesis by (simp add: word_unat_eq_iff)
qed

lemma segment_nonces:
  assumes "nonce_prefix f w k p" and "b + 4 * k + ceil_log2 (length (m_miners f)) = 64"
  shows "\<exists>base. (0 < k \<longrightarrow> base = word_of_nat (p * 2 ^ (64 - 4 * k))) \<and> p < 16 ^ k \<and>
    (\<forall>l. l < length (m_miners f) \<longrightarrow> \<not> paused (m_miners f ! l) \<longrightarrow>
      miner_work (m_miners (farm_setWork u random w f) ! l) = w\<lparr>wp_startNonce := base + word_of_nat (l * 2 ^ b)\<rparr> \<and>
      nonce_segment (farm_setWork u random w f) b l = {base + word_of_nat (l * 2 ^ b + x) | x. x < 2 ^ b})"
proof -
  let ?f = "farm_setWork u random w f" and ?n = "length (m_miners f)"
  obtain base where base: "0 < k \<Longrightarrow> base = word_of_nat (p * 2 ^ (64 - 4 * k))" "p < 16 ^ k"
    and nth: "\<And>i. i < ?n \<Longrightarrow> m_miners ?f ! i =
       miner_setWork (w\<lparr>wp_startNonce := base + word_of_nat (i * 2 ^ b)\<rparr>) (m_miners f ! i)"
    using farm_setWork_nth [OF assms(1,2), of u random] by metis
  have work: "miner_work (m_miners ?f ! l) = w\<lparr>wp_startNonce := base + word_of_nat (l * 2 ^ b)\<rparr>"
    if "l < ?n" "\<not> paused (m_miners f ! l)" for l
    using nth [OF that(1)] that(2) by (simp add: miner_call_defs)
  moreover have "nonce_segment ?f b l = {base + word_of_nat (l * 2 ^ b + x) | x. x < 2 ^ b}"
    if "l < ?n" "\<not> paused (m_miners f ! l)" for l
    using work [OF that] by (auto simp: nonce_segment_def algebra_simps)
  ultimately show ?thesis using base by (intro exI [of _ base]) simp
qed

lemma segment_offset:
  assumes "b + 4 * k + ceil_log2 n = 64" and "l < n" and "x < 2 ^ b"
  shows "l * 2 ^ b + x < 2 ^ (64 - 4 * k)"
proof -
  have "b + ceil_log2 n = 64 - 4 * k" using assms(1) by simp
  then show ?thesis using segment_bound [OF assms(2) ceil_log2_ge assms(3)] by simp
qed

text \<open>The nonces of a segment begin with the prescribed digits.\<close>

lemma segment_prefix:
  assumes "nonce_prefix f w k p" and "b + 4 * k + ceil_log2 (length (m_miners f)) = 64"
    and "i < length (m_miners f)" and "\<not> paused (m_miners f ! i)"
    and "v \<in> nonce_segment (farm_setWork u random w f) b i"
  shows "drop_bit (64 - 4 * k) v = word_of_nat p"
proof -
  obtain base where base: "(0 < k \<longrightarrow> base = word_of_nat (p * 2 ^ (64 - 4 * k))) \<and> p < 16 ^ k \<and>
    (\<forall>l. l < length (m_miners f) \<longrightarrow> \<not> paused (m_miners f ! l) \<longrightarrow>
      miner_work (m_miners (farm_setWork u random w f) ! l) = w\<lparr>wp_startNonce := base + word_of_nat (l * 2 ^ b)\<rparr> \<and>
      nonce_segment (farm_setWork u random w f) b l = {base + word_of_nat (l * 2 ^ b + x) | x. x < 2 ^ b})"
    using segment_nonces [OF assms(1,2)] by blast
  obtain x where v: "v = base + word_of_nat (i * 2 ^ b + x)" and x: "x < 2 ^ b"
    using assms(3-5) base by blast
  show ?thesis
  proof (cases "k = 0")
    case True
    then show ?thesis using base by simp
  next
    case False
    let ?r = "i * 2 ^ b + x" and ?B = "64 - 4 * k"
    have r: "?r < 2 ^ ?B" using segment_offset [OF assms(2,3) x] .
    have "p * 2 ^ ?B + ?r < Suc p * 2 ^ ?B" using r by simp
    also have "\<dots> \<le> 16 ^ k * 2 ^ ?B" using base by (intro mult_right_mono) simp_all
    also have "(16 :: nat) ^ k * 2 ^ ?B = 2 ^ (4 * k + ?B)" by (simp add: power_add power_mult)
    also have "4 * k + ?B = 64" using assms(2) by simp
    finally have "p * 2 ^ ?B + ?r < 2 ^ 64" .
    moreover have "v = word_of_nat (p * 2 ^ ?B + ?r)" using v base False by simp
    moreover have "(p * 2 ^ ?B + ?r) div 2 ^ ?B = p" using r by simp
    ultimately show ?thesis by (simp only: drop_bit_word_of_nat)
  qed
qed

text \<open>C24. When there is room for the digits that are prescribed and for the miners, every miner that is not
  paused gets the new work with its own segment of \<open>2 ^ b\<close> nonces. All nonces of a segment begin with
  the prescribed digits, and the segments of two miners have no nonce in common, whatever the
  random start and whatever the undefined shift yields that a single miner without prescribed
  digits leads to.\<close>

theorem farm_segments:
  assumes "nonce_prefix f w k p" and "b + 4 * k + ceil_log2 (length (m_miners f)) = 64"
    and "i < length (m_miners f)" and "\<not> paused (m_miners f ! i)"
    and "j < length (m_miners f)" and "\<not> paused (m_miners f ! j)"
  shows "(\<exists>start. miner_work (m_miners (farm_setWork u random w f) ! i) = w\<lparr>wp_startNonce := start\<rparr>) \<and>
    (\<forall>v \<in> nonce_segment (farm_setWork u random w f) b i. drop_bit (64 - 4 * k) v = word_of_nat p) \<and>
    (i \<noteq> j \<longrightarrow> nonce_segment (farm_setWork u random w f) b i \<inter> nonce_segment (farm_setWork u random w f) b j = {})"
proof -
  let ?f = "farm_setWork u random w f" and ?n = "length (m_miners f)"
  obtain base where base: "(0 < k \<longrightarrow> base = word_of_nat (p * 2 ^ (64 - 4 * k))) \<and> p < 16 ^ k \<and>
    (\<forall>l. l < length (m_miners f) \<longrightarrow> \<not> paused (m_miners f ! l) \<longrightarrow>
      miner_work (m_miners (farm_setWork u random w f) ! l) = w\<lparr>wp_startNonce := base + word_of_nat (l * 2 ^ b)\<rparr> \<and>
      nonce_segment (farm_setWork u random w f) b l = {base + word_of_nat (l * 2 ^ b + x) | x. x < 2 ^ b})"
    using segment_nonces [OF assms(1,2)] by blast
  note seg = base [THEN conjunct2, THEN conjunct2, rule_format]
  have "nonce_segment ?f b i \<inter> nonce_segment ?f b j = {}" if "i \<noteq> j"
  proof -
    have "(2 :: nat) ^ (64 - 4 * k) \<le> 2 ^ 64" by (rule power_increasing) simp_all
    then have lt: "l * 2 ^ b + x < 2 ^ 64" if "l < ?n" "x < 2 ^ b" for l x
      using segment_offset [OF assms(2) that] by linarith
    have "base + word_of_nat (i * 2 ^ b + x) \<noteq> base + word_of_nat (j * 2 ^ b + y)"
      if "x < 2 ^ b" "y < 2 ^ b" for x y
      using word_of_nat_inject_64 [OF lt [OF assms(3) that(1)] lt [OF assms(5) that(2)]]
        segment_inject [OF _ that] \<open>i \<noteq> j\<close> by (simp only: add_left_cancel) blast
    then show ?thesis
      unfolding seg [OF assms(3,4), THEN conjunct2] seg [OF assms(5,6), THEN conjunct2] by blast
  qed
  then show ?thesis using seg [OF assms(3,4), THEN conjunct1] segment_prefix [OF assms(1-4), of _ u random] by blast
qed

text \<open>Two miners behind the digits \<open>ab\<close> of the user.\<close>

definition farm_example :: farm where
  "farm_example =
     (farm_new None None 0 []
        \<lparr>hwMon = 0, tempStart = 40, tempStop = 0, set_nonce = ''ab'', set_cuBlockSize = 0, set_cuStreams = 0,
         set_clGroupSize = 0, set_clSplit = False\<rparr>)
     \<lparr>m_miners := [miner_new 0 0 device_example 1000, miner_new 0 1 device_example 1000]\<rparr>"

theorem farm_segments_witness:
  "nonce_segment (farm_setWork (\<lambda>n. 0) 5 work_package_default farm_example) 55 1 \<subseteq> {v. drop_bit 56 v = 0xab} \<and>
   nonce_segment (farm_setWork (\<lambda>n. 0) 5 work_package_default farm_example) 55 0 \<inter>
     nonce_segment (farm_setWork (\<lambda>n. 0) 5 work_package_default farm_example) 55 1 = {}"
proof -
  have "nonce_prefix farm_example work_package_default 2 0xab"
    by (simp add: nonce_prefix_def farm_example_def farm_new_def split_beta Let_def is_hex_def
        fromHex_char_def hex_value_def)
  moreover have "length (m_miners farm_example) = 2" "\<not> paused (m_miners farm_example ! 0)"
    "\<not> paused (m_miners farm_example ! 1)"
    by (simp_all add: farm_example_def paused_iff miner_new_def)
  moreover have "ceil_log2 2 = 1" by (simp add: ceil_log2.simps)
  ultimately show ?thesis
    using farm_segments [of farm_example work_package_default 2 "0xab" 55 1 0 "\<lambda>n. 0" 5]
    by (simp add: Int_commute subset_iff)
qed

section \<open>Accounts\<close>

definition solution_count :: "solution_accounting \<Rightarrow> telemetry_account \<Rightarrow> u32" where
  "solution_count k t =
     (case k of Accepted \<Rightarrow> accepted (solutions t) | Rejected \<Rightarrow> rejected (solutions t)
      | Wasted \<Rightarrow> wasted (solutions t) | Failed \<Rightarrow> failed (solutions t))"

definition miners_total :: "solution_accounting \<Rightarrow> farm \<Rightarrow> u32" where
  "miners_total k f = (\<Sum>t \<leftarrow> tel_miners (m_telemetry f). solution_count k t)"

text \<open>A sequence of reports, each with its time, the index of the miner and the kind.\<close>

definition account_all :: "(nat \<times> nat \<times> solution_accounting) list \<Rightarrow> farm \<Rightarrow> farm" where
  "account_all reports = fold (\<lambda>(now, idx, k) f. snd (accountSolution now idx k f)) reports"

lemma solution_count_account:
  "solution_count k (account now k' t) = solution_count k t + (if k' = k then 1 else 0)"
  by (cases k; cases k') (simp_all add: solution_count_def account_def add_solution_def)

lemma length_accountSolution [simp]:
  "length (tel_miners (m_telemetry (snd (accountSolution now idx k f)))) = length (tel_miners (m_telemetry f))"
  by (simp add: accountSolution_def Let_def)

lemma sum_list_update_diff:
  fixes xs :: "'a::ab_group_add list"
  shows "i < length xs \<Longrightarrow> sum_list (xs[i := x]) = sum_list xs + (x - xs ! i)"
  by (induction xs arbitrary: i) (auto simp: nth_Cons' algebra_simps split: nat.split)

lemma accountSolution_counts:
  "solution_count k (tel_farm (m_telemetry (snd (accountSolution now idx k' f)))) =
     solution_count k (tel_farm (m_telemetry f)) + (if k' = k then 1 else 0)"
  "idx < length (tel_miners (m_telemetry f)) \<Longrightarrow>
     miners_total k (snd (accountSolution now idx k' f)) = miners_total k f + (if k' = k then 1 else 0)"
  by (simp_all add: accountSolution_def Let_def solution_count_account miners_total_def map_update sum_list_update_diff)

lemma account_all_counts:
  assumes "\<forall>(now, idx, k') \<in> set reports. idx < length (tel_miners (m_telemetry f))"
  shows "solution_count k (tel_farm (m_telemetry (account_all reports f))) =
      solution_count k (tel_farm (m_telemetry f)) + word_of_nat (length [r \<leftarrow> reports. snd (snd r) = k]) \<and>
    miners_total k (account_all reports f) =
      miners_total k f + word_of_nat (length [r \<leftarrow> reports. snd (snd r) = k])"
  using assms
proof (induction reports arbitrary: f)
  case (Cons r reports)
  obtain now idx k' where r: "r = (now, idx, k')" by (cases r)
  with Cons.prems have "idx < length (tel_miners (m_telemetry f))" by simp
  with Cons.IH [of "snd (accountSolution now idx k' f)"] Cons.prems r show ?case
    by (simp add: account_all_def accountSolution_counts)
qed (simp add: account_all_def)

text \<open>C25. Over any sequence of reports for existing miners, the farm's count of every kind grows by the
  number of reports of that kind, and so does the sum of the miners' counts, both modulo \<open>2 ^ 32\<close>; no
  report fails. A report for a miner that does not exist raises an exception after the farm's own
  count has been increased, so that from then on the farm counts one more than its miners.\<close>

theorem accounts_correct:
  assumes "\<forall>(now, idx, k') \<in> set reports. idx < length (tel_miners (m_telemetry f))"
    and "length (tel_miners (m_telemetry f)) \<le> bad"
  defines "f' \<equiv> account_all reports f"
  shows "solution_count k (tel_farm (m_telemetry f')) - solution_count k (tel_farm (m_telemetry f)) =
      word_of_nat (length [r \<leftarrow> reports. snd (snd r) = k]) \<and>
    miners_total k f' - miners_total k f = word_of_nat (length [r \<leftarrow> reports. snd (snd r) = k]) \<and>
    fst (accountSolution now bad k f) = Some Out_Of_Range \<and>
    solution_count k (tel_farm (m_telemetry (snd (accountSolution now bad k f)))) =
      solution_count k (tel_farm (m_telemetry f)) + 1 \<and>
    miners_total k (snd (accountSolution now bad k f)) = miners_total k f"
  using account_all_counts [OF assms(1), of k] assms(2) accountSolution_counts(1) [of k now bad k f]
  by (simp add: f'_def) (simp add: accountSolution_def Let_def miners_total_def)

definition accounts_example :: farm where
  "accounts_example = farm_example\<lparr>m_telemetry := (m_telemetry farm_example)
     \<lparr>tel_miners := [telemetry_account_new 0, telemetry_account_new 0]\<rparr>\<rparr>"

theorem accounts_correct_witness:
  "miners_total Accepted (account_all [(1, 0, Accepted), (2, 1, Rejected), (3, 1, Accepted)] accounts_example) -
     miners_total Accepted accounts_example = 2 \<and>
   fst (accountSolution 4 2 Accepted accounts_example) = Some Out_Of_Range"
  using accounts_correct [of "[(1, 0, Accepted), (2, 1, Rejected), (3, 1, Accepted)]" accounts_example 2 Accepted 4]
  by (simp add: accounts_example_def)

section \<open>The invariant\<close>

text \<open>
  Every miner carries its position, every miner has an account, and without mining there are no
  miners.
\<close>

definition farm_inv :: "farm \<Rightarrow> bool" where
  "farm_inv f \<longleftrightarrow>
     map m_index (m_miners f) = [0..<length (m_miners f)] \<and>
     length (tel_miners (m_telemetry f)) = length (m_miners f) \<and>
     (m_isMining f \<or> m_miners f = [])"

lemma m_index_calls [simp]:
  "m_index (miner_setWork w m) = m_index m" "m_index (miner_pause_for p m) = m_index m"
  "m_index (miner_resume p m) = m_index m" "m_index (triggerHashRateUpdate b m) = m_index m"
  "m_index (miner_startWorking m) = m_index m" "m_index (temperature_control cfg t m) = m_index m"
  by (simp_all add: miner_call_defs miner_startWorking_def temperature_control_def Let_def)

lemma m_index_check_hung [simp]: "map m_index (snd (check_hung ms)) = map m_index ms"
  by (induction ms) (auto simp: Let_def split_beta)

lemma length_check_hung [simp]: "length (snd (check_hung ms)) = length ms"
  by (induction ms) (auto simp: Let_def split_beta)

lemma read_monitor_miner:
  "m_index (snd (read_monitor handle rd mon m)) = m_index m"
  "m_pauseFlags (snd (read_monitor handle rd mon m)) = m_pauseFlags m"
  by (simp_all add: read_monitor_def Let_def split_beta split: option.split)

lemma read_sensors_miner [simp]:
  "m_index (snd (read_sensors env f m)) = m_index m"
  "m_pauseFlags (snd (read_sensors env f m)) = m_pauseFlags m"
  by (simp_all add: read_sensors_def read_monitor_miner split: hw_monitor_type.split)

text \<open>What a turn of the collection does with a miner and with its account.\<close>

definition collected_miner :: "environment \<Rightarrow> farm \<Rightarrow> nat \<Rightarrow> miner \<Rightarrow> miner" where
  "collected_miner env f i m =
     triggerHashRateUpdate (spurious_failure env i)
       (if hwMon (m_Settings f) \<noteq> 0
        then temperature_control (m_Settings f) (raw_tempC (fst (read_sensors env f m))) (snd (read_sensors env f m))
        else m)"

definition collected_account :: "environment \<Rightarrow> farm \<Rightarrow> miner \<Rightarrow> telemetry_account \<Rightarrow> telemetry_account" where
  "collected_account env f m acc =
     (let acc = acc\<lparr>hashrate := (if paused m then 0 else m_hashRate m), t_paused := paused m\<rparr>;
          r = fst (read_sensors env f m)
      in if hwMon (m_Settings f) \<noteq> 0
         then acc\<lparr>sensors := \<lparr>tempC = raw_tempC r, memtempC = raw_memtempC r, fanP = raw_fanpcnt r,
                           powerW = div_1000 env (raw_powerW r)\<rparr>\<rparr>
         else acc)"

lemma collect_miner_step:
  assumes "i < length (m_miners f)" and "m_index (m_miners f ! i) = i"
    and "length (tel_miners (m_telemetry f)) = length (m_miners f)"
  shows "\<exists>acc. collect_miner env i (None, hr, f) =
    (None, float_add env hr (if paused (m_miners f ! i) then 0 else m_hashRate (m_miners f ! i)),
     f\<lparr>m_miners := (m_miners f)[i := collected_miner env f i (m_miners f ! i)],
       m_telemetry := (m_telemetry f)\<lparr>tel_miners := (tel_miners (m_telemetry f))
           [i := collected_account env f (m_miners f ! i) (tel_miners (m_telemetry f) ! i)],
         tel_farm := acc\<rparr>\<rparr>)"
  using assms
  by (simp add: collect_miner_def Let_def split_beta collected_miner_def collected_account_def) blast

text \<open>The farm after the first \<open>k\<close> turns.\<close>

definition collected :: "environment \<Rightarrow> farm \<Rightarrow> nat \<Rightarrow> telemetry_account \<Rightarrow> farm" where
  "collected env f k acc =
     f\<lparr>m_miners := map (\<lambda>i. if i < k then collected_miner env f i (m_miners f ! i) else m_miners f ! i)
         [0..<length (m_miners f)],
       m_telemetry := (m_telemetry f)
         \<lparr>tel_miners := map (\<lambda>i. if i < k then collected_account env f (m_miners f ! i) (tel_miners (m_telemetry f) ! i)
                            else tel_miners (m_telemetry f) ! i) [0..<length (m_miners f)],
          tel_farm := acc\<rparr>\<rparr>"

lemma read_sensors_cong:
  assumes "nvmlh g = nvmlh f" and "sysfsh g = sysfsh f" and "m_Settings g = m_Settings f"
  shows "read_sensors env g m = read_sensors env f m"
    and "fst (read_sensors env g (m\<lparr>m_hung_miner := b\<rparr>)) = fst (read_sensors env f m)"
  using assms
  by (simp_all add: read_sensors_def read_monitor_def Let_def split_beta split: hw_monitor_type.split option.split)

lemma collected_same:
  "collected_miner env (collected env f k acc) i m = collected_miner env f i m"
  "collected_account env (collected env f k acc) m t = collected_account env f m t"
  using read_sensors_cong(1) [of "collected env f k acc" f env m]
  by (simp_all add: collected_def collected_miner_def collected_account_def)

lemma map_upt_update:
  "k < n \<Longrightarrow> (map (\<lambda>i. if i < k then g i else h i) [0..<n])[k := g k] =
     map (\<lambda>i. if i < Suc k then g i else h i) [0..<n]"
  by (intro nth_equalityI) (auto simp: nth_list_update less_Suc_eq)

lemma collect_fold:
  assumes "map m_index (m_miners f) = [0..<length (m_miners f)]"
    and "length (tel_miners (m_telemetry f)) = length (m_miners f)" and "k \<le> length (m_miners f)"
  shows "\<exists>hr acc. fold (collect_miner env) [0..<k] (None, 0, f) = (None, hr, collected env f k acc)"
  using assms(3)
proof (induction k)
  case 0
  have "map ((!) (tel_miners (m_telemetry f))) [0..<length (m_miners f)] = tel_miners (m_telemetry f)"
    using map_nth assms(2) by metis
  then have "f = collected env f 0 (tel_farm (m_telemetry f))" by (simp add: collected_def map_nth)
  then show ?case by auto
next
  case (Suc k)
  then obtain hr acc where IH: "fold (collect_miner env) [0..<k] (None, 0, f) = (None, hr, collected env f k acc)"
    by auto
  let ?f = "collected env f k acc" and ?n = "length (m_miners f)"
  have k: "k < ?n" using Suc.prems by simp
  have "m_index (m_miners f ! k) = k" using arg_cong [OF assms(1), of "\<lambda>l. l ! k"] k by simp
  then have at: "m_miners ?f ! k = m_miners f ! k" "m_index (m_miners ?f ! k) = k"
    "tel_miners (m_telemetry ?f) ! k = tel_miners (m_telemetry f) ! k" "length (m_miners ?f) = ?n"
    "length (tel_miners (m_telemetry ?f)) = ?n"
    using k by (simp_all add: collected_def)
  obtain acc' where "collect_miner env k (None, hr, ?f) =
    (None, float_add env hr (if paused (m_miners ?f ! k) then 0 else m_hashRate (m_miners ?f ! k)),
     ?f\<lparr>m_miners := (m_miners ?f)[k := collected_miner env f k (m_miners f ! k)],
       m_telemetry := (m_telemetry ?f)\<lparr>tel_miners := (tel_miners (m_telemetry ?f))
           [k := collected_account env f (m_miners f ! k) (tel_miners (m_telemetry f) ! k)],
         tel_farm := acc'\<rparr>\<rparr>)"
    using collect_miner_step [of k ?f env hr] at k by (auto simp: collected_same)
  moreover have "?f\<lparr>m_miners := (m_miners ?f)[k := collected_miner env f k (m_miners f ! k)],
       m_telemetry := (m_telemetry ?f)\<lparr>tel_miners := (tel_miners (m_telemetry ?f))
           [k := collected_account env f (m_miners f ! k) (tel_miners (m_telemetry f) ! k)],
         tel_farm := acc'\<rparr>\<rparr> = collected env f (Suc k) acc'"
    using map_upt_update [OF k, of "\<lambda>i. collected_miner env f i (m_miners f ! i)" "\<lambda>i. m_miners f ! i"]
      map_upt_update [OF k, of "\<lambda>i. collected_account env f (m_miners f ! i) (tel_miners (m_telemetry f) ! i)"
        "\<lambda>i. tel_miners (m_telemetry f) ! i"]
    by (simp add: collected_def)
  ultimately show ?case using IH by auto
qed

lemma m_hung_miner_collected:
  "m_hung_miner (collected_miner env f i m) = m_hung_miner m"
proof -
  have "m_hung_miner (snd (read_sensors env f m)) = m_hung_miner m"
    by (simp add: read_sensors_def read_monitor_def Let_def split_beta split: hw_monitor_type.split option.split)
  then show ?thesis
    by (simp add: collected_miner_def temperature_control_def Let_def miner_call_defs)
qed

lemma check_hung_spec:
  "fst (check_hung ms) \<longleftrightarrow> (\<exists>m \<in> set ms. \<not> paused m \<and> m_initialized m \<and> m_hung_miner m)"
  "\<not> fst (check_hung ms) \<Longrightarrow>
     snd (check_hung ms) = map (\<lambda>m. if \<not> paused m \<and> m_initialized m then m\<lparr>m_hung_miner := True\<rparr> else m) ms"
  by (induction ms) (auto simp: Let_def split_beta)

lemma overheating_flag:
  "m_pauseFlags (collected_miner env f i m) p =
     (if hwMon (m_Settings f) \<noteq> 0 \<and> tempStop (m_Settings f) \<noteq> 0 \<and> p = PauseDueToOverHeating
      then if m_pauseFlags m p then \<not> raw_tempC (fst (read_sensors env f m)) \<le> tempStart (m_Settings f)
           else tempStop (m_Settings f) \<le> raw_tempC (fst (read_sensors env f m))
      else m_pauseFlags m p)"
  by (auto simp: collected_miner_def triggerHashRateUpdate_def temperature_control_def Let_def pauseTest_def
      pauseFlags_calls)

text \<open>C26. For a farm that satisfies its invariant, a run of the data collection never fails with an index
  out of range. It arms its timer again exactly if the timer was not cancelled and no running miner
  has been marked by the run before and not answered since; a hung miner thus ends the collection for
  good. Otherwise every running, initialised miner is marked, its hash rate and its sensors are
  recorded, and the temperature control with its two thresholds is the only thing that changes a
  reason for a pause.\<close>

theorem collectData_correct:
  assumes "farm_inv f" and "collectData env ec f = (e, f')"
  defines "hung \<equiv> \<exists>m \<in> set (m_miners f). \<not> paused m \<and> m_initialized m \<and> m_hung_miner m"
  shows "e \<noteq> Some Out_Of_Range \<and> (m_collectTimer f' \<longleftrightarrow> \<not> ec \<and> \<not> hung) \<and>
    (\<not> ec \<and> \<not> hung \<longrightarrow> e = None \<and> length (m_miners f') = length (m_miners f) \<and>
      (\<forall>i < length (m_miners f). \<forall>m m' t'. m = m_miners f ! i \<and> m' = m_miners f' ! i \<and>
          t' = tel_miners (m_telemetry f') ! i \<longrightarrow>
        (\<not> paused m \<and> m_initialized m \<longrightarrow> m_hung_miner m') \<and>
        hashrate t' = (if paused m then 0 else m_hashRate m) \<and> t_paused t' = paused m \<and>
        (hwMon (m_Settings f) \<noteq> 0 \<longrightarrow> tempC (sensors t') = raw_tempC (fst (read_sensors env f m))) \<and>
        (\<forall>p. pauseTest p m' \<longleftrightarrow>
          (if hwMon (m_Settings f) \<noteq> 0 \<and> tempStop (m_Settings f) \<noteq> 0 \<and> p = PauseDueToOverHeating
           then if pauseTest p m then \<not> raw_tempC (fst (read_sensors env f m)) \<le> tempStart (m_Settings f)
                else tempStop (m_Settings f) \<le> raw_tempC (fst (read_sensors env f m))
           else pauseTest p m))))"
proof -
  let ?f = "f\<lparr>m_collectTimer := False\<rparr>" and ?n = "length (m_miners f)"
  have hung: "fst (check_hung (m_miners f)) = hung" by (simp add: check_hung_spec(1) hung_def)
  show ?thesis
  proof (cases "ec \<or> hung")
    case True
    then show ?thesis using assms(2) hung by (auto simp: collectData_def Let_def split: prod.splits if_splits)
  next
    case False
    then obtain ms where c: "check_hung (m_miners f) = (False, ms)"
      using hung by (cases "check_hung (m_miners f)") auto
    let ?g = "?f\<lparr>m_miners := ms\<rparr>"
    have ms: "ms = map (\<lambda>m. if \<not> paused m \<and> m_initialized m then m\<lparr>m_hung_miner := True\<rparr> else m) (m_miners f)"
      "map m_index ms = map m_index (m_miners f)" "length ms = ?n"
      using check_hung_spec(2) [of "m_miners f"] m_index_check_hung [of "m_miners f"]
        length_check_hung [of "m_miners f"] c by simp_all
    obtain hr acc where "fold (collect_miner env) [0..<?n] (None, 0, ?g) = (None, hr, collected env ?g ?n acc)"
      using collect_fold [of ?g ?n env] assms(1) ms(2,3) by (auto simp: farm_inv_def)
    then have r: "e = None" "f' = (collected env ?g ?n acc)\<lparr>m_collectTimer := True\<rparr>"
      using assms(2) False c ms(3) by (simp_all add: collectData_def)
    show ?thesis
    proof (intro conjI impI allI; (elim conjE)?)
      fix i m m' t'
      assume i: "i < ?n" and m: "m = m_miners f ! i" "m' = m_miners f' ! i" "t' = tel_miners (m_telemetry f') ! i"
      define b where "b = (m_hung_miner m \<or> \<not> paused m \<and> m_initialized m)"
      have at: "ms ! i = m\<lparr>m_hung_miner := b\<rparr>" using ms(1) i m(1) by (simp add: b_def)
      have m': "m' = collected_miner env ?g i (m\<lparr>m_hung_miner := b\<rparr>)"
        using i m(2) r(2) at ms(3) by (simp add: collected_def)
      have t': "t' = collected_account env ?g (m\<lparr>m_hung_miner := b\<rparr>) (tel_miners (m_telemetry f) ! i)"
        using i m(3) r(2) at ms(3) by (simp add: collected_def)
      have rs: "fst (read_sensors env ?g (m\<lparr>m_hung_miner := b\<rparr>)) = fst (read_sensors env f m)"
        by (rule read_sensors_cong(2)) simp_all
      have pa: "paused (m\<lparr>m_hung_miner := b\<rparr>) = paused m" by (simp add: paused_def)
      show "m_hung_miner m'" if "\<not> paused m" "m_initialized m"
        using that m' by (simp add: m_hung_miner_collected b_def)
      show "hashrate t' = (if paused m then 0 else m_hashRate m)" "t_paused t' = paused m"
        using t' pa by (simp_all add: collected_account_def Let_def)
      show "tempC (sensors t') = raw_tempC (fst (read_sensors env f m))" if "hwMon (m_Settings f) \<noteq> 0"
        using that t' rs by (simp add: collected_account_def Let_def)
      show "pauseTest p m' \<longleftrightarrow>
          (if hwMon (m_Settings f) \<noteq> 0 \<and> tempStop (m_Settings f) \<noteq> 0 \<and> p = PauseDueToOverHeating
           then if pauseTest p m then \<not> raw_tempC (fst (read_sensors env f m)) \<le> tempStart (m_Settings f)
                else tempStop (m_Settings f) \<le> raw_tempC (fst (read_sensors env f m))
           else pauseTest p m)" for p
        using m' rs overheating_flag [of env ?g i "m\<lparr>m_hung_miner := b\<rparr>" p] by (simp add: pauseTest_def)
    qed (use False r ms(3) in \<open>simp_all add: collected_def\<close>)
  qed
qed

text \<open>An initialised miner at 90 degrees, with a limit of 85.\<close>

definition hot_miner :: miner where
  "hot_miner = (miner_new 0 0 device_example 1000)
     \<lparr>m_initialized := True, m_hwmoninfo := \<lparr>deviceType = NVIDIA, devicePciId = [], deviceIndex = 0\<rparr>\<rparr>"

definition hot_farm :: farm where
  "hot_farm =
     (farm_new None None 0 []
        \<lparr>hwMon = 1, tempStart = 60, tempStop = 85, set_nonce = [], set_cuBlockSize = 0, set_cuStreams = 0,
         set_clGroupSize = 0, set_clSplit = False\<rparr>)
     \<lparr>m_miners := [hot_miner], m_isMining := True, nvmlh := Some Map.empty,
      m_telemetry := \<lparr>tel_hwmon = True, tel_farm = telemetry_account_new 0,
        tel_miners = [telemetry_account_new 0]\<rparr>\<rparr>"

definition hot_environment :: environment where
  "hot_environment =
     \<lparr>read_nvml = (\<lambda>d. \<lparr>raw_tempC = 90, raw_memtempC = 80, raw_fanpcnt = 70, raw_powerW = 100\<rparr>),
      read_sysfs = (\<lambda>d. no_sensors), float_add = (\<lambda>a b. a), div_1000 = (\<lambda>p. 0),
      spurious_failure = (\<lambda>i. False), exitOnError = False\<rparr>"

theorem collectData_correct_witness:
  "\<exists>f'. collectData hot_environment False hot_farm = (None, f') \<and> m_collectTimer f' \<and>
     m_hung_miner (m_miners f' ! 0) \<and> pauseTest PauseDueToOverHeating (m_miners f' ! 0)"
proof -
  obtain e f' where c: "collectData hot_environment False hot_farm = (e, f')" by fastforce
  have inv: "farm_inv hot_farm"
    by (simp add: farm_inv_def hot_farm_def hot_miner_def miner_new_def)
  have ms: "m_miners hot_farm = [hot_miner]" "hwMon (m_Settings hot_farm) = 1" "tempStop (m_Settings hot_farm) = 85"
    by (simp_all add: hot_farm_def farm_new_def split_beta)
  have m: "\<not> paused hot_miner" "m_initialized hot_miner" "\<not> m_hung_miner hot_miner"
    "\<not> pauseTest PauseDueToOverHeating hot_miner"
    by (simp_all add: hot_miner_def miner_new_def paused_iff pauseTest_def)
  have "raw_tempC (fst (read_sensors hot_environment hot_farm hot_miner)) = 90"
    by (simp add: read_sensors_def read_monitor_def monitor_index_def hot_miner_def hot_farm_def
        hot_environment_def Let_def split_beta)
  with collectData_correct [OF inv c] ms m c show ?thesis by simp
qed

section \<open>Lifecycle\<close>

inductive farm_step :: "farm \<Rightarrow> farm \<Rightarrow> bool" where
  set_work: "farm_step f (farm_setWork undef random w f)"
| start: "farm_step f (farm_start eth_cuda eth_cl now f)"
| stop: "farm_step f (farm_stop f)"
| pause: "farm_step f (farm_pause f)"
| resume: "farm_step f (farm_resume f)"
| limits: "farm_step f (setTStartTStop tstart tstop f)"
| account: "farm_step f (snd (accountSolution now idx k f))"
| collect: "farm_step f (snd (collectData env ec f))"

lemma startWorking_new:
  "worker_part (miner_startWorking (miner_new now n d b)) = started_example"
  by (simp add: miner_startWorking_def miner_new_def startWorking_def worker_init_def started_example_def
      thread_step_def compare_exchange_def numeral_eq_Suc)

text \<open>While the devices are gone through, mining has not begun.\<close>

definition starting_inv :: "farm \<Rightarrow> bool" where
  "starting_inv f \<longleftrightarrow>
     map m_index (m_miners f) = [0..<length (m_miners f)] \<and>
     length (tel_miners (m_telemetry f)) = length (m_miners f) \<and>
     (\<forall>m \<in> set (m_miners f). worker_part m = started_example \<and> \<not> paused m)"

lemma starting_inv_device: "starting_inv f \<Longrightarrow> starting_inv (start_device cu cl now d f)"
proof -
  have "\<not> paused (miner_startWorking (miner_new now n d b))" for n d b
    by (simp add: paused_iff miner_startWorking_def miner_new_def)
  moreover have "m_index (miner_new now n d b) = n" for n d b by (simp add: miner_new_def)
  ultimately show "starting_inv f \<Longrightarrow> starting_inv (start_device cu cl now d f)"
    by (auto simp: starting_inv_def start_device_def Let_def split_beta startWorking_new)
qed

lemma starting_inv_devices: "starting_inv f \<Longrightarrow> starting_inv (fold (start_device cu cl now) ds f)"
  by (induction ds arbitrary: f) (simp_all add: starting_inv_device)

lemma m_isMining_device: "m_isMining (fold (start_device cu cl now) ds f) = m_isMining f"
  by (induction ds arbitrary: f) (simp_all add: start_device_def Let_def split_beta)

lemma farm_start_started:
  assumes "farm_inv f" and "\<not> m_isMining f"
  shows "starting_inv (farm_start cu cl now f)"
proof -
  have "starting_inv (f\<lparr>m_DevicesCollection := []\<rparr>)"
    using assms by (simp add: starting_inv_def farm_inv_def)
  from starting_inv_devices [OF this] assms show ?thesis
    by (simp add: farm_start_def farm_inv_def starting_inv_def)
qed

lemma farm_inv_collect: "farm_inv f \<Longrightarrow> farm_inv (snd (collectData env ec f))"
proof -
  assume inv: "farm_inv f"
  obtain b ms where c: "check_hung (m_miners f) = (b, ms)" by fastforce
  let ?g = "f\<lparr>m_collectTimer := False, m_miners := ms\<rparr>"
  have ms: "map m_index ms = map m_index (m_miners f)" "length ms = length (m_miners f)"
    using m_index_check_hung [of "m_miners f"] length_check_hung [of "m_miners f"] c by simp_all
  then have g: "farm_inv ?g" using inv by (auto simp: farm_inv_def)
  then obtain hr acc where fold: "fold (collect_miner env) [0..<length ms] (None, 0, ?g) =
      (None, hr, collected env ?g (length ms) acc)"
    using collect_fold [of ?g "length ms" env] by (auto simp: farm_inv_def)
  have "m_index (collected_miner env ?g i m) = m_index m" for i m by (simp add: collected_miner_def)
  then have "map m_index (m_miners (collected env ?g (length ms) acc)) = map m_index ms"
    by (auto simp: collected_def intro!: nth_equalityI)
  then have "farm_inv ((collected env ?g (length ms) acc)\<lparr>m_collectTimer := True\<rparr>)"
    using g by (auto simp: farm_inv_def collected_def)
  then show ?thesis using inv g c fold by (auto simp: collectData_def Let_def farm_inv_def split: bool.split)
qed

lemma farm_inv_setWork: "farm_inv f \<Longrightarrow> farm_inv (farm_setWork u random w f)"
proof -
  have idx: "map m_index (fst (setWork_miners u b wp ms)) = map m_index ms" for b wp ms
    by (induction ms arbitrary: wp) (simp_all add: Let_def split_beta)
  then have "length (fst (setWork_miners u b wp ms)) = length ms" for b wp ms
    using setWork_miners_nth by blast
  with idx show "farm_inv f \<Longrightarrow> farm_inv (farm_setWork u random w f)"
    by (auto simp: farm_inv_def farm_setWork_def Let_def split_beta)
qed

lemma farm_inv_start: "farm_inv f \<Longrightarrow> farm_inv (farm_start cu cl now f)"
  using farm_start_started [of f cu cl now]
  by (cases "m_isMining f") (auto simp: farm_inv_def starting_inv_def farm_start_def)

lemma farm_inv_step: "farm_step f f' \<Longrightarrow> farm_inv f \<Longrightarrow> farm_inv f'"
proof (induction rule: farm_step.induct)
  case (account f now idx k)
  then show ?case by (auto simp: farm_inv_def accountSolution_def Let_def)
qed (simp_all add: farm_inv_setWork farm_inv_start farm_inv_collect,
    auto simp: farm_inv_def farm_stop_def farm_pause_def farm_resume_def setTStartTStop_def o_def)

lemma farm_inv_new: "farm_inv (farm_new sysfs nvml now devices settings)"
  by (simp add: farm_new_def farm_inv_def Let_def split_beta)

lemma farm_reachable_inv: "farm_step\<^sup>*\<^sup>* (farm_new sysfs nvml now devices settings) f \<Longrightarrow> farm_inv f"
  by (induction rule: rtranclp_induct) (auto simp: farm_inv_new dest: farm_inv_step)



section \<open>Submission of solutions\<close>

text \<open>C27. A solution that a device reports goes to the pool exactly if the hash of the Ethash specification
  for its epoch, header and nonce does not exceed the boundary; it then carries the mix hash of the
  specification, and the verification of any host with a context of that epoch accepts it. Otherwise
  nothing is submitted and the solution is accounted as failed. No result is defined only if the
  context of the epoch could not be allocated.\<close>

theorem submitProofAsync_correct:
  assumes "(light_step h)\<^sup>*\<^sup>* managed_init st" and "valid_epoch (wp_epoch (s_work s))"
    and "length (wp_header (s_work s)) = 32" and "length (wp_boundary (s_work s)) = 32"
    and "epoch_hashimoto (wp_epoch (s_work s)) (wp_header (s_work s)) (s_nonce s) = (final, mix)"
  shows "case submitProofAsync h calloc_ok t now s st f of
      None \<Rightarrow> ethash_create_epoch_context h calloc_ok (wp_epoch (s_work s)) = None
    | Some (submitted, e, st', f') \<Rightarrow>
        if be_nat final \<le> be_nat (wp_boundary (s_work s))
        then submitted = Some (s\<lparr>s_mixHash := mix\<rparr>) \<and> f' = f \<and> e = None \<and>
          (\<forall>h' (c :: epoch_context_full). context_of_epoch c \<and> epoch_number c = wp_epoch (s_work s) \<longrightarrow>
             ethash_verify h' c (wp_header (s_work s)) mix (s_nonce s) (wp_boundary (s_work s)))
        else submitted = None \<and> (e, f') = accountSolution now (s_midx s) Failed f"
proof -
  let ?w = "s_work s"
  let ?r = "ethash_aux_eval h calloc_ok t st (wp_epoch ?w) (wp_header ?w) (s_nonce s)"
  note eval = ethash_aux_eval_spec [OF light_reachable_inv [OF assms(1)] assms(2,3),
      where h = h and calloc_ok = calloc_ok and t = t and nonce = "s_nonce s"]
  have verify: "ethash_verify h' c (wp_header ?w) mix (s_nonce s) (wp_boundary ?w)"
    if "be_nat final \<le> be_nat (wp_boundary ?w)" "context_of_epoch c \<and> epoch_number c = wp_epoch ?w"
    for h' and c :: epoch_context_full
  proof -
    have "(final_hash (ethash_hash h' c (wp_header ?w) (s_nonce s)), mix_hash (ethash_hash h' c (wp_header ?w) (s_nonce s))) =
        (final, mix)"
      using context_of_epoch_hash [OF _ _ assms(3), of c] that(2) assms(5) by simp
    then have eq: "final_hash (ethash_hash h' c (wp_header ?w) (s_nonce s)) = final"
      "mix_hash (ethash_hash h' c (wp_header ?w) (s_nonce s)) = mix" by simp_all
    then have "length final = 32" "length mix = 32" using length_ethash_hash by metis+
    with eq that(1) assms(4) show ?thesis
      by (simp add: ethash_verify_def ethash_hash_def Let_def is_equal_def is_less_or_equal_iff)
  qed
  show ?thesis
  proof (cases ?r)
    case None
    then show ?thesis using eval by (simp add: submitProofAsync_def)
  next
    case (Some rs)
    obtain r st' where rs: "rs = (r, st')" by fastforce
    then have r: "er_value r = final" "er_mixHash r = mix" using eval assms(5) Some by simp_all
    have "length (er_value r) = 32"
      using Some rs by (auto simp: ethash_aux_eval_def Let_def split: prod.splits option.splits)
    then have le: "fixed_hash_less_eq final (wp_boundary ?w) \<longleftrightarrow> be_nat final \<le> be_nat (wp_boundary ?w)"
      using r assms(4) fixed_hash_less_iff [of final "wp_boundary ?w"] be_nat_inject [of final "wp_boundary ?w"]
      by (auto simp: fixed_hash_less_eq_def)
    show ?thesis
    proof (cases "be_nat final \<le> be_nat (wp_boundary ?w)")
      case True
      then show ?thesis using Some rs r le verify by (simp add: submitProofAsync_def)
    next
      case False
      then show ?thesis
        using Some rs r le by (cases "accountSolution now (s_midx s) Failed f") (simp add: submitProofAsync_def)
    qed
  qed
qed

theorem submitProofAsync_correct_witness:
  "\<exists>h calloc_ok s f e. ethash_create_epoch_context h calloc_ok (wp_epoch (s_work s)) \<noteq> None \<and>
     (\<exists>st'. submitProofAsync h calloc_ok 0 1 s managed_init f =
        Some (Some (s\<lparr>s_mixHash := snd (epoch_hashimoto 3 (wp_header (s_work s)) (s_nonce s))\<rparr>), e, st', f))"
proof -
  let ?h = "\<lparr>host_order = Little_Endian, host_bmi = False, host_bmi2 = False\<rparr>" and ?ok = "\<lambda>sz. True"
  let ?w = "work_package_default\<lparr>wp_epoch := 3, wp_boundary := replicate 32 255\<rparr>"
  let ?s = "\<lparr>s_nonce = 7, s_mixHash = fixed_hash_empty 32, s_work = ?w, s_tstamp = 0, s_midx = 0\<rparr>"
  obtain final mix where fm: "epoch_hashimoto 3 (wp_header ?w) 7 = (final, mix)" by fastforce
  have create: "ethash_create_epoch_context ?h ?ok 3 \<noteq> None"
    by (simp add: ethash_create_epoch_context_def generic_create_epoch_context_def Let_def)
  then obtain c where "ethash_create_epoch_context ?h ?ok 3 = Some c" by auto
  then have "context_of_epoch c" "epoch_number c = 3"
    using light_contexts.create_good [of 3 ?h ?ok c] by (simp_all add: valid_epoch_def size_epoch_def)
  then have "(final_hash (ethash_hash ?h c (wp_header ?w) 7), mix_hash (ethash_hash ?h c (wp_header ?w) 7)) = (final, mix)"
    using context_of_epoch_hash [of c 3 "wp_header ?w" ?h 7] fm
    by (simp add: work_package_default_def fixed_hash_empty_def)
  then have "length final = 32" using length_ethash_hash(1) by (metis prod.inject)
  then have le: "be_nat final \<le> be_nat (replicate 32 255)"
    using be_nat_less [of final] be_nat_max [of 32] by simp
  have "valid_epoch (wp_epoch (s_work ?s))" by (simp add: valid_epoch_def size_epoch_def)
  note submit = submitProofAsync_correct [OF rtranclp.rtrancl_refl this, where h = ?h and calloc_ok = ?ok and
      t = 0 and now = 1 and f = farm_example and final = final and mix = mix]
  obtain sub e st' f' where r: "submitProofAsync ?h ?ok 0 1 ?s managed_init farm_example = Some (sub, e, st', f')"
    using submit create fm by (cases "submitProofAsync ?h ?ok 0 1 ?s managed_init farm_example")
      (auto simp: work_package_default_def fixed_hash_empty_def)
  then have "sub = Some (?s\<lparr>s_mixHash := mix\<rparr>)" "f' = farm_example"
    using submit le fm by (simp_all add: work_package_default_def fixed_hash_empty_def)
  with r create fm show ?thesis by (intro exI [of _ ?h] exI [of _ ?ok] exI [of _ ?s] exI [of _ farm_example] exI [of _ e]) simp
qed

end
