(* ===== verification/Pool_URI.thy ===== *)
theory Pool_URI
  imports C_Strings
begin

text \<open>
  The parser of pool addresses, \<^verbatim>\<open>libpool/PoolURI.h\<close> and \<^verbatim>\<open>libpool/PoolURI.cpp\<close>. Each regular expression of
  the source is written out as the match that the greedy semantics of ECMAScript selects: a group
  followed by a delimiter extends to the last delimiter that still lets the rest match. The lemmas
  show that an address written from its parts is parsed back into these parts.
\<close>

section \<open>Text utilities of the standard library and boost\<close>

definition lower_char :: "char \<Rightarrow> char" where
  "lower_char c =
     (let i = (of_char c :: nat) in if 65 \<le> i \<and> i \<le> 90 then char_of (i + 32) else c)"

definition to_lower :: "string \<Rightarrow> string" where
  "to_lower s = map lower_char s"

definition is_digit :: "char \<Rightarrow> bool" where
  "is_digit c \<longleftrightarrow> (let i = (of_char c :: nat) in 48 \<le> i \<and> i \<le> 57)"

definition is_alnum :: "char \<Rightarrow> bool" where
  "is_alnum c \<longleftrightarrow>
     (let i = (of_char c :: nat) in 48 \<le> i \<and> i \<le> 57 \<or> 65 \<le> i \<and> i \<le> 90 \<or> 97 \<le> i \<and> i \<le> 122)"

text \<open>The characters that the dot of a regular expression does not match.\<close>

definition is_line_end :: "char \<Rightarrow> bool" where
  "is_line_end c \<longleftrightarrow> (of_char c :: nat) = 10 \<or> (of_char c :: nat) = 13"

text \<open>The text before the first, and before the last, occurrence of a character, and the text after it.\<close>

fun split_first :: "char \<Rightarrow> string \<Rightarrow> (string \<times> string) option" where
  "split_first d [] = None"
| "split_first d (c # s) =
     (if c = d then Some ([], s) else map_option (\<lambda>(a, b). (c # a, b)) (split_first d s))"

definition split_last :: "char \<Rightarrow> string \<Rightarrow> (string \<times> string) option" where
  "split_last d s = map_option (\<lambda>(a, b). (rev b, rev a)) (split_first d (rev s))"

text \<open>\<open>boost::replace_all\<close>; an empty pattern changes nothing.\<close>

function replace_all :: "string \<Rightarrow> string \<Rightarrow> string \<Rightarrow> string" where
  "replace_all p r s =
     (if p = [] \<or> s = [] then s
      else if take (length p) s = p then r @ replace_all p r (drop (length p) s)
      else hd s # replace_all p r (tl s))"
  by pat_completeness auto
termination
  by (relation "measure (\<lambda>(p, r, s). length s)") auto

declare replace_all.simps [simp del]

definition decimal_value :: "string \<Rightarrow> nat" where
  "decimal_value ds = foldl (\<lambda>v c. v * 10 + (of_char c - 48)) 0 ds"

section \<open>The C++ types\<close>

datatype secure_level = SecNone | TLS

datatype protocol_family = GETWORK | STRATUM | SIMULATION

datatype host_name_type = HostUnknown | HostBasic | HostDns | HostIPV4 | HostIPV6

record scheme_attributes =
  sa_family :: protocol_family
  sa_secure :: secure_level
  sa_version :: nat

text \<open>The table of the schemes, in the order of its keys.\<close>

definition s_schemes :: "(string \<times> scheme_attributes) list" where
  "s_schemes =
     [(''getwork'', \<lparr>sa_family = GETWORK, sa_secure = SecNone, sa_version = 0\<rparr>),
      (''http'', \<lparr>sa_family = GETWORK, sa_secure = SecNone, sa_version = 0\<rparr>),
      (''simulation'', \<lparr>sa_family = SIMULATION, sa_secure = SecNone, sa_version = 999\<rparr>),
      (''stratum'', \<lparr>sa_family = STRATUM, sa_secure = SecNone, sa_version = 999\<rparr>),
      (''stratum+ssl'', \<lparr>sa_family = STRATUM, sa_secure = TLS, sa_version = 0\<rparr>),
      (''stratum+tcp'', \<lparr>sa_family = STRATUM, sa_secure = SecNone, sa_version = 0\<rparr>),
      (''stratum1+ssl'', \<lparr>sa_family = STRATUM, sa_secure = TLS, sa_version = 1\<rparr>),
      (''stratum1+tcp'', \<lparr>sa_family = STRATUM, sa_secure = SecNone, sa_version = 1\<rparr>),
      (''stratum2+ssl'', \<lparr>sa_family = STRATUM, sa_secure = TLS, sa_version = 2\<rparr>),
      (''stratum2+tcp'', \<lparr>sa_family = STRATUM, sa_secure = SecNone, sa_version = 2\<rparr>),
      (''stratum3+ssl'', \<lparr>sa_family = STRATUM, sa_secure = TLS, sa_version = 3\<rparr>),
      (''stratum3+tcp'', \<lparr>sa_family = STRATUM, sa_secure = SecNone, sa_version = 3\<rparr>),
      (''stratums'', \<lparr>sa_family = STRATUM, sa_secure = TLS, sa_version = 999\<rparr>)]"

text \<open>
  \<open>u_isLoopBack\<close> and \<open>u_totalDuration\<close> have no initial value in the source; None stands for it.
\<close>

record uri =
  u_scheme :: string
  u_authority :: string
  u_userinfo :: string
  u_urlinfo :: string
  u_hostinfo :: string
  u_pathinfo :: string
  u_host :: string
  u_path :: string
  u_query :: string
  u_fragment :: string
  u_user :: string
  u_password :: string
  u_worker :: string
  u_uri :: string
  u_stratumMode :: u16
  u_port :: u16
  u_stratumModeConfirmed :: bool
  u_unrecoverable :: bool
  u_responds :: bool
  u_hostType :: host_name_type
  u_isLoopBack :: "bool option"
  u_totalDuration :: "u64 option"

definition uri_blank :: "string \<Rightarrow> uri" where
  "uri_blank s =
     \<lparr>u_scheme = [], u_authority = [], u_userinfo = [], u_urlinfo = [], u_hostinfo = [], u_pathinfo = [],
      u_host = [], u_path = [], u_query = [], u_fragment = [], u_user = [], u_password = ''X'', u_worker = [],
      u_uri = s, u_stratumMode = 999, u_port = 0, u_stratumModeConfirmed = False, u_unrecoverable = False,
      u_responds = False, u_hostType = HostUnknown, u_isLoopBack = None, u_totalDuration = None\<rparr>"

section \<open>The C++ routines\<close>

text \<open>
  The two characters after a percent sign, read by a stream in hexadecimal: white space is skipped,
  a sign is accepted, and reading stops at the first other character.
\<close>

definition stream_hex :: "string \<Rightarrow> int option" where
  "stream_hex s =
     (case parse_sign (dropWhile c_isspace s) of
        (neg, r) \<Rightarrow>
          let ds = takeWhile is_hex r
          in if ds = [] \<or> r = ''0x'' \<or> r = ''0X'' then None
             else Some (if neg then - int (hex_value ds) else int (hex_value ds)))"

fun url_decode :: "string \<Rightarrow> string option" where
  "url_decode [] = Some []"
| "url_decode (c # s) =
     (if c = CHR ''%'' then
        case s of
          a # b # r \<Rightarrow>
            (case stream_hex [a, b] of
               Some v \<Rightarrow> map_option (\<lambda>t. char_of (nat (v mod 256)) # t) (url_decode r)
             | None \<Rightarrow> None)
        | _ \<Rightarrow> None
      else if c = CHR ''+'' then map_option (\<lambda>t. CHR '' '' # t) (url_decode s)
      else map_option (\<lambda>t. c # t) (url_decode s))"

text \<open>The text between successive pairs of backticks.\<close>

lemma split_first_length: "split_first d s = Some (a, r) \<Longrightarrow> length s = length a + length r + 1"
  by (induction s arbitrary: a) (auto split: if_splits)

function btick_matches :: "string \<Rightarrow> string list" where
  "btick_matches s =
     (case split_first (CHR 0x60) s of
        None \<Rightarrow> []
      | Some (a, r) \<Rightarrow>
          (case split_first (CHR 0x60) r of
             None \<Rightarrow> []
           | Some (b, r') \<Rightarrow> b # btick_matches r'))"
  by pat_completeness auto
termination
  by (relation "measure length") (auto dest!: split_first_length)

declare btick_matches.simps [simp del]

text \<open>A dictionary with text keys, in the order of its keys.\<close>

fun string_less :: "string \<Rightarrow> string \<Rightarrow> bool" where
  "string_less [] (y # ys) = True"
| "string_less (x # xs) (y # ys) \<longleftrightarrow> (of_char x :: nat) < of_char y \<or> x = y \<and> string_less xs ys"
| "string_less _ [] = False"

fun map_insert :: "string \<Rightarrow> 'a \<Rightarrow> (string \<times> 'a) list \<Rightarrow> (string \<times> 'a) list" where
  "map_insert k v [] = [(k, v)]"
| "map_insert k v ((k', v') # m) =
     (if string_less k k' then (k, v) # (k', v') # m
      else if k = k' then (k, v) # m else (k', v') # map_insert k v m)"

definition btick_blocks :: "string \<Rightarrow> (string \<times> string) list" where
  "btick_blocks s = fold (\<lambda>(i, b). map_insert (''_'' @ decimal i) b) (enumerate 0 (btick_matches s)) []"

definition quoted :: "string \<Rightarrow> string" where
  "quoted s = [CHR 0x60] @ s @ [CHR 0x60]"

text \<open>The user, the worker and the password; the last is absent where the default remains.\<close>

definition split_user :: "string \<Rightarrow> string \<times> string \<times> string option" where
  "split_user s =
     (case split_last (CHR '':'') s of
        Some (a, pass) \<Rightarrow>
          (case split_last (CHR ''.'') a of
             Some (user, worker) \<Rightarrow> (user, worker, Some pass)
           | None \<Rightarrow> (a, [], Some pass))
      | None \<Rightarrow>
          (case split_last (CHR ''.'') s of
             Some (user, worker) \<Rightarrow> (user, worker, None)
           | None \<Rightarrow> (s, [], None)))"

definition parse_userinfo :: "uri \<Rightarrow> uri" where
  "parse_userinfo u =
     (if u_userinfo u \<noteq> [] then
        let blocks = btick_blocks (u_authority u);
            info = fold (\<lambda>(k, v) s. replace_all (quoted v) (quoted k) s) blocks (u_userinfo u);
            (user, worker, pass) = split_user info;
            restore = fold (\<lambda>(k, v) s. replace_all (quoted k) v s) blocks
        in u\<lparr>u_userinfo := restore info, u_user := restore user, u_worker := restore worker,
             u_password := restore (case pass of Some p \<Rightarrow> p | None \<Rightarrow> u_password u)\<rparr>
      else u)"

text \<open>Host and port; the port is given by one to five digits after the last colon.\<close>

definition split_host :: "string \<Rightarrow> (string \<times> string) option" where
  "split_host s =
     (case split_last (CHR '':'') s of
        Some (h, p) \<Rightarrow> if 1 \<le> length p \<and> length p \<le> 5 \<and> list_all is_digit p then Some (h, p) else None
      | None \<Rightarrow> None)"

definition split_path :: "string \<Rightarrow> string \<times> string \<times> string" where
  "split_path s =
     (case split_last (CHR ''#'') s of
        Some (a, frag) \<Rightarrow>
          (case split_last (CHR ''?'') a of
             Some (path, query) \<Rightarrow> (path, query, frag)
           | None \<Rightarrow> (a, [], frag))
      | None \<Rightarrow>
          (case split_last (CHR ''?'') s of
             Some (path, query) \<Rightarrow> (path, query, [])
           | None \<Rightarrow> (s, [], [])))"

text \<open>A host name is a sequence of labels separated by dots.\<close>

definition is_label :: "string \<Rightarrow> bool" where
  "is_label s \<longleftrightarrow> s \<noteq> [] \<and> is_alnum (hd s) \<and> is_alnum (last s) \<and> list_all (\<lambda>c. is_alnum c \<or> c = CHR ''-'') s"

function is_host_name :: "string \<Rightarrow> bool" where
  "is_host_name s =
     (case split_first (CHR ''.'') s of
        None \<Rightarrow> is_label s
      | Some (a, r) \<Rightarrow> is_label a \<and> is_host_name r)"
  by pat_completeness auto
termination
  by (relation "measure length") (auto dest!: split_first_length)

declare is_host_name.simps [simp del]

definition decoded :: "string \<Rightarrow> string" where
  "decoded s = (case url_decode s of Some t \<Rightarrow> t | None \<Rightarrow> s)"

definition scheme_char :: "char \<Rightarrow> bool" where
  "scheme_char c \<longleftrightarrow> is_alnum c \<or> c = CHR ''+''"

text \<open>The scheme and the authority, if the address has the form of the first regular expression.\<close>

definition split_scheme :: "string \<Rightarrow> (string \<times> string) option" where
  "split_scheme s =
     (let scheme = takeWhile scheme_char s; rest = dropWhile scheme_char s
      in if scheme \<noteq> [] \<and> take 3 rest = ''://'' \<and> list_all (\<lambda>c. \<not> is_line_end c) (drop 3 rest)
         then Some (scheme, drop 3 rest) else None)"

text \<open>
  The constructor, in the order of its parts: the split of the authority with the user; the host,
  the port and the path; the type of the host and the decoding. \<open>parse_address\<close> is the parser of IP
  addresses of boost: whether the address is of version 6, and whether it is a loopback address.
\<close>

definition uri_user_part :: "string \<Rightarrow> string \<Rightarrow> string \<Rightarrow> uri" where
  "uri_user_part s scheme authority =
     (let u = (uri_blank s)\<lparr>u_scheme := scheme, u_authority := authority\<rparr>
      in parse_userinfo
           (case split_last (CHR ''@'') authority of
              Some (info, url) \<Rightarrow> u\<lparr>u_userinfo := info, u_urlinfo := url\<rparr>
            | None \<Rightarrow> u\<lparr>u_urlinfo := authority\<rparr>))"

definition uri_host_part :: "uri \<Rightarrow> std_error + uri" where
  "uri_host_part u =
     (let u = (case split_first (CHR ''/'') (u_urlinfo u) of
                 Some (h, p) \<Rightarrow> u\<lparr>u_hostinfo := to_lower h, u_pathinfo := ''/'' @ p\<rparr>
               | None \<Rightarrow> u\<lparr>u_hostinfo := to_lower (u_urlinfo u)\<rparr>);
          (host, port) = (case split_host (u_hostinfo u) of
                            Some (h, p) \<Rightarrow> (h, decimal_value p) | None \<Rightarrow> (u_hostinfo u, 0))
      in if port \<ge> 2 ^ 16 then Inl (Runtime_Error ''bad lexical cast'')
         else if host = [] then Inl (Runtime_Error ''Missing host'')
         else Inr (u\<lparr>u_host := host, u_port := word_of_nat port\<rparr>))"

definition uri_decode_part :: "(string \<Rightarrow> (bool \<times> bool) option) \<Rightarrow> uri \<Rightarrow> uri" where
  "uri_decode_part parse_address u =
     (let (path, query, fragment) = (if u_pathinfo u \<noteq> [] then split_path (u_pathinfo u) else ([], [], []));
          (hostType, loop) =
            (case parse_address (u_host u) of
               Some (v6, loopback) \<Rightarrow> (if v6 then HostIPV6 else HostIPV4, Some loopback)
             | None \<Rightarrow> (if is_host_name (u_host u) then HostDns else HostBasic, None));
          tick = [CHR 0x60]
      in u\<lparr>u_hostType := hostType, u_isLoopBack := loop,
           u_userinfo := decoded (u_userinfo u), u_urlinfo := decoded (u_urlinfo u),
           u_hostinfo := decoded (u_hostinfo u), u_pathinfo := decoded (u_pathinfo u),
           u_path := decoded path, u_query := decoded query, u_fragment := decoded fragment,
           u_user := decoded (replace_all tick [] (u_user u)),
           u_password := decoded (replace_all tick [] (u_password u)),
           u_worker := decoded (replace_all tick [] (u_worker u))\<rparr>)"

definition uri_new :: "(string \<Rightarrow> (bool \<times> bool) option) \<Rightarrow> bool \<Rightarrow> string \<Rightarrow> std_error + uri" where
  "uri_new parse_address sim s =
     (case split_scheme s of
        None \<Rightarrow> Inr (uri_blank s)
      | Some (scheme, authority) \<Rightarrow>
          if authority = [] then Inl (Runtime_Error ''Invalid authority'')
          else if \<not> sim \<and> to_lower scheme = ''simulation'' then Inl (Runtime_Error ''Invalid scheme'')
          else if map_of s_schemes (to_lower scheme) = None then Inl (Runtime_Error ''Invalid scheme'')
          else case uri_host_part (uri_user_part s (to_lower scheme) authority) of
              Inl e \<Rightarrow> Inl e
            | Inr u \<Rightarrow> Inr (uri_decode_part parse_address u))"

text \<open>
  Looking a scheme up inserts a default entry if it is missing: the first family, no security and
  version 0.
\<close>

definition scheme_of :: "uri \<Rightarrow> scheme_attributes" where
  "scheme_of u =
     (case map_of s_schemes (u_scheme u) of
        Some a \<Rightarrow> a | None \<Rightarrow> \<lparr>sa_family = GETWORK, sa_secure = SecNone, sa_version = 0\<rparr>)"

definition uri_Family :: "uri \<Rightarrow> protocol_family" where
  "uri_Family u = sa_family (scheme_of u)"

definition uri_Version :: "uri \<Rightarrow> nat" where
  "uri_Version u = sa_version (scheme_of u)"

definition uri_SecLevel :: "uri \<Rightarrow> secure_level" where
  "uri_SecLevel u = sa_secure (scheme_of u)"

definition userDotWorker :: "uri \<Rightarrow> string" where
  "userDotWorker u = u_user u @ (if u_worker u \<noteq> [] then ''.'' @ u_worker u else [])"

definition knownSchemes :: "protocol_family \<Rightarrow> string" where
  "knownSchemes family =
     concat (map (\<lambda>(s, a). if sa_family a = family \<and> sa_version a \<noteq> 999 then s @ '' '' else []) s_schemes)"

section \<open>Delimiters\<close>

lemma split_first_append: "d \<notin> set a \<Longrightarrow> split_first d (a @ d # b) = Some (a, b)"
  by (induction a) auto

lemma split_first_None: "split_first d s = None \<longleftrightarrow> d \<notin> set s"
  by (induction s) auto

lemma split_last_append: "d \<notin> set b \<Longrightarrow> split_last d (a @ d # b) = Some (a, b)"
  using split_first_append [of d "rev b" "rev a"] by (simp add: split_last_def)

lemma split_last_None: "split_last d s = None \<longleftrightarrow> d \<notin> set s"
  by (simp add: split_last_def split_first_None)

lemma btick_blocks_Nil: "CHR 0x60 \<notin> set s \<Longrightarrow> btick_blocks s = []"
  by (simp add: btick_blocks_def btick_matches.simps split_first_None [THEN iffD2])

lemma replace_all_absent: "c \<notin> set s \<Longrightarrow> replace_all [c] r s = s"
  by (induction s) (auto simp: replace_all.simps)

lemma url_decode_plain: "CHR ''%'' \<notin> set s \<Longrightarrow> CHR ''+'' \<notin> set s \<Longrightarrow> url_decode s = Some s"
  by (induction s) auto

lemma decoded_plain: "CHR ''%'' \<notin> set s \<Longrightarrow> CHR ''+'' \<notin> set s \<Longrightarrow> decoded s = s"
  by (simp add: decoded_def url_decode_plain)

section \<open>Numbers\<close>

lemma decimal_value_snoc: "decimal_value (ds @ [c]) = decimal_value ds * 10 + (of_char c - 48)"
  by (simp add: decimal_value_def)

lemma decimal_value_decimal: "decimal_value (decimal n) = n"
proof (induction n rule: decimal.induct)
  case (1 n)
  then show ?case
    by (cases "n < 10") (simp_all add: decimal.simps [of n] decimal_value_snoc decimal_value_def)
qed

lemma list_all_digit_decimal: "list_all is_digit (decimal n)"
proof (induction n rule: decimal.induct)
  case (1 n)
  then show ?case by (cases "n < 10") (auto simp: decimal.simps [of n] is_digit_def Let_def)
qed

lemma length_decimal: "n < 10 ^ k \<Longrightarrow> 0 < k \<Longrightarrow> 1 \<le> length (decimal n) \<and> length (decimal n) \<le> k"
proof (induction k arbitrary: n)
  case (Suc k)
  show ?case
  proof (cases "n < 10")
    case False
    then have "0 < k" using Suc.prems by (cases k) auto
    moreover have "n div 10 < 10 ^ k" using Suc.prems by (simp add: less_mult_imp_div_less mult.commute)
    ultimately show ?thesis using Suc.IH [of "n div 10"] False by (simp add: decimal.simps [of n])
  qed (simp add: decimal.simps [of n])
qed simp

lemma to_lower_digits: "list_all is_digit s \<Longrightarrow> to_lower s = s"
  by (induction s) (auto simp: to_lower_def lower_char_def is_digit_def Let_def)

lemma digit_not: "is_digit c \<Longrightarrow> c \<noteq> CHR '':'' \<and> c \<noteq> CHR ''/'' \<and> c \<noteq> CHR ''@'' \<and> c \<noteq> CHR ''%'' \<and> c \<noteq> CHR ''+'' \<and>
  c \<noteq> CHR 0x60 \<and> \<not> is_line_end c"
  by (auto simp: is_digit_def is_line_end_def Let_def)

section \<open>Addresses written from their parts\<close>

definition plain :: "string \<Rightarrow> bool" where
  "plain s \<longleftrightarrow> list_all (\<lambda>c. \<not> is_line_end c \<and> c \<noteq> CHR 0x60 \<and> c \<noteq> CHR ''%'' \<and> c \<noteq> CHR ''+'') s"

definition user_text :: "string \<Rightarrow> string \<Rightarrow> string \<Rightarrow> string" where
  "user_text user worker pass = user @ ''.'' @ worker @ '':'' @ pass"

definition uri_text :: "string \<Rightarrow> string \<Rightarrow> string \<Rightarrow> string \<Rightarrow> string \<Rightarrow> nat \<Rightarrow> string \<Rightarrow> string" where
  "uri_text scheme user worker pass host port path =
     scheme @ ''://'' @ user_text user worker pass @ ''@'' @ host @ '':'' @ decimal port @ path"

lemma plain_append [simp]: "plain (a @ b) \<longleftrightarrow> plain a \<and> plain b"
  by (simp add: plain_def)

lemma plain_not_in: "plain s \<Longrightarrow> CHR 0x60 \<notin> set s \<and> CHR ''%'' \<notin> set s \<and> CHR ''+'' \<notin> set s"
  by (auto simp: plain_def list_all_iff)

lemma plain_decimal: "plain (decimal n)"
  using list_all_digit_decimal [of n] digit_not unfolding plain_def list_all_iff by metis

lemma plain_decoded: "plain s \<Longrightarrow> decoded s = s"
  using plain_not_in [of s] by (simp add: decoded_plain)

lemma decoded_Nil: "decoded [] = []"
  by (simp add: decoded_def)

lemma plain_replace: "plain s \<Longrightarrow> replace_all [CHR 0x60] [] s = s"
  using plain_not_in [of s] by (simp add: replace_all_absent)

lemma scheme_keys:
  assumes "map_of s_schemes scheme = Some a"
  shows "list_all scheme_char scheme" "to_lower scheme = scheme" "scheme \<noteq> []"
proof -
  have "list_all (\<lambda>(k, a). list_all scheme_char k \<and> to_lower k = k \<and> k \<noteq> []) s_schemes"
    by (simp add: s_schemes_def scheme_char_def is_alnum_def to_lower_def lower_char_def)
  with map_of_SomeD [OF assms] show "list_all scheme_char scheme" "to_lower scheme = scheme" "scheme \<noteq> []"
    by (auto simp: list_all_iff)
qed

lemma split_scheme_text:
  assumes "map_of s_schemes scheme = Some a" and "plain rest"
  shows "split_scheme (scheme @ ''://'' @ rest) = Some (scheme, rest)"
proof -
  have "\<not> scheme_char (CHR '':'')" by (simp add: scheme_char_def is_alnum_def)
  moreover have "\<forall>c \<in> set scheme. scheme_char c" using scheme_keys(1) [OF assms(1)] by (simp add: list_all_iff)
  ultimately show ?thesis
    using scheme_keys(3) [OF assms(1)] assms(2)
    by (simp add: split_scheme_def Let_def takeWhile_append dropWhile_append plain_def list_all_iff)
qed

lemma parse_userinfo_text:
  assumes "u_userinfo u = user_text user worker pass" and "CHR 0x60 \<notin> set (u_authority u)"
    and "CHR ''.'' \<notin> set worker" and "CHR '':'' \<notin> set pass"
  shows "parse_userinfo u = u\<lparr>u_user := user, u_worker := worker, u_password := pass\<rparr>"
proof -
  have "split_last (CHR '':'') (user_text user worker pass) = Some (user @ ''.'' @ worker, pass)"
    using split_last_append [OF assms(4), of "user @ ''.'' @ worker"] by (simp add: user_text_def)
  moreover have "split_last (CHR ''.'') (user @ ''.'' @ worker) = Some (user, worker)"
    using split_last_append [OF assms(3), of user] by simp
  ultimately have "split_user (user_text user worker pass) = (user, worker, Some pass)"
    by (simp add: split_user_def)
  moreover have "user_text user worker pass \<noteq> []" by (simp add: user_text_def)
  ultimately show ?thesis using assms(1,2) by (simp add: parse_userinfo_def btick_blocks_Nil)
qed

lemma split_host_text:
  assumes "port < 65536"
  shows "split_host (host @ '':'' @ decimal port) = Some (host, decimal port)"
proof -
  have "CHR '':'' \<notin> set (decimal port)" using list_all_digit_decimal [of port] digit_not by (auto simp: list_all_iff)
  then show ?thesis
    using length_decimal [of port 5] assms list_all_digit_decimal [of port] split_last_append [of "CHR '':''" "decimal port" host]
    by (simp add: split_host_def)
qed

lemma split_path_plain: "CHR ''?'' \<notin> set p \<Longrightarrow> CHR ''#'' \<notin> set p \<Longrightarrow> split_path p = (p, [], [])"
  by (simp add: split_path_def split_last_None [THEN iffD2])

lemma uri_host_part_text:
  assumes "u_urlinfo u = host @ '':'' @ decimal port @ path" and "port < 65536" and "host \<noteq> []"
    and "to_lower host = host" and "CHR ''/'' \<notin> set host" and "path = [] \<or> hd path = CHR ''/''"
  shows "uri_host_part u =
    Inr (u\<lparr>u_hostinfo := host @ '':'' @ decimal port, u_pathinfo := (if path = [] then u_pathinfo u else path),
           u_host := host, u_port := word_of_nat port\<rparr>)"
proof -
  let ?hp = "host @ '':'' @ decimal port"
  have low: "to_lower ?hp = ?hp"
    using assms(4) to_lower_digits [OF list_all_digit_decimal] by (simp add: to_lower_def lower_char_def)
  have slash: "CHR ''/'' \<notin> set ?hp"
    using assms(5) list_all_digit_decimal [of port] digit_not by (auto simp: list_all_iff)
  show ?thesis
  proof (cases path)
    case Nil
    then have "split_first (CHR ''/'') (u_urlinfo u) = None" using slash assms(1) by (simp add: split_first_None)
    then show ?thesis
      using Nil assms low split_host_text [OF assms(2), of host]
      by (simp add: uri_host_part_def decimal_value_decimal Let_def)
  next
    case (Cons c p)
    then have "split_first (CHR ''/'') (u_urlinfo u) = Some (?hp, p)"
      using split_first_append [OF slash, of p] assms(1,6) by simp
    then show ?thesis
      using Cons assms low split_host_text [OF assms(2), of host]
      by (simp add: uri_host_part_def decimal_value_decimal Let_def)
  qed
qed

text \<open>C29. An address written from a known scheme, a user, a worker, a password, a host, a port and a path is
  parsed back into exactly these parts, as long as they contain none of the characters that delimit
  the part or that are decoded. The user may contain dots, colons and at signs, as addresses of mail
  do. Without the option for simulations the scheme of simulations is refused.\<close>

theorem uri_roundtrip:
  assumes "map_of s_schemes scheme = Some a" and "port < 65536" and "host \<noteq> []" and "to_lower host = host"
    and "plain user" and "plain worker" and "plain pass" and "plain host" and "plain path"
    and "CHR ''.'' \<notin> set worker" and "CHR '':'' \<notin> set pass"
    and "CHR ''@'' \<notin> set (host @ path)" and "CHR ''/'' \<notin> set host"
    and "CHR ''?'' \<notin> set path" and "CHR ''#'' \<notin> set path" and "path = [] \<or> hd path = CHR ''/''"
  shows "case uri_new parse_address sim (uri_text scheme user worker pass host port path) of
      Inl e \<Rightarrow> \<not> sim \<and> scheme = ''simulation'' \<and> e = Runtime_Error ''Invalid scheme''
    | Inr u \<Rightarrow> (sim \<or> scheme \<noteq> ''simulation'') \<and> u_scheme u = scheme \<and> u_user u = user \<and> u_worker u = worker \<and>
        u_password u = pass \<and> u_host u = host \<and> unat (u_port u) = port \<and> u_path u = path \<and>
        u_query u = [] \<and> u_fragment u = [] \<and> scheme_of u = a"
proof -
  let ?info = "user_text user worker pass" and ?url = "host @ '':'' @ decimal port @ path"
  let ?auth = "?info @ ''@'' @ ?url" and ?s = "uri_text scheme user worker pass host port path"
  have "CHR ''@'' \<notin> set (decimal port)"
    using list_all_digit_decimal [of port] digit_not by (auto simp: list_all_iff)
  then have at: "split_last (CHR ''@'') ?auth = Some (?info, ?url)"
    using split_last_append [of "CHR ''@''" ?url ?info] assms(12) by simp
  have pl: "plain ?auth"
    using assms plain_decimal by (auto simp: user_text_def plain_def is_line_end_def)
  have sch: "split_scheme ?s = Some (scheme, ?auth)"
    using split_scheme_text [OF assms(1) pl] by (simp add: uri_text_def)
  define u where "u = (uri_blank ?s)\<lparr>u_scheme := scheme, u_authority := ?auth, u_userinfo := ?info, u_urlinfo := ?url\<rparr>"
  have "parse_userinfo u = u\<lparr>u_user := user, u_worker := worker, u_password := pass\<rparr>"
    by (rule parse_userinfo_text) (use plain_not_in [OF pl] assms in \<open>simp_all add: u_def\<close>)
  then have user: "uri_user_part ?s scheme ?auth = u\<lparr>u_user := user, u_worker := worker, u_password := pass\<rparr>"
    unfolding uri_user_part_def at Let_def by (simp add: u_def)
  define v where "v = u\<lparr>u_user := user, u_worker := worker, u_password := pass,
     u_hostinfo := host @ '':'' @ decimal port, u_pathinfo := path, u_host := host, u_port := word_of_nat port\<rparr>"
  have "u_pathinfo u = []" by (simp add: u_def uri_blank_def)
  then have host: "uri_host_part (u\<lparr>u_user := user, u_worker := worker, u_password := pass\<rparr>) = Inr v"
    using uri_host_part_text [of "u\<lparr>u_user := user, u_worker := worker, u_password := pass\<rparr>" host port path] assms
    by (cases "path = []") (simp_all add: u_def v_def)
  have "uri_new parse_address sim ?s =
      (if \<not> sim \<and> scheme = ''simulation'' then Inl (Runtime_Error ''Invalid scheme'')
       else Inr (uri_decode_part parse_address v))"
    unfolding uri_new_def sch using assms(1) scheme_keys(2) [OF assms(1)] user host by simp
  moreover have "u_scheme v = scheme" "u_user v = user" "u_worker v = worker" "u_password v = pass" "u_host v = host"
    "u_port v = word_of_nat port" "u_pathinfo v = path" by (simp_all add: v_def u_def)
  then have "u_scheme w = scheme" "u_user w = user" "u_worker w = worker" "u_password w = pass" "u_host w = host"
    "u_port w = word_of_nat port" "u_path w = path" "u_query w = []" "u_fragment w = []"
    if "w = uri_decode_part parse_address v" for w
    using that plain_decoded [OF assms(9)] assms(5-7) split_path_plain [OF assms(14,15)]
    by (simp_all add: uri_decode_part_def split_beta Let_def plain_decoded plain_replace decoded_Nil)
  moreover from this have "scheme_of (uri_decode_part parse_address v) = a" using assms(1) by (simp add: scheme_of_def)
  moreover have "unat (word_of_nat port :: u16) = port" using assms(2) by (simp add: unat_of_nat)
  ultimately show ?thesis by simp
qed

theorem uri_roundtrip_witness:
  "\<exists>u. uri_new (\<lambda>h. None) False
       (uri_text ''stratum1+tcp'' ''me@mail.org'' ''rig1'' ''x'' ''pool.example.com'' 4444 ''/eth'') = Inr u \<and>
     u_user u = ''me@mail.org'' \<and> u_worker u = ''rig1'' \<and> u_host u = ''pool.example.com'' \<and> unat (u_port u) = 4444 \<and>
     u_path u = ''/eth'' \<and> uri_Version u = 1"
proof -
  let ?a = "\<lparr>sa_family = STRATUM, sa_secure = SecNone, sa_version = 1\<rparr>"
  have "map_of s_schemes ''stratum1+tcp'' = Some ?a" by (simp add: s_schemes_def)
  note parse = uri_roundtrip [OF this, of 4444 "''pool.example.com''" "''me@mail.org''" "''rig1''" "''x''" "''/eth''"
      False "\<lambda>h. None"]
  show ?thesis
    using parse by (auto simp: to_lower_def lower_char_def plain_def is_line_end_def uri_Version_def split: sum.splits)
qed

end
