(* ===== verification/Pool_Client.thy ===== *)
theory Pool_Client
  imports Farm Pool_URI
begin

text \<open>
  What the clients of a pool share: the session of \<^verbatim>\<open>libpool/PoolClient.h\<close>, the ways in which a call can
  end, and the library for JSON. The latter is jsoncpp, which is not part of the program: its operations
  are the fields of a record over an unspecified type of values, and the models take this record as an
  argument. Whatever is shown of them holds for every behaviour of the library.
\<close>

section \<open>Calls\<close>

text \<open>
  A call returns, or throws an object of a class derived from \<open>std::exception\<close>, or throws a pointer, or
  does something undefined: it follows a null pointer, or removes an element of an empty queue.
\<close>

datatype call_exit = Returned | Threw std_error | Threw_Pointer | Null_Dereference | Empty_Pop

definition require :: "std_error + 'a \<Rightarrow> 's \<Rightarrow> ('a \<Rightarrow> call_exit \<times> 's) \<Rightarrow> call_exit \<times> 's" where
  "require r s k = (case r of Inl e \<Rightarrow> (Threw e, s) | Inr x \<Rightarrow> k x)"

definition deref :: "'a option \<Rightarrow> 's \<Rightarrow> ('a \<Rightarrow> call_exit \<times> 's) \<Rightarrow> call_exit \<times> 's" where
  "deref p s k = (case p of None \<Rightarrow> (Null_Dereference, s) | Some x \<Rightarrow> k x)"

definition andThen :: "call_exit \<times> 's \<Rightarrow> ('s \<Rightarrow> call_exit \<times> 's) \<Rightarrow> call_exit \<times> 's" where
  "andThen r k = (case r of (e, s) \<Rightarrow> if e = Returned then k s else (e, s))"

lemma require_simps [simp]:
  "require (Inl e) s k = (Threw e, s)" "require (Inr x) s k = k x"
  by (simp_all add: require_def)

lemma deref_simps [simp]:
  "deref None s k = (Null_Dereference, s)" "deref (Some x) s k = k x"
  by (simp_all add: deref_def)

lemma andThen_simps [simp]:
  "andThen (Returned, s) k = k s" "e \<noteq> Returned \<Longrightarrow> andThen (e, s) k = (e, s)"
  by (simp_all add: andThen_def)

text \<open>Fallible computations without a state.\<close>

definition bind_sum :: "std_error + 'a \<Rightarrow> ('a \<Rightarrow> std_error + 'b) \<Rightarrow> std_error + 'b" where
  "bind_sum r k = (case r of Inl e \<Rightarrow> Inl e | Inr x \<Rightarrow> k x)"

lemma bind_sum_simps [simp]:
  "bind_sum (Inl e) k = Inl e" "bind_sum (Inr x) k = k x"
  by (simp_all add: bind_sum_def)

text \<open>A hash from a text, with the exception of the conversion.\<close>

definition h256_of_string :: "string \<Rightarrow> std_error + fixed_hash" where
  "h256_of_string s = (case fixed_hash_of_string 32 s of Inl e \<Rightarrow> Inl Bad_Hex_Character | Inr h \<Rightarrow> Inr h)"

text \<open>A property of the state after a call, however the call ends.\<close>

definition post :: "('s \<Rightarrow> bool) \<Rightarrow> call_exit \<times> 's \<Rightarrow> bool" where
  "post P r \<longleftrightarrow> P (snd r)"

lemma post_return: "P s \<Longrightarrow> post P (e, s)"
  by (simp add: post_def)

lemma post_require: "P s \<Longrightarrow> (\<And>x. r = Inr x \<Longrightarrow> post P (k x)) \<Longrightarrow> post P (require r s k)"
  by (cases r) (simp_all add: post_def)

lemma post_deref: "P s \<Longrightarrow> (\<And>x. p = Some x \<Longrightarrow> post P (k x)) \<Longrightarrow> post P (deref p s k)"
  by (cases p) (simp_all add: post_def)

lemma post_andThen: "post P r \<Longrightarrow> (\<And>s. P s \<Longrightarrow> post P (k s)) \<Longrightarrow> post P (andThen r k)"
  by (cases r) (simp add: post_def andThen_def)

lemma post_if: "(b \<Longrightarrow> post P x) \<Longrightarrow> (\<not> b \<Longrightarrow> post P y) \<Longrightarrow> post P (if b then x else y)"
  by simp

lemma post_case_prod: "(\<And>a b. p = (a, b) \<Longrightarrow> post P (f a b)) \<Longrightarrow> post P (case p of (a, b) \<Rightarrow> f a b)"
  by (cases p) simp

lemmas post_rules = post_return post_require post_deref post_if post_case_prod

text \<open>\<open>boost::trim\<close>.\<close>

definition trim :: "string \<Rightarrow> string" where
  "trim s = rev (dropWhile c_isspace (rev (dropWhile c_isspace s)))"

section \<open>JSON\<close>

datatype json_type = String_Value | Array_Value | Object_Value

text \<open>
  \<open>j_set v k w\<close> is \<open>v[k] = w\<close>. Reading \<open>v[k]\<close> inserts a null value if there is none, so \<open>j_at\<close> and
  \<open>j_at_index\<close> yield the value that \<open>v\<close> has afterwards beside the element.
\<close>

record 'j jsoncpp =
  j_null :: 'j
  j_of_uint :: "u32 \<Rightarrow> 'j"
  j_of_int :: "int \<Rightarrow> 'j"
  j_of_string :: "string \<Rightarrow> 'j"
  j_of_bool :: "bool \<Rightarrow> 'j"
  j_of_double :: "double_bits \<Rightarrow> 'j"
  j_array :: 'j
  j_set :: "'j \<Rightarrow> string \<Rightarrow> 'j \<Rightarrow> 'j"
  j_append :: "'j \<Rightarrow> 'j \<Rightarrow> 'j"
  j_isMember :: "'j \<Rightarrow> string \<Rightarrow> std_error + bool"
  j_get :: "'j \<Rightarrow> string \<Rightarrow> 'j \<Rightarrow> std_error + 'j"
  j_get_index :: "'j \<Rightarrow> nat \<Rightarrow> 'j \<Rightarrow> std_error + 'j"
  j_at :: "'j \<Rightarrow> string \<Rightarrow> std_error + 'j \<times> 'j"
  j_at_index :: "'j \<Rightarrow> nat \<Rightarrow> std_error + 'j \<times> 'j"
  j_equal :: "'j \<Rightarrow> 'j \<Rightarrow> bool"
  j_isArray :: "'j \<Rightarrow> bool"
  j_isObject :: "'j \<Rightarrow> bool"
  j_isString :: "'j \<Rightarrow> bool"
  j_isBool :: "'j \<Rightarrow> bool"
  j_isUInt :: "'j \<Rightarrow> bool"
  j_isNull :: "'j \<Rightarrow> bool"
  j_empty :: "'j \<Rightarrow> bool"
  j_size :: "'j \<Rightarrow> nat"
  j_isConvertibleTo :: "'j \<Rightarrow> json_type \<Rightarrow> bool"
  j_asString :: "'j \<Rightarrow> std_error + string"
  j_asUInt :: "'j \<Rightarrow> std_error + u32"
  j_asBool :: "'j \<Rightarrow> std_error + bool"
  j_asDouble :: "'j \<Rightarrow> std_error + double_bits"
  j_elements :: "'j \<Rightarrow> 'j list"
  j_members :: "'j \<Rightarrow> (string \<times> 'j) list"
  j_parse :: "string \<Rightarrow> 'j option"
  j_write :: "'j \<Rightarrow> string"

text \<open>A value built by assignments to its members, and an array built by appending.\<close>

definition j_build :: "'j jsoncpp \<Rightarrow> 'j \<Rightarrow> (string \<times> 'j) list \<Rightarrow> 'j" where
  "j_build jc v ms = foldl (\<lambda>v (k, w). j_set jc v k w) v ms"

definition j_list :: "'j jsoncpp \<Rightarrow> 'j list \<Rightarrow> 'j" where
  "j_list jc ws = foldl (j_append jc) (j_array jc) ws"

text \<open>\<open>get(k, "").asString()\<close> on a member and on an element.\<close>

definition j_get_string :: "'j jsoncpp \<Rightarrow> 'j \<Rightarrow> string \<Rightarrow> std_error + string" where
  "j_get_string jc v k = bind_sum (j_get jc v k (j_of_string jc [])) (j_asString jc)"

definition j_index_string :: "'j jsoncpp \<Rightarrow> 'j \<Rightarrow> nat \<Rightarrow> std_error + string" where
  "j_index_string jc v i = bind_sum (j_get_index jc v i (j_of_string jc [])) (j_asString jc)"

section \<open>Sessions\<close>

text \<open>Times are counted in nanoseconds of the steady clock.\<close>

record session =
  s_start :: nat
  subscribed :: bool
  authorized :: bool
  extraNonce :: u64
  extraNonceSizeBytes :: u32
  nextWorkBoundary :: fixed_hash
  nextWorkDifficulty :: double_bits
  firstMiningSet :: bool
  s_timeout :: u32
  sessionId :: string
  workerId :: string
  s_epoch :: u32
  lastTxStamp :: nat

definition session_new :: "nat \<Rightarrow> session" where
  "session_new now =
     \<lparr>s_start = now, subscribed = False, authorized = False, extraNonce = 0, extraNonceSizeBytes = 0,
      nextWorkBoundary = replicate 4 0 @ [0xff, 0xff] @ replicate 26 0, nextWorkDifficulty = 0,
      firstMiningSet = False, s_timeout = 30, sessionId = [], workerId = [], s_epoch = 0, lastTxStamp = now\<rparr>"

definition session_duration :: "nat \<Rightarrow> session \<Rightarrow> nat" where
  "session_duration now s = (now - s_start s) div 60000000000"

definition session_isSubscribed :: "session option \<Rightarrow> bool" where
  "session_isSubscribed p = (case p of None \<Rightarrow> False | Some s \<Rightarrow> subscribed s)"

definition session_isAuthorized :: "session option \<Rightarrow> bool" where
  "session_isAuthorized p = (case p of None \<Rightarrow> False | Some s \<Rightarrow> authorized s)"

lemma session_simps [simp]:
  "session_isSubscribed None = False" "session_isSubscribed (Some s) = subscribed s"
  "session_isAuthorized None = False" "session_isAuthorized (Some s) = authorized s"
  by (simp_all add: session_isSubscribed_def session_isAuthorized_def)

text \<open>The mutable part of the address of a pool.\<close>

definition setStratumMode :: "u16 \<Rightarrow> bool \<Rightarrow> uri \<Rightarrow> uri" where
  "setStratumMode mode confirmed u = u\<lparr>u_stratumMode := mode, u_stratumModeConfirmed := confirmed\<rparr>"

definition addDuration :: "nat \<Rightarrow> uri \<Rightarrow> uri" where
  "addDuration minutes u = u\<lparr>u_totalDuration := map_option (\<lambda>d. d + word_of_nat minutes) (u_totalDuration u)\<rparr>"

end
