(* ===== verification/Stratum_Connection.thy ===== *)
theory Stratum_Connection
  imports Pool_Client
begin

text \<open>
  The connection of the class \<open>EthStratumClient\<close> of \<^verbatim>\<open>libpool/stratum\<close>: connecting and disconnecting with
  the detection of the flavour of the protocol, the timer, the queue of outgoing messages, and the
  account of the requests that wait for a response. Every operation that is started on a socket, every
  call that is posted and every handler that is called is recorded in the order of the code; their
  completions are the handlers modelled here. The time is an argument of a handler.
\<close>

section \<open>The C++ routines\<close>

type_synonym endpoint = "string \<times> u16"

datatype client_effect =
  Resolve string u16 | Async_Connect endpoint | Async_Shutdown | Async_Read | Async_Write string
  | Post_Start_Connect | Post_Disconnect | Post_Disconnect_Finalize | Post_Login_Failed
  | On_Connected | On_Disconnected | On_Work work_package
  | On_Accepted nat u32 bool | On_Rejected nat u32

text \<open>
  A socket is open or not. The secure socket is the socket that \<open>m_socket\<close> points to whenever it is
  used. The timer is armed or not; a timer that is set to infinity is not.
\<close>

record stratum_client =
  m_conn :: "uri option"
  m_connected :: bool
  m_endpoint :: "endpoint option"
  m_session :: "session option"
  m_disconnecting :: bool
  m_connecting :: bool
  m_authpending :: bool
  m_worktimeout :: int
  m_responsetimeout :: int
  m_current :: work_package
  m_current_timestamp :: nat
  m_socket :: "bool option"
  m_message :: string
  m_newjobprocessed :: bool
  m_sendBuffer :: string
  m_workloop_timer :: bool
  m_response_pleas_count :: int
  m_response_plea_older :: nat
  m_response_plea_times :: "nat list"
  m_txPending :: bool
  m_txQueue :: "string list"
  m_endpoints :: "endpoint list"
  m_solution_submitted_max_id :: u32
  sc_effects :: "client_effect list"

definition emit :: "client_effect \<Rightarrow> stratum_client \<Rightarrow> stratum_client" where
  "emit e c = c\<lparr>sc_effects := sc_effects c @ [e]\<rparr>"

definition with_conn ::
    "stratum_client \<Rightarrow> (uri \<Rightarrow> call_exit \<times> stratum_client) \<Rightarrow> call_exit \<times> stratum_client" where
  "with_conn c k = deref (m_conn c) c k"

definition with_session ::
    "stratum_client \<Rightarrow> (session \<Rightarrow> call_exit \<times> stratum_client) \<Rightarrow> call_exit \<times> stratum_client" where
  "with_session c k = deref (m_session c) c k"

definition on_conn :: "(uri \<Rightarrow> uri) \<Rightarrow> stratum_client \<Rightarrow> stratum_client" where
  "on_conn f c = c\<lparr>m_conn := map_option f (m_conn c)\<rparr>"

definition on_session :: "(session \<Rightarrow> session) \<Rightarrow> stratum_client \<Rightarrow> stratum_client" where
  "on_session f c = c\<lparr>m_session := map_option f (m_session c)\<rparr>"

definition markUnrecoverable :: "stratum_client \<Rightarrow> stratum_client" where
  "markUnrecoverable c = on_conn (\<lambda>u. u\<lparr>u_unrecoverable := True\<rparr>) c"

definition isPendingState :: "stratum_client \<Rightarrow> bool" where
  "isPendingState c \<longleftrightarrow> m_connecting c \<or> m_disconnecting c"

definition isConnected :: "stratum_client \<Rightarrow> bool" where
  "isConnected c \<longleftrightarrow> m_connected c \<and> \<not> isPendingState c"

subsection \<open>Responses that are waited for\<close>

text \<open>The queues hold at most the 64 elements they were created for; what does not fit is dropped.\<close>

definition queue_size :: nat where "queue_size = 64"

definition bounded_push :: "'a \<Rightarrow> 'a list \<Rightarrow> 'a list" where
  "bounded_push x q = (if length q < queue_size then q @ [x] else q)"

definition enqueue_response_plea :: "nat \<Rightarrow> stratum_client \<Rightarrow> stratum_client" where
  "enqueue_response_plea now c =
     (let c' = (if m_response_pleas_count c = 0 then c\<lparr>m_response_plea_older := now\<rparr> else c)
      in c'\<lparr>m_response_pleas_count := m_response_pleas_count c + 1,
            m_response_plea_times := bounded_push now (m_response_plea_times c)\<rparr>)"

definition dequeue_response_plea :: "nat \<Rightarrow> stratum_client \<Rightarrow> nat \<times> stratum_client" where
  "dequeue_response_plea now c =
     (let delay = (now - m_response_plea_older c) div 1000000;
          c = (case m_response_plea_times c of
                 [] \<Rightarrow> c
               | t # ts \<Rightarrow> c\<lparr>m_response_plea_times := ts, m_response_plea_older := t\<rparr>)
      in if m_response_pleas_count c > 0
         then (delay, c\<lparr>m_response_pleas_count := m_response_pleas_count c - 1\<rparr>)
         else (0, c))"

definition clear_response_pleas :: "nat \<Rightarrow> stratum_client \<Rightarrow> stratum_client" where
  "clear_response_pleas now c =
     c\<lparr>m_response_pleas_count := 0, m_response_plea_times := [], m_response_plea_older := now\<rparr>"

subsection \<open>Sending\<close>

definition sendSocketData :: "stratum_client \<Rightarrow> stratum_client" where
  "sendSocketData c =
     (if \<not> isConnected c \<or> m_txQueue c = []
      then c\<lparr>m_sendBuffer := [], m_txQueue := [], m_txPending := False\<rparr>
      else let b = m_sendBuffer c @ concat (map (\<lambda>line. line @ [CHR 10]) (m_txQueue c))
           in emit (Async_Write b) (c\<lparr>m_sendBuffer := b, m_txQueue := []\<rparr>))"

definition send :: "'j jsoncpp \<Rightarrow> 'j \<Rightarrow> stratum_client \<Rightarrow> stratum_client" where
  "send jc jReq c =
     (let c = c\<lparr>m_txQueue := bounded_push (j_write jc jReq) (m_txQueue c)\<rparr>
      in if m_txPending c then c else sendSocketData (c\<lparr>m_txPending := True\<rparr>))"

text \<open>\<open>ssl_shutdown\<close> says that the error is the one of a secure stream that was shut down. A completed write has
  consumed the buffer.\<close>

definition onSendSocketDataCompleted :: "bool \<Rightarrow> bool \<Rightarrow> nat \<Rightarrow> stratum_client \<Rightarrow> call_exit \<times> stratum_client" where
  "onSendSocketDataCompleted ec ssl_shutdown now c =
     (if ec then
        let c = c\<lparr>m_sendBuffer := [], m_txQueue := [], m_txPending := False\<rparr>;
            c = (if ssl_shutdown then emit Post_Disconnect c else c)
        in (Returned, if isConnected c then emit Post_Disconnect c else c)
      else
        let c = c\<lparr>m_sendBuffer := []\<rparr>
        in andThen
             (if m_session c = None then (Returned, c)
              else with_conn c (\<lambda>u.
                (Returned, if u_stratumMode u = 3 then on_session (\<lambda>s. s\<lparr>lastTxStamp := now\<rparr>) c else c)))
             (\<lambda>c. (Returned, if m_txQueue c = [] then c\<lparr>m_txPending := False\<rparr> else sendSocketData c)))"

subsection \<open>Connecting and disconnecting\<close>

definition stratum_new :: "int \<Rightarrow> int \<Rightarrow> u32 \<Rightarrow> nat \<Rightarrow> stratum_client" where
  "stratum_new worktimeout responsetimeout uninitialised now =
     clear_response_pleas now
       \<lparr>m_conn = None, m_connected = False, m_endpoint = None, m_session = None, m_disconnecting = False,
        m_connecting = False, m_authpending = False, m_worktimeout = worktimeout,
        m_responsetimeout = responsetimeout, m_current = work_package_default, m_current_timestamp = 0,
        m_socket = None, m_message = [], m_newjobprocessed = False, m_sendBuffer = [], m_workloop_timer = False,
        m_response_pleas_count = 0, m_response_plea_older = 0, m_response_plea_times = [], m_txPending = False,
        m_txQueue = [], m_endpoints = [], m_solution_submitted_max_id = uninitialised, sc_effects = []\<rparr>"

text \<open>The pool manager sets the connection before it connects.\<close>

definition setConnection :: "uri \<Rightarrow> stratum_client \<Rightarrow> stratum_client" where
  "setConnection u c = c\<lparr>m_conn := Some (u\<lparr>u_responds := False\<rparr>)\<rparr>"

definition init_socket :: "stratum_client \<Rightarrow> stratum_client" where
  "init_socket c = c\<lparr>m_socket := Some False\<rparr>"

definition connect :: "stratum_client \<Rightarrow> call_exit \<times> stratum_client" where
  "connect c =
     (if m_connecting c then (Returned, c)
      else
        let c = c\<lparr>m_workloop_timer := True, m_authpending := False\<rparr>
        in with_conn c (\<lambda>u.
             let c = (if m_socket c = None then init_socket c else c);
                 c = c\<lparr>m_endpoints := [], m_endpoint := None\<rparr>
             in if u_hostType u = HostDns \<or> u_hostType u = HostBasic
                then (Returned, emit (Resolve (u_host u) (u_port u)) c)
                else (Returned, emit Post_Start_Connect (c\<lparr>m_endpoints := [(u_host u, u_port u)]\<rparr>))))"

definition disconnect_finalize :: "nat \<Rightarrow> stratum_client \<Rightarrow> call_exit \<times> stratum_client" where
  "disconnect_finalize now c =
     (let c = c\<lparr>m_socket := None\<rparr>
      in with_conn c (\<lambda>u.
        let c = (case m_session c of None \<Rightarrow> c | Some s \<Rightarrow> on_conn (addDuration (session_duration now s)) c);
            c = c\<lparr>m_session := None, m_authpending := False, m_disconnecting := False, m_txPending := False\<rparr>;
            detecting = (\<not> u_unrecoverable u \<and> \<not> u_stratumModeConfirmed u \<and> u_responds u)
        in if detecting \<and> u_stratumMode u > 0
           then (Returned, emit Post_Start_Connect (on_conn (\<lambda>u. u\<lparr>u_stratumMode := u_stratumMode u - 1\<rparr>) c))
           else
             let c = (if detecting then markUnrecoverable c else c);
                 c = (clear_response_pleas now c)\<lparr>m_solution_submitted_max_id := 0, m_workloop_timer := False\<rparr>
             in (Returned, emit On_Disconnected c)))"

definition disconnect :: "nat \<Rightarrow> stratum_client \<Rightarrow> call_exit \<times> stratum_client" where
  "disconnect now c =
     (if m_disconnecting c then (Returned, c)
      else
        let c = c\<lparr>m_disconnecting := True, m_connected := False\<rparr>
        in if m_socket c = Some True then
             with_conn c (\<lambda>u.
               if uri_SecLevel u \<noteq> SecNone
               then (Returned, enqueue_response_plea now (emit Async_Shutdown c))
               else disconnect_finalize now (c\<lparr>m_socket := Some False\<rparr>))
           else disconnect_finalize now c)"

definition onSSLShutdownCompleted :: "nat \<Rightarrow> stratum_client \<Rightarrow> stratum_client" where
  "onSSLShutdownCompleted now c = emit Post_Disconnect_Finalize (clear_response_pleas now c)"

text \<open>The resolver yields the addresses of the host or an error.\<close>

definition resolve_handler :: "endpoint list option \<Rightarrow> nat \<Rightarrow> stratum_client \<Rightarrow> call_exit \<times> stratum_client" where
  "resolve_handler found now c =
     (case found of
        Some es \<Rightarrow> (Returned, emit Post_Start_Connect (c\<lparr>m_endpoints := m_endpoints c @ es\<rparr>))
      | None \<Rightarrow> with_conn c (\<lambda>u. disconnect_finalize now (c\<lparr>m_connecting := False\<rparr>)))"

definition start_connect :: "nat \<Rightarrow> stratum_client \<Rightarrow> call_exit \<times> stratum_client" where
  "start_connect now c =
     (if m_connecting c then (Returned, c)
      else
        let c = c\<lparr>m_connecting := True\<rparr>
        in case m_endpoints c of
             e # es \<Rightarrow>
               let c = c\<lparr>m_endpoint := Some e\<rparr>
               in with_conn c (\<lambda>u.
                 let c = (if m_socket c = None then init_socket c else c);
                     c = enqueue_response_plea now (clear_response_pleas now c)
                 in (Returned, emit (Async_Connect e) (c\<lparr>m_solution_submitted_max_id := 0, m_socket := Some True\<rparr>)))
           | [] \<Rightarrow> with_conn (c\<lparr>m_connecting := False\<rparr>) (\<lambda>u.
                disconnect_finalize now (c\<lparr>m_connecting := False\<rparr>)))"

definition pop_endpoint ::
    "stratum_client \<Rightarrow> (stratum_client \<Rightarrow> call_exit \<times> stratum_client) \<Rightarrow> call_exit \<times> stratum_client" where
  "pop_endpoint c k = (if m_endpoints c = [] then (Empty_Pop, c) else k (c\<lparr>m_endpoints := tl (m_endpoints c)\<rparr>))"

text \<open>The first request on a new connection, after the choice of the flavour.\<close>

definition choose_mode :: "uri \<Rightarrow> uri" where
  "choose_mode u =
     (if uri_Version u < 999 then setStratumMode (word_of_nat (uri_Version u)) True u
      else if \<not> u_stratumModeConfirmed u \<and> u_stratumMode u = 999 then setStratumMode 3 False u
      else u)"

definition login_request :: "'j jsoncpp \<Rightarrow> string \<Rightarrow> uri \<Rightarrow> 'j" where
  "login_request jc project u =
     (let jReq = j_build jc (j_null jc)
            [(''id'', j_of_uint jc 1), (''method'', j_of_string jc ''mining.subscribe''), (''params'', j_array jc)]
      in if u_stratumMode u = 0 then j_build jc jReq [(''jsonrpc'', j_of_string jc ''2.0'')]
         else if u_stratumMode u = 1 then
           j_build jc jReq
             ((''method'', j_of_string jc ''eth_submitLogin'') #
              (if u_worker u \<noteq> [] then [(''worker'', j_of_string jc (u_worker u))] else []) @
              [(''params'', j_list jc (j_of_string jc (u_user u @ u_path u) #
                  (if u_password u \<noteq> [] then [j_of_string jc (u_password u)] else [])))])
         else if u_stratumMode u = 2 then
           j_build jc jReq
             [(''params'', j_list jc [j_of_string jc project, j_of_string jc ''EthereumStratum/1.0.0''])]
         else if u_stratumMode u = 3 then
           j_build jc jReq
             [(''method'', j_of_string jc ''mining.hello''),
              (''params'', j_build jc (j_null jc)
                 [(''agent'', j_of_string jc project), (''host'', j_of_string jc (u_host u)),
                  (''port'', j_of_string jc (toCompactHex32 (ucast (u_port u)) DontAdd)),
                  (''proto'', j_of_string jc ''EthereumStratum/2.0.0'')])]
         else jReq)"

text \<open>\<open>hec\<close> is the error of the handshake of a secure connection.\<close>

definition connect_handler ::
    "'j jsoncpp \<Rightarrow> string \<Rightarrow> bool \<Rightarrow> bool \<Rightarrow> nat \<Rightarrow> stratum_client \<Rightarrow> call_exit \<times> stratum_client" where
  "connect_handler jc project ec hec now c =
     (let c = c\<lparr>m_connecting := False\<rparr>
      in deref (m_socket c) c (\<lambda>is_open.
        if ec \<or> \<not> is_open then
          pop_endpoint (c\<lparr>m_socket := Some False\<rparr>) (\<lambda>c. (Returned, emit Post_Start_Connect c))
        else with_conn c (\<lambda>u.
          let c = (on_conn (\<lambda>u. u\<lparr>u_responds := True\<rparr>) c)
                  \<lparr>m_connected := True, m_message := [], m_txQueue := []\<rparr>
          in if uri_SecLevel u \<noteq> SecNone \<and> hec
             then (Returned, emit Post_Disconnect (markUnrecoverable c))
             else
               let c = on_conn choose_mode (clear_response_pleas now (c\<lparr>m_sendBuffer := drop 4096 (m_sendBuffer c)\<rparr>));
                   c = enqueue_response_plea now (emit Async_Read c)
               in (Returned, send jc (login_request jc project (choose_mode (u\<lparr>u_responds := True\<rparr>))) c))))"

subsection \<open>The timer\<close>

text \<open>A wait is aborted when the timer is set again. The checks of the timer; a result \<open>False\<close> says that the handler returns without setting the timer again.\<close>

definition keep_alive :: "'j jsoncpp \<Rightarrow> nat \<Rightarrow> uri \<Rightarrow> stratum_client \<Rightarrow> stratum_client" where
  "keep_alive jc now u c =
     (case m_session c of
        Some s \<Rightarrow>
          if u_stratumMode u = 3 \<and> int ((now - lastTxStamp s) div 1000000000) > sint (s_timeout s) - 5
          then send jc (j_build jc (j_null jc)
                 [(''id'', j_of_uint jc 7), (''method'', j_of_string jc ''mining.noop'')]) c
          else c
      | None \<Rightarrow> c)"

definition check_pending :: "nat \<Rightarrow> uri \<Rightarrow> stratum_client \<Rightarrow> bool \<times> call_exit \<times> stratum_client" where
  "check_pending now u c =
     (if isPendingState c \<and>
         m_responsetimeout c * 1000 \<ge> int ((now - m_response_plea_older c) div 1000000) then
        if m_connecting c then (False, deref (m_socket c) c (\<lambda>_. (Returned, c\<lparr>m_socket := Some False\<rparr>)))
        else if uri_SecLevel u \<noteq> SecNone \<and> m_socket c = Some True
        then (False, Returned, c\<lparr>m_socket := Some False\<rparr>)
        else (True, Returned, c)
      else (True, Returned, c))"

definition check_connected :: "nat \<Rightarrow> uri \<Rightarrow> stratum_client \<Rightarrow> bool \<times> call_exit \<times> stratum_client" where
  "check_connected now u c =
     (let give_up = (True, pop_endpoint c (\<lambda>c. (Returned, emit Post_Disconnect (clear_response_pleas now c))))
      in if \<not> isConnected c then (True, Returned, c)
         else if int ((now - m_response_plea_older c) div 1000000) \<ge> m_responsetimeout c * 1000 then
           if \<not> u_stratumModeConfirmed u \<and> \<not> u_unrecoverable u
           then (False, Returned, emit Post_Login_Failed (clear_response_pleas now c))
           else give_up
         else if m_session c \<noteq> None \<and> int ((now - m_current_timestamp c) div 1000000000) > m_worktimeout c
         then give_up
         else (True, Returned, c))"

definition workloop_timer_elapsed ::
    "'j jsoncpp \<Rightarrow> bool \<Rightarrow> nat \<Rightarrow> stratum_client \<Rightarrow> call_exit \<times> stratum_client" where
  "workloop_timer_elapsed jc aborted now c =
     (if aborted then (Returned, c)
      else case m_conn c of
          None \<Rightarrow> (Returned, c\<lparr>m_workloop_timer := False\<rparr>)
        | Some u \<Rightarrow>
               let c = keep_alive jc now u (c\<lparr>m_workloop_timer := False\<rparr>);
                   (again, e, c) =
                     (if m_response_pleas_count c \<noteq> 0 then
                        case check_pending now u c of
                          (again, e, c) \<Rightarrow>
                            if again \<and> e = Returned then check_connected now u c else (again, e, c)
                      else (True, Returned, c))
               in (e, if again \<and> e = Returned then c\<lparr>m_workloop_timer := True\<rparr> else c))"

section \<open>Response times\<close>

lemma enqueue_response_pleas:
  assumes "length ts \<le> queue_size"
  shows "let c' = fold enqueue_response_plea ts (clear_response_pleas t c) in
    m_response_pleas_count c' = int (length ts) \<and> m_response_plea_times c' = ts \<and>
    (ts \<noteq> [] \<longrightarrow> m_response_plea_older c' = hd ts)"
  using assms
proof (induction ts rule: rev_induct)
  case (snoc x ts)
  then show ?case
    by (cases ts) (auto simp: enqueue_response_plea_def bounded_push_def Let_def)
qed (simp add: clear_response_pleas_def)

text \<open>The plea whose time the response number \<open>i\<close> is measured against.\<close>

definition measured_from :: "nat list \<Rightarrow> nat \<Rightarrow> nat" where
  "measured_from ts i = ts ! (i - 1)"

lemma dequeue_response_pleas:
  assumes "ts \<noteq> []" and "m_response_pleas_count c = int (length ts)" and "m_response_plea_times c = ts"
    and "m_response_plea_older c = hd ts"
  shows "let c' = fold (\<lambda>now c. snd (dequeue_response_plea now c)) rs c in
    m_response_pleas_count c' = int (length ts - length rs) \<and> m_response_plea_times c' = drop (length rs) ts \<and>
    (length rs \<le> length ts \<longrightarrow> m_response_plea_older c' = measured_from ts (length rs))"
proof (induction rs rule: rev_induct)
  case Nil
  then show ?case using assms by (simp add: measured_from_def hd_conv_nth)
next
  case (snoc r rs)
  let ?c = "fold (\<lambda>now c. snd (dequeue_response_plea now c)) rs c"
  have ih: "m_response_pleas_count ?c = int (length ts - length rs)"
    "m_response_plea_times ?c = drop (length rs) ts" using snoc by (simp_all add: Let_def)
  show ?case
  proof (cases "length rs < length ts")
    case True
    then have "drop (length rs) ts = ts ! length rs # drop (Suc (length rs)) ts" by (rule Cons_nth_drop_Suc [symmetric])
    with True ih show ?thesis by (simp add: dequeue_response_plea_def Let_def measured_from_def)
  next
    case False
    with ih show ?thesis by (simp add: dequeue_response_plea_def Let_def)
  qed
qed

text \<open>C33. For up to 64 requests that were sent one after the other, every response is counted off once, and a
  response that nobody waits for counts as immediate. The time reported for the first response is the
  time since the first request; the time reported for a later one is measured from the request before
  the one it answers.\<close>

theorem response_delays:
  fixes c :: stratum_client
  assumes "ts \<noteq> []" and "length ts \<le> queue_size"
  shows "let waiting = fold enqueue_response_plea ts (clear_response_pleas t c);
      (delay, c') = dequeue_response_plea now (fold (\<lambda>now c. snd (dequeue_response_plea now c)) rs waiting)
    in m_response_pleas_count c' = int (length ts - Suc (length rs)) \<and>
       delay = (if length rs < length ts then (now - measured_from ts (length rs)) div 1000000 else 0)"
proof -
  let ?w = "fold enqueue_response_plea ts (clear_response_pleas t c)"
  let ?d = "fold (\<lambda>now c. snd (dequeue_response_plea now c)) rs ?w"
  have "m_response_pleas_count ?w = int (length ts)" "m_response_plea_times ?w = ts"
    "m_response_plea_older ?w = hd ts"
    using enqueue_response_pleas [OF assms(2), of t c] assms(1) by (simp_all add: Let_def)
  note d = dequeue_response_pleas [OF assms(1) this, of rs]
  have count: "m_response_pleas_count ?d = int (length ts - length rs)"
    and times: "m_response_plea_times ?d = drop (length rs) ts" using d by (simp_all add: Let_def)
  show ?thesis
  proof (cases "length rs < length ts")
    case True
    then have "drop (length rs) ts = ts ! length rs # drop (Suc (length rs)) ts" by (rule Cons_nth_drop_Suc [symmetric])
    with True d count times show ?thesis by (simp add: dequeue_response_plea_def Let_def)
  next
    case False
    with count times show ?thesis by (simp add: dequeue_response_plea_def Let_def)
  qed
qed

text \<open>Two requests, at 1 and at 5 seconds; the response to the second, at 6 seconds, is reported as 5 seconds old.\<close>

theorem response_delays_witness:
  "let c = stratum_new 180 2 0 0;
       waiting = fold enqueue_response_plea [1000000000, 5000000000] (clear_response_pleas 0 c)
   in fst (dequeue_response_plea 6000000000 (snd (dequeue_response_plea 5500000000 waiting))) = 5000"
  using response_delays [of "[1000000000, 5000000000]" 0 "stratum_new 180 2 0 0" 6000000000 "[5500000000]"]
  by (simp add: queue_size_def measured_from_def Let_def split_beta)

end
