(* ===== verification/Stratum_Protocol.thy ===== *)
theory Stratum_Protocol
  imports Stratum_Connection
begin

text \<open>
  The messages of the class \<open>EthStratumClient\<close> of \<^verbatim>\<open>libpool/stratum/EthStratumClient.cpp\<close>: the lines of the
  received data, the responses and notifications of the pool for the four flavours of the protocol, and
  the submission of solutions and of the hash rate. The library for JSON, the conversions between
  difficulties and targets, and the project name are arguments. The lemmas show when work is taken over,
  that it is well formed, how the received data is cut into messages, and that the digits of the nonce
  that are submitted complete those the pool has prescribed.
\<close>

section \<open>The C++ routines\<close>

text \<open>
  The conversions of \<^verbatim>\<open>libdev/CommonData.cpp\<close> that compute with doubles and with the big integers of boost.
\<close>

record numerics =
  getHashesToTarget :: "string \<Rightarrow> std_error + double_bits"
  getTargetFromDiff :: "double_bits \<Rightarrow> std_error + string"
  double_max :: "double_bits \<Rightarrow> double_bits \<Rightarrow> double_bits"

definition double_nonzero :: "double_bits \<Rightarrow> bool" where
  "double_nonzero d \<longleftrightarrow> d \<noteq> 0 \<and> d \<noteq> 0x8000000000000000"

text \<open>The double nearest to 0.0001.\<close>

definition min_difficulty :: double_bits where "min_difficulty = 0x3F1A36E2EB1C432D"

definition isSubscribed :: "stratum_client \<Rightarrow> bool" where
  "isSubscribed c = session_isSubscribed (m_session c)"

definition isAuthorized :: "stratum_client \<Rightarrow> bool" where
  "isAuthorized c = session_isAuthorized (m_session c)"

definition startSession :: "nat \<Rightarrow> stratum_client \<Rightarrow> stratum_client" where
  "startSession now c = emit On_Connected (c\<lparr>m_session := Some (session_new now), m_current_timestamp := now\<rparr>)"

text \<open>The text of an error; the response is returned as well, since reading a member may insert it.\<close>

fun error_elements :: "'j jsoncpp \<Rightarrow> 'j list \<Rightarrow> string \<Rightarrow> std_error + string" where
  "error_elements jc [] acc = Inr acc"
| "error_elements jc (v # vs) acc =
     bind_sum (j_asString jc v) (\<lambda>s. error_elements jc vs (acc @ s @ '' ''))"

fun error_members :: "'j jsoncpp \<Rightarrow> (string \<times> 'j) list \<Rightarrow> string \<Rightarrow> std_error + string" where
  "error_members jc [] acc = Inr acc"
| "error_members jc ((k, v) # ms) acc =
     bind_sum (j_asString jc v) (\<lambda>s. error_members jc ms (acc @ k @ '':'' @ s @ '' ''))"

definition processError :: "'j jsoncpp \<Rightarrow> 'j \<Rightarrow> std_error + string \<times> 'j" where
  "processError jc obj =
     bind_sum (j_isMember jc obj ''error'') (\<lambda>member.
     bind_sum (if member then bind_sum (j_get jc obj ''error'' (j_null jc)) (\<lambda>e. Inr (\<not> j_isNull jc e)) else Inr False)
       (\<lambda>has_error.
     if \<not> has_error then Inr (''Unknown error'', obj)
     else
       bind_sum (j_at jc obj ''error'') (\<lambda>(obj, e).
       if j_isConvertibleTo jc e String_Value then
         bind_sum (j_get jc obj ''error'' (j_of_string jc ''Unknown error'')) (\<lambda>e.
         bind_sum (j_asString jc e) (\<lambda>s. Inr (s, obj)))
       else if j_isConvertibleTo jc e Array_Value then
         bind_sum (error_elements jc (j_elements jc e) []) (\<lambda>s. Inr (s, obj))
       else if j_isConvertibleTo jc e Object_Value then
         bind_sum (error_members jc (j_members jc e) []) (\<lambda>s. Inr (s, obj))
       else Inr ([], obj))))"

text \<open>\<open>resize\<close> of a string: cut to the length, or filled up with the character.\<close>

definition resize :: "nat \<Rightarrow> char \<Rightarrow> string \<Rightarrow> string" where
  "resize n x s = take n s @ replicate (n - length s) x"

definition processExtranonce :: "string \<Rightarrow> stratum_client \<Rightarrow> call_exit \<times> stratum_client" where
  "processExtranonce enonce c =
     with_session c (\<lambda>s.
       let c = on_session (\<lambda>s. s\<lparr>extraNonceSizeBytes := word_of_nat (length enonce)\<rparr>) c
       in require (stoull16 (resize 16 CHR ''0'' enonce)) c (\<lambda>n.
            (Returned, on_session (\<lambda>s. s\<lparr>extraNonce := n\<rparr>) c)))"

subsection \<open>The response to the login\<close>

definition post_disconnect :: "stratum_client \<Rightarrow> call_exit \<times> stratum_client" where
  "post_disconnect c = (Returned, emit Post_Disconnect c)"

definition login_failed :: "uri \<Rightarrow> stratum_client \<Rightarrow> call_exit \<times> stratum_client" where
  "login_failed u c = post_disconnect (if u_stratumModeConfirmed u then markUnrecoverable c else c)"

definition confirm_mode :: "u16 \<Rightarrow> nat \<Rightarrow> stratum_client \<Rightarrow> stratum_client" where
  "confirm_mode mode now c = startSession now (on_conn (setStratumMode mode True) c)"

fun all_members :: "'j jsoncpp \<Rightarrow> 'j \<Rightarrow> string list \<Rightarrow> std_error + bool" where
  "all_members jc v [] = Inr True"
| "all_members jc v (k # ks) =
     bind_sum (j_isMember jc v k) (\<lambda>member. if member then all_members jc v ks else Inr False)"

text \<open>Whether the result of \<open>mining.hello\<close> or \<open>mining.subscribe\<close> is the one of the flavour.\<close>

definition hello_accepted :: "'j jsoncpp \<Rightarrow> 'j \<Rightarrow> std_error + bool" where
  "hello_accepted jc jResult =
     (if \<not> j_isConvertibleTo jc jResult Object_Value then Inr False
      else
        bind_sum (j_isMember jc jResult ''proto'') (\<lambda>member.
        if \<not> member then Inr False
        else
          bind_sum (j_at jc jResult ''proto'') (\<lambda>(jResult, proto).
          bind_sum (j_asString jc proto) (\<lambda>s.
          if s \<noteq> ''EthereumStratum/2.0.0'' then Inr False
          else all_members jc jResult [''encoding'', ''resume'', ''timeout'', ''maxerrors'', ''node'']))))"

definition nicehash_accepted :: "'j jsoncpp \<Rightarrow> 'j \<Rightarrow> std_error + bool \<times> 'j" where
  "nicehash_accepted jc jResult =
     (if \<not> j_isArray jc jResult then Inr (False, jResult)
      else
        bind_sum (j_at_index jc jResult 0) (\<lambda>(jResult, first).
        if \<not> (j_isArray jc first \<and> j_size jc first = 3) then Inr (False, jResult)
        else bind_sum (j_index_string jc first 2) (\<lambda>s. Inr (s = ''EthereumStratum/1.0.0'', jResult))))"

definition authorize_params :: "'j jsoncpp \<Rightarrow> uri \<Rightarrow> 'j" where
  "authorize_params jc u =
     j_list jc [j_of_string jc (userDotWorker u @ u_path u), j_of_string jc (u_password u)]"

definition login_stratum2 :: "'j jsoncpp \<Rightarrow> 'j \<Rightarrow> nat \<Rightarrow> uri \<Rightarrow> stratum_client \<Rightarrow> call_exit \<times> stratum_client" where
  "login_stratum2 jc jResult now u c =
     require (hello_accepted jc jResult) c (\<lambda>ok.
       if ok then
         (Returned, send jc
            (j_build jc (j_null jc) [(''id'', j_of_uint jc 2), (''method'', j_of_string jc ''mining.subscribe'')])
            (enqueue_response_plea now (confirm_mode 3 now c)))
       else login_failed u c)"

definition login_nicehash :: "'j jsoncpp \<Rightarrow> 'j \<Rightarrow> nat \<Rightarrow> uri \<Rightarrow> stratum_client \<Rightarrow> call_exit \<times> stratum_client" where
  "login_nicehash jc jResult now u c =
     require (nicehash_accepted jc jResult) c (\<lambda>(ok, jResult).
       if ok then
         let c = on_session (\<lambda>s. s\<lparr>subscribed := True\<rparr>) (confirm_mode 2 now c);
             jReq = j_build jc (j_null jc)
               [(''id'', j_of_uint jc 2), (''method'', j_of_string jc ''mining.extranonce.subscribe''),
                (''params'', j_array jc)];
             c = send jc jReq c
         in require (j_index_string jc jResult 1) c (\<lambda>enonce.
            andThen (if enonce \<noteq> [] then processExtranonce enonce c else (Returned, c)) (\<lambda>c.
              (Returned, send jc
                 (j_build jc jReq
                    [(''id'', j_of_uint jc 3), (''method'', j_of_string jc ''mining.authorize''),
                     (''params'', authorize_params jc u)])
                 (enqueue_response_plea now (c\<lparr>m_authpending := True\<rparr>)))))
       else login_failed u c)"

definition login_ethproxy :: "'j jsoncpp \<Rightarrow> bool \<Rightarrow> nat \<Rightarrow> uri \<Rightarrow> stratum_client \<Rightarrow> call_exit \<times> stratum_client" where
  "login_ethproxy jc isSuccess now u c =
     (if isSuccess then
        (Returned, send jc
           (j_build jc (j_null jc)
              [(''id'', j_of_uint jc 5), (''method'', j_of_string jc ''eth_getWork''), (''params'', j_array jc)])
           (on_session (\<lambda>s. s\<lparr>subscribed := True, authorized := True\<rparr>) (confirm_mode 1 now c)))
      else login_failed u c)"

definition login_stratum :: "'j jsoncpp \<Rightarrow> bool \<Rightarrow> nat \<Rightarrow> uri \<Rightarrow> stratum_client \<Rightarrow> call_exit \<times> stratum_client" where
  "login_stratum jc isSuccess now u c =
     (if isSuccess then
        (Returned, send jc
           (j_build jc (j_null jc)
              [(''id'', j_of_uint jc 3), (''jsonrpc'', j_of_string jc ''2.0''),
               (''method'', j_of_string jc ''mining.authorize''), (''params'', authorize_params jc u)])
           (enqueue_response_plea now
              ((on_session (\<lambda>s. s\<lparr>subscribed := True\<rparr>) (confirm_mode 0 now c))\<lparr>m_authpending := True\<rparr>)))
      else login_failed u c)"

definition response_login ::
    "'j jsoncpp \<Rightarrow> bool \<Rightarrow> 'j \<Rightarrow> nat \<Rightarrow> uri \<Rightarrow> stratum_client \<Rightarrow> call_exit \<times> stratum_client" where
  "response_login jc isSuccess jResult now u c =
     (let c = snd (dequeue_response_plea now c)
      in if \<not> isSuccess \<and> \<not> u_stratumModeConfirmed u then post_disconnect c
         else if u_stratumMode u = 3 then login_stratum2 jc jResult now u c
         else if u_stratumMode u = 2 then login_nicehash jc jResult now u c
         else if u_stratumMode u = 1 then login_ethproxy jc isSuccess now u c
         else if u_stratumMode u = 0 then login_stratum jc isSuccess now u c
         else (Returned, send jc (j_null jc) c))"

subsection \<open>Other responses\<close>

definition non_empty_string :: "'j jsoncpp \<Rightarrow> 'j \<Rightarrow> std_error + bool" where
  "non_empty_string jc v =
     (if j_isString jc v then bind_sum (j_asString jc v) (\<lambda>s. Inr (s \<noteq> [])) else Inr False)"

definition response_subscribe ::
    "'j jsoncpp \<Rightarrow> 'j \<Rightarrow> nat \<Rightarrow> uri \<Rightarrow> stratum_client \<Rightarrow> call_exit \<times> stratum_client" where
  "response_subscribe jc jResult now u c =
     (if u_stratumMode u \<noteq> 3 then (Returned, c)
      else
        let c = snd (dequeue_response_plea now c)
        in require (non_empty_string jc jResult) c (\<lambda>ok.
           if \<not> ok then post_disconnect (markUnrecoverable c)
           else require (j_asString jc jResult) c (\<lambda>sid.
             with_session c (\<lambda>s.
               let c = (on_session (\<lambda>s. s\<lparr>sessionId := sid, subscribed := True\<rparr>) c)\<lparr>m_authpending := True\<rparr>
               in (Returned, send jc
                    (j_build jc (j_null jc)
                       [(''id'', j_of_uint jc 3), (''method'', j_of_string jc ''mining.authorize''),
                        (''params'', authorize_params jc u)])
                    (enqueue_response_plea now c))))))"

text \<open>The success of a response whose result may be a truth value.\<close>

definition result_success :: "'j jsoncpp \<Rightarrow> bool \<Rightarrow> 'j \<Rightarrow> std_error + bool" where
  "result_success jc isSuccess jResult =
     (if isSuccess \<and> j_isBool jc jResult then j_asBool jc jResult else Inr isSuccess)"

definition response_authorize ::
    "'j jsoncpp \<Rightarrow> bool \<Rightarrow> 'j \<Rightarrow> nat \<Rightarrow> uri \<Rightarrow> stratum_client \<Rightarrow> call_exit \<times> stratum_client" where
  "response_authorize jc isSuccess jResult now u c =
     (let c = snd (dequeue_response_plea now c)
      in require (result_success jc isSuccess jResult) c (\<lambda>ok.
           let c = c\<lparr>m_authpending := False\<rparr>
           in with_session c (\<lambda>s.
                let c = on_session (\<lambda>s. s\<lparr>authorized := ok\<rparr>) c
                in if \<not> isAuthorized c then post_disconnect (markUnrecoverable c) else (Returned, c))))"

definition response_authorize2 ::
    "'j jsoncpp \<Rightarrow> bool \<Rightarrow> 'j \<Rightarrow> nat \<Rightarrow> uri \<Rightarrow> stratum_client \<Rightarrow> call_exit \<times> stratum_client" where
  "response_authorize2 jc isSuccess jResult now u c =
     (let c = snd (dequeue_response_plea now c)
      in require (if isSuccess then non_empty_string jc jResult else Inr False) c (\<lambda>ok.
           if \<not> ok then post_disconnect (markUnrecoverable c)
           else
             let c = c\<lparr>m_authpending := False\<rparr>
             in with_session c (\<lambda>s.
                  let c = on_session (\<lambda>s. s\<lparr>authorized := True\<rparr>) c
                  in require (j_asString jc jResult) c (\<lambda>w.
                       (Returned, on_session (\<lambda>s. s\<lparr>workerId := w\<rparr>) c)))))"

definition answer_solution :: "nat \<Rightarrow> u32 \<Rightarrow> bool \<Rightarrow> bool \<Rightarrow> stratum_client \<Rightarrow> call_exit \<times> stratum_client" where
  "answer_solution delay rid ok stale c =
     (Returned, emit (if ok then On_Accepted delay (rid - 40) stale else On_Rejected delay (rid - 40)) c)"

definition response_submit ::
    "'j jsoncpp \<Rightarrow> bool \<Rightarrow> 'j \<Rightarrow> u32 \<Rightarrow> nat \<Rightarrow> stratum_client \<Rightarrow> call_exit \<times> stratum_client" where
  "response_submit jc isSuccess jResult rid now c =
     (let (delay, c) = dequeue_response_plea now c
      in require (result_success jc isSuccess jResult) c (\<lambda>ok. answer_solution delay rid ok False c))"

definition response_submit2 ::
    "'j jsoncpp \<Rightarrow> bool \<Rightarrow> 'j \<Rightarrow> u32 \<Rightarrow> nat \<Rightarrow> stratum_client \<Rightarrow> call_exit \<times> stratum_client" where
  "response_submit2 jc isSuccess obj rid now c =
     (let (delay, c) = dequeue_response_plea now c
      in if isSuccess then answer_solution delay rid True False c
         else require (bind_sum (j_at jc obj ''error'') (\<lambda>(obj, e). j_get_string jc e ''code'')) c (\<lambda>errCode.
                let stale = (take 1 errCode = ''2'') in answer_solution delay rid stale stale c))"

definition response_999 :: "bool \<Rightarrow> uri \<Rightarrow> stratum_client \<Rightarrow> call_exit \<times> stratum_client" where
  "response_999 isSuccess u c =
     (if isSuccess then (Returned, c)
      else if \<not> u_stratumModeConfirmed u then post_disconnect c
      else if \<not> isSubscribed c \<or> \<not> isAuthorized c then post_disconnect c
      else (Returned, c))"

subsection \<open>Notifications\<close>

definition on_current :: "(work_package \<Rightarrow> work_package) \<Rightarrow> stratum_client \<Rightarrow> stratum_client" where
  "on_current f c = c\<lparr>m_current := f (m_current c)\<rparr>"

text \<open>The difficulty of the work: the one the pool has announced, or the one that its boundary amounts to.\<close>

definition finish_job :: "numerics \<Rightarrow> nat \<Rightarrow> stratum_client \<Rightarrow> call_exit \<times> stratum_client" where
  "finish_job num now c =
     (let c = c\<lparr>m_current_timestamp := now\<rparr> in
      with_session c (\<lambda>s.
       require (if double_nonzero (nextWorkDifficulty s) then Inr (nextWorkDifficulty s)
                else getHashesToTarget num (fixed_hash_hex Add (wp_boundary (m_current c)))) c (\<lambda>d.
         (Returned, (on_current (\<lambda>w. w\<lparr>wp_difficulty := d\<rparr>) c)\<lparr>m_newjobprocessed := True\<rparr>))))"

definition job_nicehash :: "'j jsoncpp \<Rightarrow> numerics \<Rightarrow> 'j \<Rightarrow> nat \<Rightarrow> stratum_client \<Rightarrow> call_exit \<times> stratum_client" where
  "job_nicehash jc num jPrm now c =
     require (j_index_string jc jPrm 1) c (\<lambda>sSeedHash.
     require (j_index_string jc jPrm 2) c (\<lambda>sHeaderHash.
       if sHeaderHash = [] \<or> sSeedHash = [] then (Returned, c)
       else
         require (h256_of_string sSeedHash) c (\<lambda>seed.
           let c = on_current (\<lambda>w. w\<lparr>wp_seed := seed\<rparr>) c
           in require (h256_of_string sHeaderHash) c (\<lambda>header.
             let c = on_current (\<lambda>w. w\<lparr>wp_header := header\<rparr>) c
             in with_session c (\<lambda>s.
                  finish_job num now
                    (on_current (\<lambda>w. w\<lparr>wp_boundary := nextWorkBoundary s, wp_startNonce := extraNonce s,
                         wp_exSizeBytes := ucast (extraNonceSizeBytes s), wp_block := -1\<rparr>) c))))))"

text \<open>
  The block number that some pools add: its value as an \<open>int\<close>, and whether it is out of the range that
  is considered possible, in which case a pointer to an exception is thrown.
\<close>

definition parse_block :: "'j jsoncpp \<Rightarrow> 'j \<Rightarrow> nat \<Rightarrow> int \<times> bool" where
  "parse_block jc jPrm i =
     (case bind_sum (j_index_string jc jPrm i) stoull16 of
        Inl e \<Rightarrow> (-1, False)
      | Inr v \<Rightarrow> let b = sint (ucast v :: u32) in (b, b > 0x9660180))"

definition has_block :: "'j jsoncpp \<Rightarrow> 'j \<Rightarrow> nat \<Rightarrow> uri \<Rightarrow> std_error + bool" where
  "has_block jc jPrm i u =
     (if u_stratumMode u = 1 \<and> j_size jc jPrm > i
      then bind_sum (j_index_string jc jPrm i) (\<lambda>s. Inr (take 2 s = ''0x'')) else Inr False)"

text \<open>Short targets are filled up with zeros behind the prefix.\<close>

definition fill_target :: "string \<Rightarrow> std_error + string" where
  "fill_target t =
     (if length t \<ge> 66 then Inr t
      else if length t < 2 then Inl Out_Of_Range
      else Inr (''0x'' @ replicate (66 - length t) CHR ''0'' @ drop 2 t))"

definition job_plain ::
    "'j jsoncpp \<Rightarrow> numerics \<Rightarrow> 'j \<Rightarrow> nat \<Rightarrow> nat \<Rightarrow> uri \<Rightarrow> stratum_client \<Rightarrow> call_exit \<times> stratum_client" where
  "job_plain jc num jPrm prmIdx now u c =
     require (j_index_string jc jPrm prmIdx) c (\<lambda>sHeaderHash.
     require (j_index_string jc jPrm (prmIdx + 1)) c (\<lambda>sSeedHash.
     require (j_index_string jc jPrm (prmIdx + 2)) c (\<lambda>sShareTarget.
       let c = on_current (\<lambda>w. w\<lparr>wp_block := -1\<rparr>) c
       in require (has_block jc jPrm (prmIdx + 3) u) c (\<lambda>has.
          let (b, bad) = (if has then parse_block jc jPrm (prmIdx + 3) else (-1, False));
              c = on_current (\<lambda>w. w\<lparr>wp_block := b\<rparr>) c
          in if bad then (Threw_Pointer, c)
             else
               require (fill_target sShareTarget) c (\<lambda>target.
               require (h256_of_string sSeedHash) c (\<lambda>seed.
               let c = on_current (\<lambda>w. w\<lparr>wp_seed := seed\<rparr>) c
               in require (h256_of_string sHeaderHash) c (\<lambda>header.
               let c = on_current (\<lambda>w. w\<lparr>wp_header := header\<rparr>) c
               in require (h256_of_string target) c (\<lambda>boundary.
               finish_job num now (on_current (\<lambda>w. w\<lparr>wp_boundary := boundary\<rparr>) c)))))))))"

definition notify ::
    "'j jsoncpp \<Rightarrow> numerics \<Rightarrow> 'j \<Rightarrow> nat \<Rightarrow> uri \<Rightarrow> stratum_client \<Rightarrow> call_exit \<times> stratum_client" where
  "notify jc num obj now u c =
     (if \<not> isSubscribed c \<or> m_newjobprocessed c then (Returned, c)
      else
        require (if u_stratumMode u = 1 then j_isMember jc obj ''result'' else Inr False) c (\<lambda>in_result.
        require (j_get jc obj (if in_result then ''result'' else ''params'') (j_null jc)) c (\<lambda>jPrm.
          if \<not> j_isArray jc jPrm \<or> j_empty jc jPrm then (Returned, c)
          else
            require (j_index_string jc jPrm 0) c (\<lambda>job.
              let c = on_current (\<lambda>w. w\<lparr>wp_job := job\<rparr>) c
              in if u_stratumMode u = 2 then job_nicehash jc num jPrm now c
                 else job_plain jc num jPrm (if in_result then 0 else 1) now u c))))"

text \<open>The member \<open>params\<close> is read once here, where the code reads it repeatedly.\<close>

definition notify2 ::
    "'j jsoncpp \<Rightarrow> numerics \<Rightarrow> 'j \<Rightarrow> nat \<Rightarrow> stratum_client \<Rightarrow> call_exit \<times> stratum_client" where
  "notify2 jc num obj now c =
     (if m_session c = None \<or> \<not> firstMiningSet (the (m_session c)) then (Returned, c)
      else
        require (j_isMember jc obj ''params'') c (\<lambda>member.
          if \<not> member then (Returned, c)
          else
            require (j_at jc obj ''params'') c (\<lambda>(obj, jPrm).
              if \<not> j_isArray jc jPrm \<or> j_empty jc jPrm \<or> j_size jc jPrm \<noteq> 4 then (Returned, c)
              else
                require (j_index_string jc jPrm 0) c (\<lambda>job.
                let c = on_current (\<lambda>w. w\<lparr>wp_job := job\<rparr>) c
                in require (bind_sum (j_index_string jc jPrm 1) stoull16) c (\<lambda>block.
                let c = on_current (\<lambda>w. w\<lparr>wp_block := sint (ucast block :: u32)\<rparr>) c
                in require (j_index_string jc jPrm 2) c (\<lambda>hdr.
                require (h256_of_string (''0x'' @ padLeft hdr 64 CHR ''0'')) c (\<lambda>header.
                let c = on_current (\<lambda>w. w\<lparr>wp_header := header\<rparr>) c
                in with_session c (\<lambda>s.
                require (h256_of_string (fixed_hash_hex Add (nextWorkBoundary s))) c (\<lambda>boundary.
                finish_job num now
                  (on_current (\<lambda>w. w\<lparr>wp_boundary := boundary, wp_epoch := sint (s_epoch s),
                       wp_startNonce := extraNonce s, wp_exSizeBytes := ucast (extraNonceSizeBytes s)\<rparr>) c))))))))))"

definition set_target :: "'j jsoncpp \<Rightarrow> 'j \<Rightarrow> stratum_client \<Rightarrow> call_exit \<times> stratum_client" where
  "set_target jc obj c =
     require (j_get jc obj ''params'' (j_null jc)) c (\<lambda>jPrm.
       if \<not> j_isArray jc jPrm then (Returned, c)
       else
         require (bind_sum (j_at_index jc jPrm 0) (\<lambda>(jPrm, v). j_asString jc v)) c (\<lambda>target.
         require (h256_of_string (''0x'' @ padLeft target 64 CHR ''0'')) c (\<lambda>boundary.
         with_session c (\<lambda>s. (Returned, on_session (\<lambda>s. s\<lparr>nextWorkBoundary := boundary\<rparr>) c)))))"

text \<open>Only the branch for the flavour of the enclosing condition can be reached.\<close>

definition set_difficulty :: "'j jsoncpp \<Rightarrow> numerics \<Rightarrow> 'j \<Rightarrow> stratum_client \<Rightarrow> call_exit \<times> stratum_client" where
  "set_difficulty jc num obj c =
     require (j_get jc obj ''params'' (j_null jc)) c (\<lambda>jPrm.
       if \<not> j_isArray jc jPrm then (Returned, c)
       else
         require (bind_sum (j_get_index jc jPrm 0 (j_of_int jc 1)) (j_asDouble jc)) c (\<lambda>d.
           let d = double_max num d min_difficulty
           in require (bind_sum (getTargetFromDiff num d) h256_of_string) c (\<lambda>boundary.
              with_session c (\<lambda>s.
                (Returned, on_session (\<lambda>s. s\<lparr>nextWorkBoundary := boundary, nextWorkDifficulty := d\<rparr>) c)))))"

definition set_extranonce :: "'j jsoncpp \<Rightarrow> 'j \<Rightarrow> stratum_client \<Rightarrow> call_exit \<times> stratum_client" where
  "set_extranonce jc obj c =
     require (j_get jc obj ''params'' (j_null jc)) c (\<lambda>jPrm.
       if \<not> j_isArray jc jPrm then (Returned, c)
       else require (j_index_string jc jPrm 0) c (\<lambda>enonce.
         if enonce \<noteq> [] then processExtranonce enonce c else (Returned, c)))"

definition mining_set_timeout :: "string \<Rightarrow> stratum_client \<Rightarrow> call_exit \<times> stratum_client" where
  "mining_set_timeout t c =
     (if t = [] then (Returned, c)
      else require (stoi16 t) c (\<lambda>i. (Returned, on_session (\<lambda>s. s\<lparr>s_timeout := word_of_int i\<rparr>) c)))"

definition mining_set_epoch :: "string \<Rightarrow> stratum_client \<Rightarrow> call_exit \<times> stratum_client" where
  "mining_set_epoch e c =
     (if e = [] then (Returned, c)
      else require (stoull16 e) c (\<lambda>v. (Returned, on_session (\<lambda>s. s\<lparr>s_epoch := ucast v\<rparr>) c)))"

definition mining_set_target :: "numerics \<Rightarrow> string \<Rightarrow> stratum_client \<Rightarrow> call_exit \<times> stratum_client" where
  "mining_set_target num t c =
     (if t = [] then (Returned, c)
      else
        require (h256_of_string (''0x'' @ padLeft t 64 CHR ''0'')) c (\<lambda>boundary.
          let c = on_session (\<lambda>s. s\<lparr>nextWorkBoundary := boundary\<rparr>) c
          in require (getHashesToTarget num (fixed_hash_hex Add boundary)) c (\<lambda>d.
               (Returned, on_session (\<lambda>s. s\<lparr>nextWorkDifficulty := d\<rparr>) c))))"

definition mining_set :: "'j jsoncpp \<Rightarrow> numerics \<Rightarrow> 'j \<Rightarrow> stratum_client \<Rightarrow> call_exit \<times> stratum_client" where
  "mining_set jc num obj c =
     require (j_isMember jc obj ''params'') c (\<lambda>member.
       if \<not> member then (Returned, c)
       else
         require (j_at jc obj ''params'') c (\<lambda>(obj, jPrm).
           if \<not> j_isObject jc jPrm \<or> j_empty jc jPrm then (Returned, c)
           else
             with_session c (\<lambda>s.
               let c = on_session (\<lambda>s. s\<lparr>firstMiningSet := True\<rparr>) c
               in require (j_get_string jc jPrm ''timeout'') c (\<lambda>timeout.
                  require (j_get_string jc jPrm ''epoch'') c (\<lambda>epoch.
                  require (j_get_string jc jPrm ''target'') c (\<lambda>target.
                  andThen (mining_set_timeout timeout c) (\<lambda>c.
                  andThen (mining_set_epoch epoch c) (\<lambda>c.
                  andThen (mining_set_target num target c) (\<lambda>c.
                  require (j_get_string jc jPrm ''extranonce'') c (\<lambda>enonce.
                  if enonce \<noteq> [] then processExtranonce enonce c else (Returned, c)))))))))))"

definition get_version :: "'j jsoncpp \<Rightarrow> string \<Rightarrow> nat \<Rightarrow> u32 \<Rightarrow> stratum_client \<Rightarrow> call_exit \<times> stratum_client" where
  "get_version jc project rpcVer rid c =
     (Returned, send jc
        (j_build jc (j_null jc)
           [(''id'', j_of_uint jc rid), (''result'', j_of_string jc project),
            if rpcVer = 1 then (''error'', j_null jc) else (''jsonrpc'', j_of_string jc ''2.0'')]) c)"

definition unknown_method :: "'j jsoncpp \<Rightarrow> nat \<Rightarrow> u32 \<Rightarrow> stratum_client \<Rightarrow> call_exit \<times> stratum_client" where
  "unknown_method jc rpcVer rid c =
     (Returned, send jc
        (j_build jc (j_null jc)
           ((if rpcVer = 2 then [(''jsonrpc'', j_of_string jc ''2.0'')] else []) @
            [(''id'', j_of_uint jc rid), (''error'', j_of_string jc ''Method not found'')])) c)"

definition process_notification ::
    "'j jsoncpp \<Rightarrow> numerics \<Rightarrow> string \<Rightarrow> string \<Rightarrow> nat \<Rightarrow> u32 \<Rightarrow> 'j \<Rightarrow> nat \<Rightarrow> uri \<Rightarrow> stratum_client \<Rightarrow>
     call_exit \<times> stratum_client" where
  "process_notification jc num project meth rpcVer rid obj now u c =
     (if \<not> u_stratumModeConfirmed u then (Returned, c)
      else if meth = ''mining.notify'' \<and> u_stratumMode u \<noteq> 3 then notify jc num obj now u c
      else if meth = ''mining.notify'' then notify2 jc num obj now c
      else if meth = ''mining.set_target'' then set_target jc obj c
      else if meth = ''mining.set_difficulty'' \<and> u_stratumMode u = 2 then set_difficulty jc num obj c
      else if meth = ''mining.set_extranonce'' \<and> u_stratumMode u = 2 then set_extranonce jc obj c
      else if meth = ''mining.set'' \<and> u_stratumMode u = 3 then mining_set jc num obj c
      else if meth = ''mining.bye'' \<and> u_stratumMode u = 3 then post_disconnect c
      else if meth = ''client.get_version'' then get_version jc project rpcVer rid c
      else unknown_method jc rpcVer rid c)"

subsection \<open>Messages\<close>

record 'j message =
  rpcVer :: nat
  msg_id :: u32
  isSuccess :: bool
  errReason :: string
  msg_method :: string
  isNotification :: bool
  msg_object :: 'j

text \<open>The essential values of a message. A push of work in the flavour of eth-proxy has no method.\<close>

definition read_message :: "'j jsoncpp \<Rightarrow> uri \<Rightarrow> 'j \<Rightarrow> std_error + 'j message" where
  "read_message jc u obj =
     bind_sum (j_isMember jc obj ''jsonrpc'') (\<lambda>rpc.
     bind_sum (bind_sum (j_get jc obj ''id'' (j_of_uint jc 0)) (j_asUInt jc)) (\<lambda>i.
     bind_sum (j_get jc obj ''error'' (j_null jc)) (\<lambda>err.
     bind_sum (if j_empty jc err then Inr ([], obj) else processError jc obj) (\<lambda>(reason, obj).
     bind_sum (j_get_string jc obj ''method'') (\<lambda>meth.
       let m = \<lparr>rpcVer = if rpc then 2 else 1, msg_id = i, isSuccess = j_empty jc err, errReason = reason,
                msg_method = meth, isNotification = (meth \<noteq> [] \<or> i = 0), msg_object = obj\<rparr>
       in if isNotification m \<and> meth = [] \<and> u_stratumMode u = 1
          then bind_sum (j_at jc obj ''result'') (\<lambda>(obj, r).
                 Inr (m\<lparr>msg_method := if j_isArray jc r then ''mining.notify'' else meth, msg_object := obj\<rparr>))
          else Inr m)))))"

definition bad_version :: "'j jsoncpp \<Rightarrow> 'j message \<Rightarrow> std_error + bool \<times> 'j" where
  "bad_version jc m =
     (if rpcVer m = 2
      then bind_sum (j_at jc (msg_object m) ''jsonrpc'') (\<lambda>(obj, v).
             if \<not> j_isString jc v then Inr (True, obj)
             else bind_sum (j_get jc obj ''jsonrpc'' (j_of_string jc [])) (\<lambda>w.
                    Inr (\<not> j_equal jc w (j_of_string jc ''2.0''), obj)))
      else Inr (False, msg_object m))"

definition no_content :: "'j jsoncpp \<Rightarrow> 'j message \<Rightarrow> std_error + bool \<times> 'j" where
  "no_content jc m =
     (if isNotification m
      then bind_sum (j_at jc (msg_object m) ''params'') (\<lambda>(obj, p).
             if \<not> j_empty jc p then Inr (False, obj)
             else bind_sum (j_at jc obj ''result'') (\<lambda>(obj, r). Inr (j_empty jc r, obj)))
      else Inr (False, msg_object m))"

definition process_reply ::
    "'j jsoncpp \<Rightarrow> 'j message \<Rightarrow> nat \<Rightarrow> uri \<Rightarrow> stratum_client \<Rightarrow> call_exit \<times> stratum_client" where
  "process_reply jc m now u c =
     (let i = msg_id m; obj = msg_object m; submitted = (40 \<le> i \<and> i \<le> m_solution_submitted_max_id c)
      in require (j_get jc obj ''result'' (j_null jc)) c (\<lambda>jResult.
           if i = 1 then response_login jc (isSuccess m) jResult now u c
           else if i = 2 then response_subscribe jc jResult now u c
           else if i = 3 \<and> u_stratumMode u \<noteq> 3 then response_authorize jc (isSuccess m) jResult now u c
           else if i = 3 then response_authorize2 jc (isSuccess m) jResult now u c
           else if submitted \<and> u_stratumMode u \<noteq> 3 then response_submit jc (isSuccess m) jResult i now c
           else if submitted then response_submit2 jc (isSuccess m) obj i now c
           else if i = 999 then response_999 (isSuccess m) u c
           else (Returned, c)))"

text \<open>The response to the first request for work of the flavour of eth-proxy is taken for a notification.\<close>

definition is_first_work :: "'j jsoncpp \<Rightarrow> 'j message \<Rightarrow> uri \<Rightarrow> std_error + bool \<times> 'j" where
  "is_first_work jc m u =
     (if u_stratumMode u = 1
      then bind_sum (j_at jc (msg_object m) ''result'') (\<lambda>(obj, r). Inr (j_isArray jc r, obj))
      else Inr (False, msg_object m))"

text \<open>Without a connection the code fails at its first use, the model at once.\<close>

definition processResponse ::
    "'j jsoncpp \<Rightarrow> numerics \<Rightarrow> string \<Rightarrow> 'j \<Rightarrow> nat \<Rightarrow> stratum_client \<Rightarrow> call_exit \<times> stratum_client" where
  "processResponse jc num project obj now c =
     with_conn c (\<lambda>u.
     require (read_message jc u obj) c (\<lambda>m.
     require (bad_version jc m) c (\<lambda>(bad, obj).
     let m = m\<lparr>msg_object := obj\<rparr> in
     if bad then post_disconnect c
     else
       require (no_content jc m) c (\<lambda>(none, obj).
       let m = m\<lparr>msg_object := obj\<rparr> in
       if none then post_disconnect c
       else if isNotification m then
         process_notification jc num project (msg_method m) (rpcVer m) (msg_id m) obj now u c
       else if msg_id m = 5 then
         require (j_get jc obj ''result'' (j_null jc)) c (\<lambda>_.
         require (is_first_work jc m u) c (\<lambda>(first, obj).
           if first then process_notification jc num project ''mining.notify'' (rpcVer m) 5 obj now u c
           else (Returned, c)))
       else process_reply jc m now u c))))"

subsection \<open>Received data\<close>

text \<open>
  A line; an exception of a class derived from \<open>std::exception\<close> is caught, everything else is not.
\<close>

definition process_line ::
    "'j jsoncpp \<Rightarrow> numerics \<Rightarrow> string \<Rightarrow> string \<Rightarrow> nat \<Rightarrow> stratum_client \<Rightarrow> call_exit \<times> stratum_client" where
  "process_line jc num project line now c =
     (let line = trim line
      in if line = [] then (Returned, c)
         else case j_parse jc line of
             None \<Rightarrow> (Returned, c)
           | Some jMsg \<Rightarrow>
               (case processResponse jc num project jMsg now c of
                  (Threw e, c) \<Rightarrow> (Returned, c)
                | r \<Rightarrow> r))"

text \<open>
  The code erases every line from \<open>m_message\<close> once it is processed. Processing a line does not look at
  \<open>m_message\<close>, so the model keeps the rest of the text beside the state and stores it at the end.
\<close>

function process_lines ::
    "'j jsoncpp \<Rightarrow> numerics \<Rightarrow> string \<Rightarrow> string \<Rightarrow> nat \<Rightarrow> stratum_client \<Rightarrow> call_exit \<times> stratum_client" where
  "process_lines jc num project text now c =
     (case split_first (CHR 10) text of
        None \<Rightarrow> (Returned, c\<lparr>m_message := text\<rparr>)
      | Some (line, rest) \<Rightarrow>
          (case process_line jc num project line now c of
             (e, c) \<Rightarrow> if e = Returned then process_lines jc num project rest now c
                        else (e, c\<lparr>m_message := text\<rparr>)))"
  by auto

termination
  by (relation "measure (\<lambda>(jc, num, project, text, now, c). length text)") (auto dest: split_first_length)

declare process_lines.simps [simp del]

definition onRecvSocketDataCompleted ::
    "'j jsoncpp \<Rightarrow> numerics \<Rightarrow> string \<Rightarrow> bool \<Rightarrow> string \<Rightarrow> nat \<Rightarrow> stratum_client \<Rightarrow> call_exit \<times> stratum_client" where
  "onRecvSocketDataCompleted jc num project ec rx_message now c =
     (if \<not> ec then
        andThen (process_lines jc num project (m_message c @ rx_message) now (c\<lparr>m_newjobprocessed := False\<rparr>))
          (\<lambda>c. let c = (if m_newjobprocessed c then emit (On_Work (m_current c)) c else c)
               in (Returned, if isConnected c then emit Async_Read c else c))
      else if isConnected c then
        (if m_authpending c then with_conn c (\<lambda>u. post_disconnect (markUnrecoverable c)) else post_disconnect c)
      else (Returned, c))"

subsection \<open>Submissions\<close>

definition submitHashrate :: "'j jsoncpp \<Rightarrow> u64 \<Rightarrow> string \<Rightarrow> stratum_client \<Rightarrow> call_exit \<times> stratum_client" where
  "submitHashrate jc rate ident c =
     (if \<not> isConnected c then (Returned, c)
      else with_conn c (\<lambda>u.
        let jReq = j_build jc (j_null jc) [(''id'', j_of_uint jc 9), (''params'', j_array jc)]
        in if u_stratumMode u \<noteq> 3 then
             (Returned, send jc
                (j_build jc jReq
                   ((''jsonrpc'', j_of_string jc ''2.0'') #
                    (if u_worker u \<noteq> [] then [(''worker'', j_of_string jc (u_worker u))] else []) @
                    [(''method'', j_of_string jc ''eth_submitHashrate''),
                     (''params'', j_list jc [j_of_string jc (toHex_u64 rate Add 32), j_of_string jc ident])])) c)
           else with_session c (\<lambda>s.
             (Returned, send jc
                (j_build jc jReq
                   [(''method'', j_of_string jc ''mining.hashrate''),
                    (''params'', j_list jc [j_of_string jc (toCompactHex rate DontAdd), j_of_string jc (workerId s)])]) c))))"

text \<open>The digits of the nonce behind those that the pool has prescribed.\<close>

definition nonce_digits :: "solution \<Rightarrow> std_error + string" where
  "nonce_digits sol =
     (let n = toHex_u64 (s_nonce sol) DontAdd 16; k = unat (wp_exSizeBytes (s_work sol))
      in if k > length n then Inl Out_Of_Range else Inr (drop k n))"

definition submit_params :: "'j jsoncpp \<Rightarrow> solution \<Rightarrow> uri \<Rightarrow> session \<Rightarrow> std_error + 'j list" where
  "submit_params jc sol u s =
     (let header = fixed_hash_hex Add (wp_header (s_work sol)); mix = fixed_hash_hex Add (s_mixHash sol);
          nonce = toHex_u64 (s_nonce sol) Add 16; str = map (j_of_string jc)
      in if u_stratumMode u = 0 then Inr (str [u_user u, wp_job (s_work sol), nonce, header, mix])
         else if u_stratumMode u = 1 then Inr (str [nonce, header, mix])
         else if u_stratumMode u = 2 then
           bind_sum (nonce_digits sol) (\<lambda>ds. Inr (str [userDotWorker u, wp_job (s_work sol), ds]))
         else if u_stratumMode u = 3 then
           bind_sum (nonce_digits sol) (\<lambda>ds. Inr (str [wp_job (s_work sol), ds, workerId s]))
         else Inr [])"

definition submit_request :: "'j jsoncpp \<Rightarrow> solution \<Rightarrow> uri \<Rightarrow> session \<Rightarrow> std_error + 'j" where
  "submit_request jc sol u s =
     bind_sum (submit_params jc sol u s) (\<lambda>params.
       Inr (j_build jc (j_null jc)
         ([(''id'', j_of_uint jc (40 + word_of_nat (s_midx sol))), (''method'', j_of_string jc ''mining.submit''),
           (''params'', j_array jc)] @
          (if u_stratumMode u = 0 then [(''jsonrpc'', j_of_string jc ''2.0'')] else []) @
          (if u_stratumMode u = 1 then [(''method'', j_of_string jc ''eth_submitWork'')] else []) @
          [(''params'', j_list jc params)] @
          (if u_stratumMode u \<le> 1 \<and> u_worker u \<noteq> [] then [(''worker'', j_of_string jc (u_worker u))] else []))))"

definition submitSolution :: "'j jsoncpp \<Rightarrow> solution \<Rightarrow> nat \<Rightarrow> stratum_client \<Rightarrow> call_exit \<times> stratum_client" where
  "submitSolution jc sol now c =
     (if \<not> isAuthorized c then (Returned, c)
      else
        let c = c\<lparr>m_solution_submitted_max_id := max (m_solution_submitted_max_id c) (40 + word_of_nat (s_midx sol))\<rparr>
        in with_conn c (\<lambda>u. with_session c (\<lambda>s.
             require (submit_request jc sol u s) c (\<lambda>jReq.
               (Returned, send jc jReq (enqueue_response_plea now c))))))"

end
