(* ===== verification/Json_Example.thy ===== *)
theory Json_Example
  imports Pool_Client
begin

text \<open>
  A library for JSON with the documented behaviour on the values that the program uses. It shows that the
  record \<open>jsoncpp\<close> can be instantiated and serves in the examples; the models do not depend on it. The
  parser is an argument.
\<close>

datatype json = J_Null | J_Bool bool | J_Int int | J_String string | J_Array "json list" | J_Object "(string \<times> json) list"

fun lookup :: "string \<Rightarrow> (string \<times> json) list \<Rightarrow> json option" where
  "lookup k [] = None"
| "lookup k ((k', v) # ms) = (if k = k' then Some v else lookup k ms)"

fun update :: "string \<Rightarrow> json \<Rightarrow> (string \<times> json) list \<Rightarrow> (string \<times> json) list" where
  "update k v [] = [(k, v)]"
| "update k v ((k', w) # ms) = (if k = k' then (k, v) # ms else (k', w) # update k v ms)"

fun members :: "json \<Rightarrow> std_error + (string \<times> json) list" where
  "members (J_Object ms) = Inr ms"
| "members J_Null = Inr []"
| "members v = Inl Json_Error"

fun elements :: "json \<Rightarrow> std_error + json list" where
  "elements (J_Array vs) = Inr vs"
| "elements J_Null = Inr []"
| "elements v = Inl Json_Error"

fun json_string :: "json \<Rightarrow> std_error + string" where
  "json_string J_Null = Inr []"
| "json_string (J_Bool b) = Inr (if b then ''true'' else ''false'')"
| "json_string (J_Int i) = Inr (if i < 0 then ''-'' @ decimal (nat (- i)) else decimal (nat i))"
| "json_string (J_String s) = Inr s"
| "json_string v = Inl Json_Error"

fun json_write :: "json \<Rightarrow> string" and json_writes :: "json list \<Rightarrow> string"
  and json_write_members :: "(string \<times> json) list \<Rightarrow> string" where
  "json_write J_Null = ''null''"
| "json_write (J_Bool b) = (if b then ''true'' else ''false'')"
| "json_write (J_Int i) = (if i < 0 then ''-'' @ decimal (nat (- i)) else decimal (nat i))"
| "json_write (J_String s) = [CHR 34] @ s @ [CHR 34]"
| "json_write (J_Array vs) = ''['' @ json_writes vs @ '']''"
| "json_write (J_Object ms) = ''{'' @ json_write_members ms @ ''}''"
| "json_writes [] = []"
| "json_writes (v # vs) = json_write v @ (if vs = [] then [] else '','') @ json_writes vs"
| "json_write_members [] = []"
| "json_write_members ((k, v) # ms) =
     [CHR 34] @ k @ [CHR 34] @ '':'' @ json_write v @ (if ms = [] then [] else '','') @ json_write_members ms"

definition json_at :: "json \<Rightarrow> string \<Rightarrow> std_error + json \<times> json" where
  "json_at v k =
     bind_sum (members v) (\<lambda>ms. case lookup k ms of
       Some w \<Rightarrow> Inr (v, w) | None \<Rightarrow> Inr (J_Object (ms @ [(k, J_Null)]), J_Null))"

definition json_at_index :: "json \<Rightarrow> nat \<Rightarrow> std_error + json \<times> json" where
  "json_at_index v i =
     bind_sum (elements v) (\<lambda>vs.
       if i < length vs then Inr (v, vs ! i)
       else Inr (J_Array (vs @ replicate (i + 1 - length vs) J_Null), J_Null))"

definition json_library :: "(string \<Rightarrow> json option) \<Rightarrow> json jsoncpp" where
  "json_library parse =
     \<lparr>j_null = J_Null, j_of_uint = (\<lambda>w. J_Int (uint w)), j_of_int = J_Int, j_of_string = J_String,
      j_of_bool = J_Bool, j_of_double = (\<lambda>d. J_Int 0), j_array = J_Array [],
      j_set = (\<lambda>v k w. case members v of Inr ms \<Rightarrow> J_Object (update k w ms) | Inl e \<Rightarrow> v),
      j_append = (\<lambda>v w. case elements v of Inr vs \<Rightarrow> J_Array (vs @ [w]) | Inl e \<Rightarrow> v),
      j_isMember = (\<lambda>v k. bind_sum (members v) (\<lambda>ms. Inr (lookup k ms \<noteq> None))),
      j_get = (\<lambda>v k d. bind_sum (members v) (\<lambda>ms. Inr (case lookup k ms of Some w \<Rightarrow> w | None \<Rightarrow> d))),
      j_get_index = (\<lambda>v i d. bind_sum (elements v) (\<lambda>vs. Inr (if i < length vs then vs ! i else d))),
      j_at = json_at, j_at_index = json_at_index, j_equal = (=),
      j_isArray = (\<lambda>v. case v of J_Array vs \<Rightarrow> True | _ \<Rightarrow> False),
      j_isObject = (\<lambda>v. case v of J_Object ms \<Rightarrow> True | _ \<Rightarrow> False),
      j_isString = (\<lambda>v. case v of J_String s \<Rightarrow> True | _ \<Rightarrow> False),
      j_isBool = (\<lambda>v. case v of J_Bool b \<Rightarrow> True | _ \<Rightarrow> False),
      j_isUInt = (\<lambda>v. case v of J_Int i \<Rightarrow> 0 \<le> i \<and> i < 2 ^ 32 | _ \<Rightarrow> False),
      j_isNull = (\<lambda>v. v = J_Null),
      j_empty = (\<lambda>v. v = J_Null \<or> v = J_Array [] \<or> v = J_Object []),
      j_size = (\<lambda>v. case v of J_Array vs \<Rightarrow> length vs | J_Object ms \<Rightarrow> length ms | _ \<Rightarrow> 0),
      j_isConvertibleTo = (\<lambda>v t. case t of
          String_Value \<Rightarrow> (case v of J_Array vs \<Rightarrow> False | J_Object ms \<Rightarrow> False | _ \<Rightarrow> True)
        | Array_Value \<Rightarrow> (case v of J_Array vs \<Rightarrow> True | J_Null \<Rightarrow> True | _ \<Rightarrow> False)
        | Object_Value \<Rightarrow> (case v of J_Object ms \<Rightarrow> True | J_Null \<Rightarrow> True | _ \<Rightarrow> False)),
      j_asString = json_string,
      j_asUInt = (\<lambda>v. case v of J_Int i \<Rightarrow> if 0 \<le> i \<and> i < 2 ^ 32 then Inr (word_of_int i) else Inl Json_Error
                  | J_Null \<Rightarrow> Inr 0 | _ \<Rightarrow> Inl Json_Error),
      j_asBool = (\<lambda>v. case v of J_Bool b \<Rightarrow> Inr b | J_Null \<Rightarrow> Inr False | _ \<Rightarrow> Inl Json_Error),
      j_asDouble = (\<lambda>v. Inl Json_Error),
      j_elements = (\<lambda>v. case v of J_Array vs \<Rightarrow> vs | _ \<Rightarrow> []),
      j_members = (\<lambda>v. case v of J_Object ms \<Rightarrow> ms | _ \<Rightarrow> []),
      j_parse = parse, j_write = json_write\<rparr>"

lemma json_library_parse [simp]: "j_parse (json_library parse) = parse"
  by (simp add: json_library_def)

end
