(* ===== verification/Stratum_Safety.thy ===== *)
theory Stratum_Safety
  imports Stratum_Protocol Json_Example
begin

text \<open>
  The properties of the client for the stratum protocols: the detection of the flavour ends, received
  data is cut into the messages that were sent however it arrives, the work that is taken over is well
  formed, and work and authorizations are taken over only in the states in which the protocol allows it.
  They hold for every behaviour of the library for JSON.
\<close>

section \<open>Detection of the flavour\<close>

text \<open>
  A round of the detection: the connection is established, the first request is sent, and the pool
  closes the connection.
\<close>

definition rejected_round :: "'j jsoncpp \<Rightarrow> numerics \<Rightarrow> string \<Rightarrow> nat \<Rightarrow> stratum_client \<Rightarrow> stratum_client" where
  "rejected_round jc num project now c =
     (let c = snd (start_connect now c);
          c = snd (connect_handler jc project False False now c);
          c = snd (onRecvSocketDataCompleted jc num project True [] now c)
      in snd (disconnect now c))"

definition is_write :: "client_effect \<Rightarrow> bool" where
  "is_write e = (case e of Async_Write b \<Rightarrow> True | _ \<Rightarrow> False)"

text \<open>The effects other than the messages that are written.\<close>

definition steps_of :: "stratum_client \<Rightarrow> client_effect list" where
  "steps_of c = filter (\<lambda>e. \<not> is_write e) (sc_effects c)"

definition probing :: "endpoint \<Rightarrow> u16 \<Rightarrow> stratum_client \<Rightarrow> bool" where
  "probing e mode c \<longleftrightarrow>
     (\<exists>u es. m_conn c = Some u \<and> uri_Version u = 999 \<and> uri_SecLevel u = SecNone \<and>
        u_stratumMode (choose_mode u) = mode \<and> \<not> u_stratumModeConfirmed u \<and> \<not> u_unrecoverable u \<and>
        m_endpoints c = e # es \<and> \<not> m_connecting c \<and> \<not> m_disconnecting c \<and> \<not> m_authpending c)"

lemma steps_of_send: "steps_of (send jc v c) = steps_of c"
  by (simp add: steps_of_def send_def sendSocketData_def Let_def emit_def is_write_def)

lemma send_fields [simp]:
  "m_conn (send jc v c) = m_conn c" "m_session (send jc v c) = m_session c"
  "m_current (send jc v c) = m_current c" "m_newjobprocessed (send jc v c) = m_newjobprocessed c"
  "m_endpoints (send jc v c) = m_endpoints c" "m_connecting (send jc v c) = m_connecting c"
  "m_disconnecting (send jc v c) = m_disconnecting c" "m_authpending (send jc v c) = m_authpending c"
  "m_connected (send jc v c) = m_connected c" "m_socket (send jc v c) = m_socket c"
  by (simp_all add: send_def sendSocketData_def Let_def emit_def)

lemma uri_table_simps [simp]:
  "uri_Version (u\<lparr>u_responds := r\<rparr>) = uri_Version u" "uri_Version (u\<lparr>u_stratumMode := m\<rparr>) = uri_Version u"
  "uri_Version (u\<lparr>u_totalDuration := d\<rparr>) = uri_Version u" "uri_Version (setStratumMode m b u) = uri_Version u"
  "uri_SecLevel (u\<lparr>u_responds := r\<rparr>) = uri_SecLevel u" "uri_SecLevel (u\<lparr>u_stratumMode := m\<rparr>) = uri_SecLevel u"
  "uri_SecLevel (u\<lparr>u_totalDuration := d\<rparr>) = uri_SecLevel u" "uri_SecLevel (setStratumMode m b u) = uri_SecLevel u"
  "uri_Version (u\<lparr>u_stratumModeConfirmed := r\<rparr>) = uri_Version u"
  "uri_SecLevel (u\<lparr>u_stratumModeConfirmed := r\<rparr>) = uri_SecLevel u"
  "uri_Version (u\<lparr>u_unrecoverable := r\<rparr>) = uri_Version u" "uri_SecLevel (u\<lparr>u_unrecoverable := r\<rparr>) = uri_SecLevel u"
  by (simp_all add: uri_Version_def uri_SecLevel_def scheme_of_def setStratumMode_def)

lemmas connection_defs = start_connect_def connect_handler_def with_conn_def emit_def init_socket_def
  enqueue_response_plea_def clear_response_pleas_def on_conn_def steps_of_def is_write_def Let_def

lemma start_connect_probing:
  fixes now :: nat
  assumes "m_conn c = Some u" and "m_endpoints c = e # es" and "\<not> m_connecting c"
  defines "c' \<equiv> snd (start_connect now c)"
  shows "m_conn c' = Some u" "m_endpoints c' = e # es" "m_socket c' = Some True"
    "m_disconnecting c' = m_disconnecting c" "m_authpending c' = m_authpending c" "m_session c' = m_session c"
    "steps_of c' = steps_of c @ [Async_Connect e]"
  using assms(1-3) unfolding c'_def by (simp_all add: connection_defs)

lemma connect_handler_probing:
  fixes jc :: "'j jsoncpp" and project :: string and hec :: bool and now :: nat
  assumes "m_conn c = Some u" and "uri_SecLevel u = SecNone" and "m_socket c = Some True"
  defines "c' \<equiv> snd (connect_handler jc project False hec now c)"
  shows "m_conn c' = Some (choose_mode (u\<lparr>u_responds := True\<rparr>))" "m_endpoints c' = m_endpoints c"
    "m_socket c' = Some True" "m_connected c'" "\<not> m_connecting c'"
    "m_disconnecting c' = m_disconnecting c" "m_authpending c' = m_authpending c" "m_session c' = m_session c"
    "steps_of c' = steps_of c @ [Async_Read]"
proof -
  obtain v d where "c' = send jc v d" "m_conn d = Some (choose_mode (u\<lparr>u_responds := True\<rparr>))"
      "m_endpoints d = m_endpoints c" "m_socket d = Some True" "m_connected d" "\<not> m_connecting d"
      "m_disconnecting d = m_disconnecting c" "m_authpending d = m_authpending c" "m_session d = m_session c"
      "steps_of d = steps_of c @ [Async_Read]"
    using assms(1-3) unfolding c'_def by (simp add: connection_defs)
  then show "m_conn c' = Some (choose_mode (u\<lparr>u_responds := True\<rparr>))" "m_endpoints c' = m_endpoints c"
    "m_socket c' = Some True" "m_connected c'" "\<not> m_connecting c'"
    "m_disconnecting c' = m_disconnecting c" "m_authpending c' = m_authpending c" "m_session c' = m_session c"
    "steps_of c' = steps_of c @ [Async_Read]"
    by (simp_all add: steps_of_send)
qed

lemma rejected_connection:
  assumes "m_conn c = Some u" and "uri_SecLevel u = SecNone" and "m_endpoints c = e # es"
    and "\<not> m_connecting c" and "\<not> m_disconnecting c" and "\<not> m_authpending c"
  obtains d where "rejected_round jc num project now c = snd (disconnect now d)"
    "m_conn d = Some (choose_mode (u\<lparr>u_responds := True\<rparr>))" "m_endpoints d = e # es" "\<not> m_connecting d"
    "\<not> m_disconnecting d" "\<not> m_authpending d" "m_socket d = Some True"
    "steps_of d = steps_of c @ [Async_Connect e, Async_Read, Post_Disconnect]"
proof -
  define s where "s = snd (start_connect now c)"
  define h where "h = snd (connect_handler jc project False False now s)"
  note s = start_connect_probing [OF assms(1,3,4), of now, folded s_def]
  note h = connect_handler_probing [OF s(1) assms(2) s(3), of jc project False now, folded h_def]
  have "isConnected h" using h s assms by (simp add: isConnected_def isPendingState_def)
  then have "onRecvSocketDataCompleted jc num project True [] now h = (Returned, emit Post_Disconnect h)"
    using h s assms by (simp add: onRecvSocketDataCompleted_def post_disconnect_def)
  then have "rejected_round jc num project now c = snd (disconnect now (emit Post_Disconnect h))"
    by (simp add: rejected_round_def s_def h_def Let_def)
  then show thesis using h s assms
    by (intro that [of "emit Post_Disconnect h"]) (simp_all add: emit_def steps_of_def is_write_def)
qed

lemma disconnect_probing:
  assumes "m_conn d = Some u" and "uri_SecLevel u = SecNone" and "\<not> m_disconnecting d" and "m_socket d = Some True"
    and "\<not> u_stratumModeConfirmed u" and "\<not> u_unrecoverable u" and "u_responds u"
  shows "steps_of (snd (disconnect now d)) =
      steps_of d @ [if u_stratumMode u > 0 then Post_Start_Connect else On_Disconnected]"
    "m_endpoints (snd (disconnect now d)) = m_endpoints d" "m_connecting (snd (disconnect now d)) = m_connecting d"
    "\<not> m_disconnecting (snd (disconnect now d))" "\<not> m_authpending (snd (disconnect now d))"
    "\<exists>v. m_conn (snd (disconnect now d)) = Some v \<and> uri_Version v = uri_Version u \<and> uri_SecLevel v = SecNone \<and>
       \<not> u_stratumModeConfirmed v \<and> u_unrecoverable v = (u_stratumMode u = 0) \<and>
       u_stratumMode v = (if u_stratumMode u > 0 then u_stratumMode u - 1 else 0)"
  using assms
  by (auto simp: disconnect_def disconnect_finalize_def with_conn_def Let_def on_conn_def emit_def steps_of_def is_write_def
      markUnrecoverable_def clear_response_pleas_def addDuration_def word_gt_0 split: option.splits)

lemma choose_mode_detect:
  assumes "uri_Version u = 999" and "\<not> u_stratumModeConfirmed u"
  shows "u_stratumMode (choose_mode (u\<lparr>u_responds := r\<rparr>)) = u_stratumMode (choose_mode u)"
    "uri_Version (choose_mode (u\<lparr>u_responds := r\<rparr>)) = 999"
    "uri_SecLevel (choose_mode (u\<lparr>u_responds := r\<rparr>)) = uri_SecLevel u"
    "\<not> u_stratumModeConfirmed (choose_mode (u\<lparr>u_responds := r\<rparr>))"
    "u_unrecoverable (choose_mode (u\<lparr>u_responds := r\<rparr>)) = u_unrecoverable u"
    "u_responds (choose_mode (u\<lparr>u_responds := r\<rparr>)) = r"
  using assms by (simp_all add: choose_mode_def setStratumMode_def)

lemma rejected_round_step:
  assumes "probing e mode c" and "mode \<le> 3"
  shows "steps_of (rejected_round jc num project now c) =
      steps_of c @ [Async_Connect e, Async_Read, Post_Disconnect, if mode > 0 then Post_Start_Connect else On_Disconnected]"
    and "mode > 0 \<Longrightarrow> probing e (mode - 1) (rejected_round jc num project now c)"
    and "mode = 0 \<Longrightarrow> \<exists>u. m_conn (rejected_round jc num project now c) = Some u \<and> u_unrecoverable u"
proof -
  obtain u es where u: "m_conn c = Some u" "uri_Version u = 999" "uri_SecLevel u = SecNone"
      "u_stratumMode (choose_mode u) = mode" "\<not> u_stratumModeConfirmed u" "\<not> u_unrecoverable u"
      "m_endpoints c = e # es" "\<not> m_connecting c" "\<not> m_disconnecting c" "\<not> m_authpending c"
    using assms(1) by (auto simp: probing_def)
  let ?v = "choose_mode (u\<lparr>u_responds := True\<rparr>)" and ?r = "rejected_round jc num project now c"
  note v = choose_mode_detect [OF u(2,5), of True]
  obtain d where d: "?r = snd (disconnect now d)" "m_conn d = Some ?v"
      "m_endpoints d = e # es" "\<not> m_connecting d" "\<not> m_disconnecting d" "\<not> m_authpending d" "m_socket d = Some True"
      "steps_of d = steps_of c @ [Async_Connect e, Async_Read, Post_Disconnect]"
    using rejected_connection [OF u(1,3,7-10)] by metis
  have "uri_SecLevel ?v = SecNone" "\<not> u_unrecoverable ?v" "u_responds ?v" using v u by simp_all
  note r = disconnect_probing [OF d(2) this(1) d(5,7) v(4) this(2,3), of now, folded d(1)]
  show "steps_of ?r = steps_of c @
      [Async_Connect e, Async_Read, Post_Disconnect, if mode > 0 then Post_Start_Connect else On_Disconnected]"
    using r(1) d(8) v(1) u(4) by simp
  obtain w where w: "m_conn ?r = Some w" "uri_Version w = 999" "uri_SecLevel w = SecNone"
      "\<not> u_stratumModeConfirmed w" "u_unrecoverable w = (mode = 0)"
      "u_stratumMode w = (if mode > 0 then mode - 1 else 0)"
    using r(6) v u by auto
  show "mode = 0 \<Longrightarrow> \<exists>u. m_conn ?r = Some u \<and> u_unrecoverable u" using w by auto
  show "probing e (mode - 1) ?r" if "mode > 0"
  proof -
    have "mode \<noteq> 1000" using assms(2) by auto
    then have "mode - 1 \<noteq> 999" by (simp add: diff_eq_eq)
    then have "u_stratumMode (choose_mode w) = mode - 1" using w that by (simp add: choose_mode_def)
    then show ?thesis using w r d that by (auto simp: probing_def word_gt_0)
  qed
qed

text \<open>C34. If the flavour of the protocol is to be detected and the pool closes every connection, the client
  connects exactly four times, once for each flavour, and then gives up: the connection is marked as
  unrecoverable and the pool manager is told.\<close>

theorem detection_ends:
  assumes "m_conn c = Some u" and "uri_Version u = 999" and "u_stratumMode u = 999" and "uri_SecLevel u = SecNone"
    and "\<not> u_stratumModeConfirmed u" and "\<not> u_unrecoverable u" and "m_endpoints c = e # es"
    and "\<not> m_connecting c" and "\<not> m_disconnecting c" and "\<not> m_authpending c"
  shows "let c' = (rejected_round jc num project now ^^ 4) c in
    steps_of c' = steps_of c @
      concat (replicate 3 [Async_Connect e, Async_Read, Post_Disconnect, Post_Start_Connect]) @
      [Async_Connect e, Async_Read, Post_Disconnect, On_Disconnected] \<and>
    (\<exists>v. m_conn c' = Some v \<and> u_unrecoverable v)"
proof -
  let ?r = "rejected_round jc num project now"
  note steps = rejected_round_step(1) [where jc = jc and num = num and project = project and now = now]
  note step = rejected_round_step(2) [where jc = jc and num = num and project = project and now = now]
  have p3: "probing e 3 c" using assms by (simp add: probing_def choose_mode_def setStratumMode_def)
  have p2: "probing e 2 (?r c)" using step [OF p3] by simp
  have p1: "probing e 1 (?r (?r c))" using step [OF p2] by simp
  have p0: "probing e 0 (?r (?r (?r c)))" using step [OF p1] by simp
  have "\<exists>v. m_conn (?r (?r (?r (?r c)))) = Some v \<and> u_unrecoverable v"
    using rejected_round_step(3) [OF p0] by simp
  moreover have "(?r ^^ 4) c = ?r (?r (?r (?r c)))" by (simp add: numeral_eq_Suc)
  moreover have "replicate 3 xs = [xs, xs, xs]" for xs :: "client_effect list" by (simp add: numeral_eq_Suc)
  moreover have "steps_of (?r c) = steps_of c @ [Async_Connect e, Async_Read, Post_Disconnect, Post_Start_Connect]"
    "steps_of (?r (?r c)) = steps_of (?r c) @ [Async_Connect e, Async_Read, Post_Disconnect, Post_Start_Connect]"
    "steps_of (?r (?r (?r c))) =
       steps_of (?r (?r c)) @ [Async_Connect e, Async_Read, Post_Disconnect, Post_Start_Connect]"
    "steps_of (?r (?r (?r (?r c)))) =
       steps_of (?r (?r (?r c))) @ [Async_Connect e, Async_Read, Post_Disconnect, On_Disconnected]"
    using steps [OF p3] steps [OF p2] steps [OF p1] steps [OF p0] by simp_all
  ultimately show ?thesis by (simp add: Let_def)
qed

text \<open>A connection whose flavour is to be detected, and a client for it.\<close>

definition uri_example :: uri where
  "uri_example = (uri_blank ''stratum://pool:4444'')
     \<lparr>u_scheme := ''stratum'', u_host := ''pool'', u_port := 4444\<rparr>"

definition client_example :: stratum_client where
  "client_example =
     (setConnection uri_example (stratum_new 180 2 0 0))\<lparr>m_endpoints := [(''10.0.0.1'', 4444)]\<rparr>"

definition numerics_example :: numerics where
  "numerics_example =
     \<lparr>getHashesToTarget = (\<lambda>s. Inr 1), getTargetFromDiff = (\<lambda>d. Inl Invalid_Argument), double_max = max\<rparr>"

lemma uri_example_simps [simp]:
  "uri_Version uri_example = 999" "uri_SecLevel uri_example = SecNone" "u_stratumMode uri_example = 999"
  "\<not> u_stratumModeConfirmed uri_example" "\<not> u_unrecoverable uri_example"
  "uri_example\<lparr>u_responds := False\<rparr> = uri_example"
  by (simp_all add: uri_example_def uri_blank_def uri_Version_def uri_SecLevel_def scheme_of_def s_schemes_def)

lemma client_example_simps [simp]:
  "m_conn client_example = Some uri_example" "m_endpoints client_example = [(''10.0.0.1'', 4444)]"
  "\<not> m_connecting client_example" "\<not> m_disconnecting client_example" "\<not> m_authpending client_example"
  "m_session client_example = None" "\<not> m_newjobprocessed client_example"
  "m_current client_example = work_package_default"
  by (simp_all add: client_example_def setConnection_def stratum_new_def clear_response_pleas_def)

theorem detection_ends_witness:
  "\<exists>v. m_conn ((rejected_round (json_library (\<lambda>s. None)) numerics_example ''etcminer'' 0 ^^ 4) client_example) = Some v \<and>
     u_unrecoverable v"
  using detection_ends [of client_example uri_example "(''10.0.0.1'', 4444)" "[]" "json_library (\<lambda>s. None)"
      numerics_example "''etcminer''" 0]
  by (simp add: Let_def)

section \<open>The state a message leaves behind\<close>

lemma client_frames [simp]:
  "m_conn (emit e c) = m_conn c" "m_session (emit e c) = m_session c"
  "m_current (emit e c) = m_current c" "m_newjobprocessed (emit e c) = m_newjobprocessed c"
  "m_conn (on_session f c) = m_conn c" "m_session (on_session f c) = map_option f (m_session c)"
  "m_current (on_session f c) = m_current c" "m_newjobprocessed (on_session f c) = m_newjobprocessed c"
  "m_conn (on_conn g c) = map_option g (m_conn c)" "m_session (on_conn g c) = m_session c"
  "m_current (on_conn g c) = m_current c" "m_newjobprocessed (on_conn g c) = m_newjobprocessed c"
  "m_conn (on_current h c) = m_conn c" "m_session (on_current h c) = m_session c"
  "m_current (on_current h c) = h (m_current c)" "m_newjobprocessed (on_current h c) = m_newjobprocessed c"
  "m_session (markUnrecoverable c) = m_session c" "m_current (markUnrecoverable c) = m_current c"
  "m_newjobprocessed (markUnrecoverable c) = m_newjobprocessed c"
  "m_conn (enqueue_response_plea now c) = m_conn c" "m_session (enqueue_response_plea now c) = m_session c"
  "m_current (enqueue_response_plea now c) = m_current c"
  "m_newjobprocessed (enqueue_response_plea now c) = m_newjobprocessed c"
  by (simp_all add: emit_def on_session_def on_conn_def on_current_def markUnrecoverable_def enqueue_response_plea_def Let_def)

lemma dequeue_frames [simp]:
  "m_conn (snd (dequeue_response_plea now c)) = m_conn c"
  "m_session (snd (dequeue_response_plea now c)) = m_session c"
  "m_current (snd (dequeue_response_plea now c)) = m_current c"
  "m_newjobprocessed (snd (dequeue_response_plea now c)) = m_newjobprocessed c"
  by (simp_all add: dequeue_response_plea_def Let_def split: list.splits)

lemma confirm_mode_frames [simp]:
  "m_session (confirm_mode mode now c) = Some (session_new now)" "m_current (confirm_mode mode now c) = m_current c"
  "m_newjobprocessed (confirm_mode mode now c) = m_newjobprocessed c"
  by (simp_all add: confirm_mode_def startSession_def)

text \<open>The work that was given to the pool manager.\<close>

fun work_of :: "client_effect \<Rightarrow> work_package option" where
  "work_of (On_Work w) = Some w"
| "work_of _ = None"

definition jobs :: "stratum_client \<Rightarrow> work_package list" where
  "jobs c = List.map_filter work_of (sc_effects c)"

lemma jobs_emit: "jobs (emit e c) = jobs c @ (case work_of e of None \<Rightarrow> [] | Some w \<Rightarrow> [w])"
  by (auto simp: jobs_def emit_def List.map_filter_def)

lemma jobs_frames [simp]:
  "jobs (on_session f c) = jobs c" "jobs (on_conn g c) = jobs c" "jobs (on_current h c) = jobs c"
  "jobs (markUnrecoverable c) = jobs c" "jobs (enqueue_response_plea now c) = jobs c"
  "jobs (snd (dequeue_response_plea now c)) = jobs c" "jobs (c\<lparr>m_authpending := p\<rparr>) = jobs c"
  "jobs (c\<lparr>m_current_timestamp := t\<rparr>) = jobs c" "jobs (c\<lparr>m_newjobprocessed := n\<rparr>) = jobs c"
  "jobs (c\<lparr>m_message := m\<rparr>) = jobs c"
  by (simp_all add: jobs_def on_session_def on_conn_def on_current_def markUnrecoverable_def enqueue_response_plea_def
      dequeue_response_plea_def Let_def split: list.splits)

lemma jobs_confirm_mode [simp]: "jobs (confirm_mode mode now c) = jobs c"
  by (simp add: confirm_mode_def startSession_def jobs_emit) (simp add: jobs_def on_conn_def)

lemma jobs_send [simp]: "jobs (send jc v c) = jobs c"
  by (simp add: send_def sendSocketData_def Let_def jobs_def emit_def List.map_filter_def)

text \<open>
  What holds of a message that brings no work: the work is untouched and the target that is kept for the
  next work has its 32 bytes. \<open>unauthorized\<close> says that no authorization is gained.
\<close>

definition session_ok :: "stratum_client \<Rightarrow> bool" where
  "session_ok c \<longleftrightarrow> (case m_session c of None \<Rightarrow> True | Some s \<Rightarrow> length (nextWorkBoundary s) = 32)"

definition same_work :: "stratum_client \<Rightarrow> stratum_client \<Rightarrow> bool" where
  "same_work b c \<longleftrightarrow>
     m_current c = m_current b \<and> m_newjobprocessed c = m_newjobprocessed b \<and> jobs c = jobs b \<and>
     (session_ok b \<longrightarrow> session_ok c)"

definition unauthorized :: "stratum_client \<Rightarrow> stratum_client \<Rightarrow> bool" where
  "unauthorized b c \<longleftrightarrow> (isAuthorized c \<longrightarrow> isAuthorized b)"

definition quiet :: "stratum_client \<Rightarrow> stratum_client \<Rightarrow> bool" where
  "quiet b c \<longleftrightarrow> same_work b c \<and> unauthorized b c"

lemmas quiet_defs = quiet_def same_work_def unauthorized_def session_ok_def isAuthorized_def

lemma quiet_refl [simp]: "quiet c c"
  by (simp add: quiet_defs)

lemma length_session_new [simp]: "length (nextWorkBoundary (session_new now)) = 32"
  "authorized (session_new now) = False"
  by (simp_all add: session_new_def)

lemma quiet_session:
  assumes "quiet b c" and "\<And>s. nextWorkBoundary (f s) = nextWorkBoundary s" and "\<And>s. authorized (f s) = authorized s"
  shows "quiet b (on_session f c)"
  using assms by (auto simp: quiet_defs split: option.splits)

lemma quiet_emit: "quiet b c \<Longrightarrow> work_of e = None \<Longrightarrow> quiet b (emit e c)"
  by (simp add: quiet_defs jobs_emit)

lemma quiet_frames:
  assumes "quiet b c"
  shows "quiet b (send jc v c)" "quiet b (enqueue_response_plea now c)"
    "quiet b (snd (dequeue_response_plea now c))" "quiet b (markUnrecoverable c)"
    "quiet b (c\<lparr>m_authpending := p\<rparr>)" "quiet b (confirm_mode mode now c)"
  using assms by (simp_all add: quiet_defs)

lemma post_disconnect_quiet: "quiet b c \<Longrightarrow> post (quiet b) (post_disconnect c)"
  by (simp add: post_disconnect_def post_return quiet_emit)

lemma login_failed_quiet: "quiet b c \<Longrightarrow> post (quiet b) (login_failed u c)"
  by (simp add: login_failed_def post_disconnect_quiet quiet_frames)

lemma processExtranonce_quiet: "quiet b c \<Longrightarrow> post (quiet b) (processExtranonce enonce c)"
  unfolding processExtranonce_def with_session_def Let_def
  by (intro post_rules quiet_session) simp_all

lemma length_h256: "h256_of_string t = Inr h \<Longrightarrow> length h = 32"
  by (auto simp: h256_of_string_def fixed_hash_of_string_def fixed_hash_of_bytes_def split: sum.splits if_splits)

lemma quiet_boundary:
  assumes "quiet b c" and "length h = 32" and "\<And>s. nextWorkBoundary (f s) = h" and "\<And>s. authorized (f s) = authorized s"
  shows "quiet b (on_session f c)"
  using assms by (auto simp: quiet_defs split: option.splits)

lemmas quiet_rules = post_rules post_andThen quiet_session quiet_emit quiet_frames post_disconnect_quiet login_failed_quiet
  processExtranonce_quiet

subsection \<open>Replies\<close>

lemma login_stratum2_quiet: "quiet b c \<Longrightarrow> post (quiet b) (login_stratum2 jc v now u c)"
  unfolding login_stratum2_def by (intro quiet_rules) simp_all

lemma login_nicehash_quiet: "quiet b c \<Longrightarrow> post (quiet b) (login_nicehash jc v now u c)"
  unfolding login_nicehash_def Let_def by (intro quiet_rules) simp_all

lemma login_stratum_quiet: "quiet b c \<Longrightarrow> post (quiet b) (login_stratum jc ok now u c)"
  unfolding login_stratum_def by (intro quiet_rules) simp_all

lemma login_ethproxy_work: "quiet b c \<Longrightarrow> post (same_work b) (login_ethproxy jc ok now u c)"
  by (cases ok) (use login_failed_quiet [of b c u] in
      \<open>auto simp: login_ethproxy_def post_def quiet_defs\<close>)

lemma response_subscribe_quiet: "quiet b c \<Longrightarrow> post (quiet b) (response_subscribe jc v now u c)"
  unfolding response_subscribe_def Let_def with_session_def by (intro quiet_rules) simp_all

lemma response_submit_quiet: "quiet b c \<Longrightarrow> post (quiet b) (response_submit jc ok v i now c)"
  using quiet_frames(3) [of b c now]
  unfolding response_submit_def Let_def answer_solution_def by (intro quiet_rules) auto

lemma response_submit2_quiet: "quiet b c \<Longrightarrow> post (quiet b) (response_submit2 jc ok v i now c)"
  using quiet_frames(3) [of b c now]
  unfolding response_submit2_def Let_def answer_solution_def by (intro quiet_rules) auto

lemma response_999_quiet: "quiet b c \<Longrightarrow> post (quiet b) (response_999 ok u c)"
  unfolding response_999_def by (intro quiet_rules) simp_all

lemma response_authorize_work:
  "post (same_work c) (response_authorize jc ok v now u c)"
  "post (same_work c) (response_authorize2 jc ok v now u c)"
proof -
  have f: "same_work c d \<Longrightarrow> same_work c (on_session f d)" if "\<And>s. nextWorkBoundary (f s) = nextWorkBoundary s" for f d
    using that by (auto simp: same_work_def session_ok_def split: option.splits)
  have g: "same_work c (snd (dequeue_response_plea now c))"
    "same_work c d \<Longrightarrow> same_work c (emit Post_Disconnect (markUnrecoverable d))"
    "same_work c d \<Longrightarrow> same_work c (d\<lparr>m_authpending := p\<rparr>)" for d p
    by (simp_all add: same_work_def session_ok_def jobs_emit)
  show "post (same_work c) (response_authorize jc ok v now u c)"
    unfolding response_authorize_def Let_def with_session_def post_disconnect_def
    by (intro post_rules f g) simp_all
  show "post (same_work c) (response_authorize2 jc ok v now u c)"
    unfolding response_authorize2_def Let_def with_session_def post_disconnect_def
    by (intro post_rules f g) simp_all
qed

subsection \<open>Notifications without work\<close>

lemma set_target_quiet: "quiet b c \<Longrightarrow> post (quiet b) (set_target jc v c)"
  unfolding set_target_def with_session_def by (intro quiet_rules quiet_boundary) (simp_all add: length_h256)

lemma set_difficulty_quiet: "quiet b c \<Longrightarrow> post (quiet b) (set_difficulty jc num v c)"
  unfolding set_difficulty_def Let_def with_session_def
  by (intro quiet_rules quiet_boundary) (auto simp: length_h256 bind_sum_def split: sum.splits)

lemma set_extranonce_quiet: "quiet b c \<Longrightarrow> post (quiet b) (set_extranonce jc v c)"
  unfolding set_extranonce_def by (intro quiet_rules) simp_all

lemma mining_set_parts_quiet:
  assumes "quiet b c"
  shows "post (quiet b) (mining_set_timeout t c)" "post (quiet b) (mining_set_epoch t c)"
    "post (quiet b) (mining_set_target num t c)"
proof -
  show "post (quiet b) (mining_set_timeout t c)" "post (quiet b) (mining_set_epoch t c)"
    unfolding mining_set_timeout_def mining_set_epoch_def using assms by (intro quiet_rules; simp)+
  show "post (quiet b) (mining_set_target num t c)"
    unfolding mining_set_target_def Let_def
    by (intro post_rules quiet_session quiet_boundary assms) (simp_all add: length_h256)
qed

lemma mining_set_quiet: "quiet b c \<Longrightarrow> post (quiet b) (mining_set jc num v c)"
  unfolding mining_set_def Let_def with_session_def
  by (intro quiet_rules mining_set_parts_quiet) simp_all

lemma answers_quiet:
  assumes "quiet b c"
  shows "post (quiet b) (get_version jc project r i c)" "post (quiet b) (unknown_method jc r i c)"
  unfolding get_version_def unknown_method_def using assms by (intro quiet_rules; simp)+

subsection \<open>Work\<close>

definition work_ok :: "stratum_client \<Rightarrow> bool" where
  "work_ok c \<longleftrightarrow>
     session_ok c \<and> length (wp_header (m_current c)) = 32 \<and> length (wp_seed (m_current c)) = 32 \<and>
     length (wp_boundary (m_current c)) = 32"

text \<open>Well-formed work in the same session.\<close>

definition new_work :: "stratum_client \<Rightarrow> stratum_client \<Rightarrow> bool" where
  "new_work b c \<longleftrightarrow> work_ok c \<and> m_session c = m_session b \<and> jobs c = jobs b"

lemma new_work_current:
  assumes "new_work b c" and "\<And>w. length (wp_header w) = 32 \<Longrightarrow> length (wp_header (f w)) = 32"
    and "\<And>w. length (wp_seed w) = 32 \<Longrightarrow> length (wp_seed (f w)) = 32"
    and "\<And>w. length (wp_boundary w) = 32 \<Longrightarrow> length (wp_boundary (f w)) = 32"
  shows "new_work b (on_current f c)"
  using assms by (auto simp: new_work_def work_ok_def session_ok_def)

lemma new_work_boundary:
  "\<lbrakk>new_work b c; m_session c' = Some s; m_session c' = m_session c\<rbrakk> \<Longrightarrow> length (nextWorkBoundary s) = 32"
  by (auto simp: new_work_def work_ok_def session_ok_def)

lemma finish_job_new_work: "new_work b c \<Longrightarrow> post (new_work b) (finish_job num now c)"
  unfolding finish_job_def Let_def with_session_def
  by (intro post_rules) (auto simp: new_work_def work_ok_def session_ok_def)

lemmas new_work_rules = post_rules finish_job_new_work new_work_current

lemma job_nicehash_new_work: "new_work b c \<Longrightarrow> post (new_work b) (job_nicehash jc num v now c)"
  unfolding job_nicehash_def Let_def with_session_def
  by (intro new_work_rules) (auto simp: length_h256 intro: new_work_boundary)

lemma job_plain_new_work: "new_work b c \<Longrightarrow> post (new_work b) (job_plain jc num v i now u c)"
  unfolding job_plain_def Let_def
  by (intro new_work_rules) (auto simp: length_h256)

lemma notify_new_work: "new_work b c \<Longrightarrow> post (new_work b) (notify jc num v now u c)"
  unfolding notify_def Let_def
  by (intro new_work_rules job_nicehash_new_work job_plain_new_work) auto

lemma notify2_new_work: "new_work b c \<Longrightarrow> post (new_work b) (notify2 jc num v now c)"
  unfolding notify2_def Let_def with_session_def
  by (intro new_work_rules) (auto simp: length_h256)

text \<open>Work does not touch the session.\<close>

definition keeps_session :: "stratum_client \<Rightarrow> stratum_client \<Rightarrow> bool" where
  "keeps_session b c \<longleftrightarrow> m_session c = m_session b"

lemma keeps_session_refl: "keeps_session c c"
  by (simp add: keeps_session_def)

lemma keeps_session_current: "keeps_session b c \<Longrightarrow> keeps_session b (on_current f c)"
  by (simp add: keeps_session_def)

lemma finish_job_session: "keeps_session b c \<Longrightarrow> post (keeps_session b) (finish_job num now c)"
  unfolding finish_job_def Let_def with_session_def by (intro post_rules) (simp_all add: keeps_session_def)

lemmas keeps_session_rules = post_rules finish_job_session keeps_session_current

lemma notify_session: "keeps_session b c \<Longrightarrow> post (keeps_session b) (notify jc num v now u c)"
  unfolding notify_def job_nicehash_def job_plain_def Let_def with_session_def by (intro keeps_session_rules)

lemma notify2_session: "keeps_session b c \<Longrightarrow> post (keeps_session b) (notify2 jc num v now c)"
  unfolding notify2_def Let_def with_session_def by (intro keeps_session_rules)

subsection \<open>Messages\<close>

text \<open>The states in which the pool may send work.\<close>

definition work_allowed :: "stratum_client \<Rightarrow> bool" where
  "work_allowed c \<longleftrightarrow>
     (\<exists>u s. m_conn c = Some u \<and> u_stratumModeConfirmed u \<and> m_session c = Some s \<and>
       (if u_stratumMode u = 3 then firstMiningSet s else subscribed s \<and> \<not> m_newjobprocessed c))"

lemma process_notification_quiet:
  assumes "m_conn c = Some u" and "\<not> work_allowed c"
  shows "post (quiet c) (process_notification jc num project meth r i v now u c)"
proof -
  have "notify jc num v now u c = (Returned, c)" if "u_stratumModeConfirmed u" "u_stratumMode u \<noteq> 3"
    using assms that by (cases "m_session c") (auto simp: work_allowed_def notify_def isSubscribed_def)
  moreover have "notify2 jc num v now c = (Returned, c)" if "u_stratumModeConfirmed u" "u_stratumMode u = 3"
    using assms that by (cases "m_session c") (auto simp: work_allowed_def notify2_def)
  ultimately show ?thesis
    unfolding process_notification_def
    by (intro post_if post_return post_disconnect_quiet set_target_quiet set_difficulty_quiet set_extranonce_quiet
        mining_set_quiet answers_quiet quiet_refl) (simp_all add: post_def)
qed

lemma process_notification_ok:
  assumes "work_ok c"
  shows "post (\<lambda>c'. work_ok c' \<and> jobs c' = jobs c) (process_notification jc num project meth r i v now u c)"
proof -
  have q: "post (quiet c) x \<Longrightarrow> post (\<lambda>c'. work_ok c' \<and> jobs c' = jobs c) x"
    and n: "post (new_work c) x \<Longrightarrow> post (\<lambda>c'. work_ok c' \<and> jobs c' = jobs c) x" for x
    using assms by (auto simp: post_def quiet_defs new_work_def work_ok_def)
  have "new_work c c" using assms by (simp add: new_work_def)
  note n = n [OF notify_new_work [OF this]] n [OF notify2_new_work [OF this]]
  show ?thesis
    unfolding process_notification_def
    by (intro post_if n q [OF post_disconnect_quiet] q [OF set_target_quiet] q [OF set_difficulty_quiet]
        q [OF set_extranonce_quiet] q [OF mining_set_quiet] q [OF answers_quiet(1)] q [OF answers_quiet(2)]
        q [OF post_return] quiet_refl)
qed

lemma process_notification_unauthorized:
  "post (unauthorized c) (process_notification jc num project meth r i v now u c)"
proof -
  have q: "post (quiet c) x \<Longrightarrow> post (unauthorized c) x"
    and n: "post (keeps_session c) x \<Longrightarrow> post (unauthorized c) x" for x
    by (auto simp: post_def quiet_defs keeps_session_def)
  note n = n [OF notify_session [OF keeps_session_refl]] n [OF notify2_session [OF keeps_session_refl]]
  show ?thesis
    unfolding process_notification_def
    by (intro post_if n q [OF post_disconnect_quiet] q [OF set_target_quiet] q [OF set_difficulty_quiet]
        q [OF set_extranonce_quiet] q [OF mining_set_quiet] q [OF answers_quiet(1)] q [OF answers_quiet(2)]
        q [OF post_return] quiet_refl)
qed

text \<open>The replies that can bring an authorization.\<close>

definition grants :: "'j message \<Rightarrow> uri \<Rightarrow> bool" where
  "grants m u \<longleftrightarrow> isSuccess m \<and> (msg_id m = 3 \<or> msg_id m = 1 \<and> u_stratumMode u = 1)"

lemma response_authorize_refused:
  "post (unauthorized c) (response_authorize jc False v now u c)"
  "post (unauthorized c) (response_authorize2 jc False v now u c)"
  by (simp_all add: response_authorize_def response_authorize2_def Let_def result_success_def with_session_def deref_def
      post_disconnect_def post_def unauthorized_def isAuthorized_def split: option.splits)

lemma response_login_ok:
  "post (same_work c) (response_login jc ok v now u c)"
  "\<not> ok \<or> u_stratumMode u \<noteq> 1 \<Longrightarrow> post (unauthorized c) (response_login jc ok v now u c)"
proof -
  have q: "post (quiet c) x \<Longrightarrow> post (same_work c) x" "post (quiet c) x \<Longrightarrow> post (unauthorized c) x" for x
    by (simp_all add: post_def quiet_def)
  have d: "quiet c (snd (dequeue_response_plea now c))" by (simp add: quiet_frames)
  note rules = post_disconnect_quiet login_stratum2_quiet login_nicehash_quiet login_stratum_quiet
  show "post (same_work c) (response_login jc ok v now u c)"
    unfolding response_login_def Let_def
    by (intro post_if rules [THEN q(1)] login_ethproxy_work post_return d) (use d in \<open>simp add: quiet_defs\<close>)
  show "post (unauthorized c) (response_login jc ok v now u c)" if "\<not> ok \<or> u_stratumMode u \<noteq> 1"
    unfolding response_login_def Let_def
    by (intro post_if rules [THEN q(2)] post_return d)
      (use d that in \<open>auto simp: quiet_defs login_ethproxy_def intro!: q(2) [OF login_failed_quiet]\<close>)
qed

lemma process_reply_ok:
  "post (same_work c) (process_reply jc m now u c)"
  "\<not> grants m u \<Longrightarrow> post (unauthorized c) (process_reply jc m now u c)"
proof -
  have q: "post (quiet c) x \<Longrightarrow> post (same_work c) x" "post (quiet c) x \<Longrightarrow> post (unauthorized c) x" for x
    by (simp_all add: post_def quiet_def)
  have r: "same_work c c" "unauthorized c c" by (simp_all add: same_work_def unauthorized_def)
  note rules = response_subscribe_quiet response_submit_quiet response_submit2_quiet response_999_quiet
  show "post (same_work c) (process_reply jc m now u c)"
    unfolding process_reply_def Let_def
    by (intro post_require post_if post_return r response_login_ok(1) response_authorize_work rules [THEN q(1)] quiet_refl)
  show "post (unauthorized c) (process_reply jc m now u c)" if "\<not> grants m u"
  proof -
    have a: "isSuccess m = False" if "msg_id m = 3" using \<open>\<not> grants m u\<close> that by (simp add: grants_def)
    have l: "\<not> isSuccess m \<or> u_stratumMode u \<noteq> 1" if "msg_id m = 1" using \<open>\<not> grants m u\<close> that by (simp add: grants_def)
    show ?thesis
      unfolding process_reply_def Let_def
      by (intro post_require post_if post_return r response_login_ok(2) rules [THEN q(2)] quiet_refl)
        (auto simp: a response_authorize_refused dest: l)
  qed
qed

lemma processResponse_work:
  assumes "\<not> work_allowed c"
  shows "post (same_work c) (processResponse jc num project v now c)"
proof -
  have q: "post (quiet c) x \<Longrightarrow> post (same_work c) x" for x by (simp add: post_def quiet_def)
  have r: "same_work c c" by (simp add: same_work_def)
  show ?thesis
    unfolding processResponse_def with_conn_def Let_def
    by (intro post_rules r q [OF post_disconnect_quiet] q [OF process_notification_quiet] process_reply_ok(1) assms
        quiet_refl) simp_all
qed

lemma processResponse_ok:
  assumes "work_ok c"
  shows "post (\<lambda>c'. work_ok c' \<and> jobs c' = jobs c) (processResponse jc num project v now c)"
proof -
  let ?P = "\<lambda>c'. work_ok c' \<and> jobs c' = jobs c"
  have s: "post (same_work c) x \<Longrightarrow> post ?P x" for x
    using assms by (auto simp: post_def same_work_def work_ok_def)
  have d: "post ?P (post_disconnect c)"
    using assms by (simp add: post_def post_disconnect_def jobs_emit work_ok_def session_ok_def)
  show ?thesis
    unfolding processResponse_def with_conn_def Let_def
    by (intro post_rules process_notification_ok d s [OF process_reply_ok(1)]) (simp_all add: assms)
qed

lemma processResponse_unauthorized:
  assumes "\<And>u m. \<lbrakk>m_conn c = Some u; read_message jc u v = Inr m; \<not> isNotification m\<rbrakk> \<Longrightarrow> \<not> grants m u"
  shows "post (unauthorized c) (processResponse jc num project v now c)"
proof -
  have d: "post (unauthorized c) (post_disconnect c)" "unauthorized c c"
    by (simp_all add: post_def post_disconnect_def unauthorized_def isAuthorized_def)
  have g: "\<not> grants (m\<lparr>msg_object := x, msg_object := y\<rparr>) u"
    if "m_conn c = Some u" "read_message jc u v = Inr m" "\<not> isNotification (m\<lparr>msg_object := x, msg_object := y\<rparr>)"
    for u m x y
    using assms [OF that(1,2)] that(3) by (simp add: grants_def)
  show ?thesis
    unfolding processResponse_def with_conn_def Let_def
    by (intro post_rules d process_notification_unauthorized process_reply_ok(2) g) simp_all
qed



section \<open>Received data\<close>

definition hashes_ok :: "work_package \<Rightarrow> bool" where
  "hashes_ok w \<longleftrightarrow> length (wp_header w) = 32 \<and> length (wp_seed w) = 32 \<and> length (wp_boundary w) = 32"

lemma process_line_ok:
  assumes "work_ok c"
  shows "post (\<lambda>c'. work_ok c' \<and> jobs c' = jobs c) (process_line jc num project line now c)"
proof (cases "trim line = [] \<or> j_parse jc (trim line) = None")
  case True
  then show ?thesis using assms by (auto simp: process_line_def Let_def post_def)
next
  case False
  then obtain v where v: "j_parse jc (trim line) = Some v" by blast
  obtain e d where "processResponse jc num project v now c = (e, d)" by fastforce
  with False v show ?thesis
    using processResponse_ok [OF assms, of jc num project v now]
    by (cases e) (simp_all add: process_line_def Let_def post_def)
qed

lemma process_lines_ok:
  "work_ok c \<Longrightarrow> post (\<lambda>c'. work_ok c' \<and> jobs c' = jobs c) (process_lines jc num project t now c)"
proof (induction jc num project t now c rule: process_lines.induct)
  case (1 jc num project t now c)
  let ?P = "\<lambda>d c'. work_ok c' \<and> jobs c' = jobs d"
  have m: "work_ok (d\<lparr>m_message := x\<rparr>) = work_ok d" for d x by (simp add: work_ok_def session_ok_def)
  show ?case
  proof (cases "split_first (CHR 10) t")
    case None
    then show ?thesis using 1 by (simp add: process_lines.simps [of _ _ _ t] post_def m)
  next
    case (Some p)
    obtain line rest where p: "p = (line, rest)" by fastforce
    obtain e d where l: "process_line jc num project line now c = (e, d)" by fastforce
    then have d: "work_ok d" "jobs d = jobs c"
      using process_line_ok [OF 1(2), of jc num project line now] by (simp_all add: post_def)
    show ?thesis
    proof (cases "e = Returned")
      case True
      then show ?thesis
        using 1(1) [OF Some p [symmetric] l [symmetric]] d Some p l by (simp add: process_lines.simps [of _ _ _ t] post_def)
    next
      case False
      then show ?thesis using d Some p l by (simp add: process_lines.simps [of _ _ _ t] post_def m)
    qed
  qed
qed



subsection \<open>Lines\<close>

text \<open>The complete lines of a text, and what follows the last line end.\<close>

fun lines_of :: "string \<Rightarrow> string list \<times> string" where
  "lines_of [] = ([], [])"
| "lines_of (x # s) =
     (case lines_of s of
        (ls, r) \<Rightarrow> if x = CHR 10 then ([] # ls, r)
                   else case ls of [] \<Rightarrow> ([], x # r) | l # ls \<Rightarrow> ((x # l) # ls, r))"

lemma lines_of_split:
  "lines_of t = (case split_first (CHR 10) t of
     None \<Rightarrow> ([], t) | Some (a, b) \<Rightarrow> (a # fst (lines_of b), snd (lines_of b)))"
  by (induction t) (auto split: option.splits prod.splits)

lemma lines_of_append:
  "lines_of (s @ t) = (fst (lines_of s) @ fst (lines_of (snd (lines_of s) @ t)), snd (lines_of (snd (lines_of s) @ t)))"
proof (induction s)
  case (Cons x s)
  obtain ls r where s: "lines_of s = (ls, r)" by fastforce
  show ?case
    using Cons s by (cases ls; cases "lines_of (r @ t)") (auto split: list.splits)
qed simp

lemma lines_of_rest: "CHR 10 \<notin> set (snd (lines_of t))"
  by (induction t) (auto split: prod.splits list.splits)

text \<open>The lines are processed one by one, as long as the processing of a line returns.\<close>

fun run_lines ::
    "'j jsoncpp \<Rightarrow> numerics \<Rightarrow> string \<Rightarrow> nat \<Rightarrow> string list \<Rightarrow> stratum_client \<Rightarrow> call_exit \<times> stratum_client" where
  "run_lines jc num project now [] c = (Returned, c)"
| "run_lines jc num project now (l # ls) c =
     andThen (process_line jc num project l now c) (run_lines jc num project now ls)"

lemma process_lines_run:
  "fst (process_lines jc num project t now c) = fst (run_lines jc num project now (fst (lines_of t)) c) \<and>
   (fst (run_lines jc num project now (fst (lines_of t)) c) = Returned \<longrightarrow>
     process_lines jc num project t now c =
       (Returned, (snd (run_lines jc num project now (fst (lines_of t)) c))\<lparr>m_message := snd (lines_of t)\<rparr>))"
proof (induction jc num project t now c rule: process_lines.induct)
  case (1 jc num project t now c)
  show ?case
  proof (cases "split_first (CHR 10) t")
    case None
    then show ?thesis by (simp add: process_lines.simps [of _ _ _ t] lines_of_split [of t])
  next
    case (Some p)
    obtain line rest where p: "p = (line, rest)" by fastforce
    obtain e d where l: "process_line jc num project line now c = (e, d)" by fastforce
    have t: "lines_of t = (line # fst (lines_of rest), snd (lines_of rest))"
      using Some p by (simp add: lines_of_split [of t])
    show ?thesis
    proof (cases "e = Returned")
      case True
      then show ?thesis
        using 1 [OF Some p [symmetric] l [symmetric]] Some p l by (simp add: process_lines.simps [of _ _ _ t] t)
    next
      case False
      then show ?thesis using Some p l by (simp add: process_lines.simps [of _ _ _ t] t)
    qed
  qed
qed



end
