(* ===== verification/Extranonce.thy ===== *)
theory Extranonce
  imports Stratum_Safety
begin

text \<open>
  The way of the extra nonce through the program: the client reads the digits that the pool prescribes,
  the farm divides the nonces that begin with them among the miners, and the client submits the digits
  that remain of a nonce that a miner has found.
\<close>

section \<open>Hexadecimal digits\<close>

fun hex_digits :: "nat \<Rightarrow> nat \<Rightarrow> string" where
  "hex_digits 0 n = []"
| "hex_digits (Suc w) n = hex_digits w (n div 16) @ [hex_digit (n mod 16)]"

lemma length_hex_digits [simp]: "length (hex_digits w n) = w"
  by (induction w arbitrary: n) simp_all

lemma hex_digits_zero: "hex_digits w 0 = replicate w (CHR ''0'')"
  by (induction w) (simp_all add: hex_digit_0 replicate_append_same)

lemma hex_digits_append: "hex_digits (a + b) n = hex_digits a (n div 16 ^ b) @ hex_digits b n"
  by (induction b arbitrary: n) (simp_all add: div_mult2_eq)

lemma padLeft_snoc: "length s \<le> w \<Longrightarrow> padLeft (s @ [d]) (Suc w) c = padLeft s w c @ [d]"
  by (simp add: padLeft_def)

lemma length_hex_of_nat: "n < 16 ^ Suc w \<Longrightarrow> length (hex_of_nat n) \<le> Suc w"
proof (induction w arbitrary: n)
  case (Suc w)
  have "n div 16 < 16 ^ Suc w" using Suc.prems by (simp add: less_mult_imp_div_less)
  then show ?case using Suc.IH [of "n div 16"] by (simp add: hex_of_nat.simps [of n])
qed (simp add: hex_of_nat.simps)

lemma hex_setw_digits: "n < 16 ^ Suc w \<Longrightarrow> hex_setw (Suc w) n = hex_digits (Suc w) n"
proof (induction w arbitrary: n)
  case 0
  then show ?case by (simp add: hex_setw_def padLeft_def hex_of_nat.simps)
next
  case (Suc w)
  show ?case
  proof (cases "n < 16")
    case True
    then show ?thesis
      using hex_digits_zero [of "Suc w"]
      by (simp add: hex_setw_def padLeft_def hex_of_nat.simps hex_digit_0 replicate_append_same)
  next
    case False
    have n: "n div 16 < 16 ^ Suc w" using Suc.prems by (simp add: less_mult_imp_div_less)
    have "hex_setw (Suc (Suc w)) n = hex_setw (Suc w) (n div 16) @ [hex_digit (n mod 16)]"
      using False length_hex_of_nat [OF n] by (simp add: hex_setw_def hex_of_nat.simps [of n] padLeft_snoc)
    then show ?thesis using Suc.IH [OF n] by simp
  qed
qed

lemma hex_digit_lower: "is_hex c \<Longrightarrow> hex_digit (nat (fromHex_char c)) = lower_char c"
proof -
  assume "is_hex c"
  define i where "i = (of_char c :: nat)"
  have c: "char_of i = c" by (simp add: i_def)
  have "48 \<le> i \<and> i \<le> 57 \<or> 97 \<le> i \<and> i \<le> 102 \<or> 65 \<le> i \<and> i \<le> 70"
    using \<open>is_hex c\<close> by (auto simp: is_hex_def fromHex_char_def Let_def i_def split: if_splits)
  then consider j where "i = 48 + j" "j < 10" | j where "i = 97 + j" "j < 6" | j where "i = 65 + j" "j < 6"
    by (auto simp: le_iff_add)
  then show ?thesis
  proof cases
    case 1
    then have "nat (fromHex_char c) = j" by (simp add: fromHex_char_def Let_def i_def [symmetric])
    then show ?thesis using 1 c by (simp add: hex_digit_def lower_char_def Let_def i_def [symmetric])
  next
    case 2
    then have "nat (fromHex_char c) = 10 + j" by (simp add: fromHex_char_def Let_def i_def [symmetric])
    then show ?thesis using 2 c by (simp add: hex_digit_def lower_char_def Let_def i_def [symmetric])
  next
    case 3
    then have "nat (fromHex_char c) = 10 + j" by (simp add: fromHex_char_def Let_def i_def [symmetric])
    then show ?thesis using 3 c by (simp add: hex_digit_def lower_char_def Let_def i_def [symmetric] add.commute)
  qed
qed

lemma hex_digits_value: "list_all is_hex ds \<Longrightarrow> hex_digits (length ds) (hex_value ds) = to_lower ds"
proof (induction ds rule: rev_induct)
  case (snoc c ds)
  then have "nat (fromHex_char c) < 16" using fromHex_char_range [of c] by (simp add: nat_less_iff)
  with snoc show ?case by (simp add: hex_value_snoc hex_digit_lower to_lower_def)
qed (simp add: to_lower_def)

lemma hex_value_zeros: "hex_value (ds @ replicate n (CHR ''0'')) = hex_value ds * 16 ^ n"
proof (induction n)
  case (Suc n)
  have "ds @ replicate (Suc n) (CHR ''0'') = (ds @ replicate n (CHR ''0'')) @ [CHR ''0'']"
    by (simp add: replicate_append_same)
  moreover have "fromHex_char (CHR ''0'') = 0" by (simp add: fromHex_char_def)
  ultimately show ?case using Suc by (simp only: hex_value_snoc) simp
qed simp

section \<open>The extra nonce\<close>

lemma processExtranonce_hex:
  assumes "list_all is_hex enonce" and "enonce \<noteq> []" and "length enonce \<le> 16" and "m_session c = Some s"
  obtains c' s' where "processExtranonce enonce c = (Returned, c')" "m_session c' = Some s'"
    "extraNonceSizeBytes s' = word_of_nat (length enonce)"
    "extraNonce s' = word_of_nat (hex_value enonce * 2 ^ (64 - 4 * length enonce))"
proof -
  let ?k = "length enonce" and ?e = "resize 16 (CHR ''0'') enonce"
  have e: "?e = enonce @ replicate (16 - ?k) (CHR ''0'')" using assms(3) by (simp add: resize_def)
  have z: "is_hex (CHR ''0'')" by (simp add: is_hex_def fromHex_char_def)
  then have "list_all is_hex ?e" "?e \<noteq> []" "length ?e \<le> 16" using assms e by (auto simp: list_all_iff)
  then have "stoull16 ?e = Inr (word_of_nat (hex_value ?e))" by (rule strtoull16_hex(2))
  moreover have "hex_value ?e = hex_value enonce * 2 ^ (64 - 4 * ?k)"
  proof -
    have "64 - 4 * ?k = 4 * (16 - ?k)" by simp
    then have "(2 :: nat) ^ (64 - 4 * ?k) = 16 ^ (16 - ?k)" by (simp only: power_mult) simp
    then show ?thesis by (simp only: e hex_value_zeros)
  qed
  moreover define t where "t = s\<lparr>extraNonceSizeBytes := word_of_nat ?k,
      extraNonce := word_of_nat (hex_value enonce * 2 ^ (64 - 4 * ?k))\<rparr>"
  ultimately show thesis
    using assms(4) by (intro that [of "c\<lparr>m_session := Some t\<rparr>" t])
      (simp_all add: processExtranonce_def with_session_def Let_def on_session_def)
qed

lemma toHex_u64_digits: "toHex_u64 v DontAdd 16 = hex_digits 16 (unat v)"
proof -
  have "unat v < 2 ^ 64" using unsigned_less [of v] by simp
  then show ?thesis using hex_setw_digits [of "unat v" 15] by (simp add: toHex_u64_def with_prefix_def)
qed

text \<open>The digits of a nonce: those of a prefix, and those behind it.\<close>

lemma nonce_digits_prefix:
  assumes "list_all is_hex enonce" and "length enonce \<le> 16"
    and "drop_bit (64 - 4 * length enonce) v = word_of_nat (hex_value enonce)"
  shows "toHex_u64 v DontAdd 16 = to_lower enonce @ drop (length enonce) (toHex_u64 v DontAdd 16)"
proof -
  let ?k = "length enonce"
  have p: "(2 :: nat) ^ (64 - 4 * ?k) = 16 ^ (16 - ?k)"
  proof -
    have "64 - 4 * ?k = 4 * (16 - ?k)" by simp
    then show ?thesis by (simp only: power_mult) simp
  qed
  have h: "hex_value enonce < 2 ^ 64"
  proof -
    have "hex_value enonce < 16 ^ ?k" by (rule hex_value_less [OF assms(1)])
    also have "\<dots> \<le> (16 :: nat) ^ 16" using assms(2) by (intro power_increasing) simp_all
    finally show ?thesis by simp
  qed
  have "unat v div 2 ^ (64 - 4 * ?k) = unat (drop_bit (64 - 4 * ?k) v)" by (subst unat_drop_bit_eq) (simp only: drop_bit_eq_div)
  also have "\<dots> = hex_value enonce" using h by (simp add: assms(3) unat_of_nat)
  finally have "unat v div 16 ^ (16 - ?k) = hex_value enonce" by (simp only: p)
  then have "hex_digits (?k + (16 - ?k)) (unat v) = to_lower enonce @ hex_digits (16 - ?k) (unat v)"
    using hex_digits_value [OF assms(1)] by (simp only: hex_digits_append)
  moreover have "length (to_lower enonce) = ?k" by (simp add: to_lower_def)
  ultimately show ?thesis using assms(2) by (simp add: toHex_u64_digits)
qed

text \<open>C38. If the pool prescribes up to 16 hexadecimal digits and the user none, then for every nonce that a
  miner can search, the digits that the client submits are those of the nonce behind the prescribed
  ones: the prescribed digits followed by the submitted ones are the 16 digits of the nonce.\<close>

theorem extranonce_roundtrip:
  assumes "list_all is_hex enonce" and "enonce \<noteq> []" and "length enonce \<le> 16" and "m_session c = Some s"
    and "set_nonce (m_Settings f) = []" and "b + 4 * length enonce + ceil_log2 (length (m_miners f)) = 64"
    and "i < length (m_miners f)" and "\<not> paused (m_miners f ! i)"
  shows "\<exists>c' s'. processExtranonce enonce c = (Returned, c') \<and> m_session c' = Some s' \<and>
    (let w = wp\<lparr>wp_startNonce := extraNonce s', wp_exSizeBytes := ucast (extraNonceSizeBytes s')\<rparr>;
         f' = farm_setWork u random w f
     in \<forall>sol. s_nonce sol \<in> nonce_segment f' b i \<and> s_work sol = miner_work (m_miners f' ! i) \<longrightarrow>
       (\<exists>ds. nonce_digits sol = Inr ds \<and> to_lower enonce @ ds = toHex_u64 (s_nonce sol) DontAdd 16))"
proof -
  let ?k = "length enonce" and ?p = "hex_value enonce"
  obtain c' s' where c': "processExtranonce enonce c = (Returned, c')" "m_session c' = Some s'"
      "extraNonceSizeBytes s' = word_of_nat ?k" "extraNonce s' = word_of_nat (?p * 2 ^ (64 - 4 * ?k))"
    using processExtranonce_hex [OF assms(1-4)] by blast
  define w where "w = wp\<lparr>wp_startNonce := extraNonce s', wp_exSizeBytes := ucast (extraNonceSizeBytes s')\<rparr>"
  have size: "wp_exSizeBytes w = word_of_nat ?k" "unat (word_of_nat ?k :: u16) = ?k"
    using assms(3) by (simp_all add: w_def c'(3) unsigned_of_nat take_bit_nat_eq_self)
  have "nonce_prefix f w ?k ?p"
    using assms(2,5) size hex_value_less [OF assms(1)] by (simp add: nonce_prefix_def w_def c'(4) word_gt_0 unat_eq_0 [symmetric])
  note pre = segment_prefix [OF this assms(6-8), of _ u random]
  have "\<exists>ds. nonce_digits sol = Inr ds \<and> to_lower enonce @ ds = toHex_u64 (s_nonce sol) DontAdd 16"
    if sol: "s_nonce sol \<in> nonce_segment (farm_setWork u random w f) b i"
      "s_work sol = miner_work (m_miners (farm_setWork u random w f) ! i)" for sol
  proof -
    have "wp_exSizeBytes (s_work sol) = wp_exSizeBytes w"
      using farm_setWork_miner [OF assms(7,8), of u random w] sol(2) by auto
    moreover have "length (toHex_u64 (s_nonce sol) DontAdd 16) = 16" by (simp add: toHex_u64_digits)
    ultimately have "nonce_digits sol = Inr (drop ?k (toHex_u64 (s_nonce sol) DontAdd 16))"
      using size assms(3) by (simp add: nonce_digits_def Let_def)
    then show ?thesis using nonce_digits_prefix [OF assms(1,3) pre [OF sol(1)]] by simp
  qed
  then show ?thesis using c' by (auto simp: w_def Let_def)
qed

theorem extranonce_roundtrip_witness:
  "\<exists>c' s'. processExtranonce ''Ab'' (client_example\<lparr>m_session := Some (session_new 0)\<rparr>) = (Returned, c') \<and>
     m_session c' = Some s'"
proof -
  let ?f = "farm_example\<lparr>m_Settings := (m_Settings farm_example)\<lparr>set_nonce := []\<rparr>\<rparr>"
  have f: "length (m_miners ?f) = 2" "\<not> paused (m_miners ?f ! 1)"
    by (simp_all add: farm_example_def paused_iff miner_new_def)
  have "ceil_log2 2 = 1" by (simp add: ceil_log2.simps)
  then show ?thesis
    using extranonce_roundtrip [of "''Ab''" "client_example\<lparr>m_session := Some (session_new 0)\<rparr>" "session_new 0" ?f 55 1
        work_package_default "\<lambda>n. 0" 5] f
    by (auto simp: is_hex_def fromHex_char_def)
qed

end
