(* ===== verification/Pool_Manager.thy ===== *)
theory Pool_Manager
  imports Pool_Client
begin

text \<open>
  The class \<open>PoolManager\<close> of \<^verbatim>\<open>libpool/PoolManager.h\<close> and \<^verbatim>\<open>libpool/PoolManager.cpp\<close>: the list of connections
  and the selection of one of them, the handlers of the events that the client of the active
  connection reports, and the timers. The farm it drives is the model of the theory \<open>Farm\<close>. The calls
  to the client and the other effects are recorded in the order they are made; the answers of the
  client are the calls of the handlers. The lemmas show that the selection never leaves the list,
  that it comes to an end when no connection works, and that the epoch of the work given to the farm
  is the one its seed belongs to.
\<close>

section \<open>The C++ routines\<close>

text \<open>A connection is shared between the settings and the client, so it is named by an address.\<close>

record pool_settings =
  connections :: "nat list"
  getWorkPollInterval :: u32
  noWorkTimeout :: u32
  noResponseTimeout :: u32
  poolFailoverTimeout :: u32
  reportHashrate :: bool
  hashRateInterval :: u32
  hashRateId :: string
  connectionMaxRetries :: u32
  delayBeforeRetry :: u32
  benchmarkBlock :: u32

record pool_client =
  c_family :: protocol_family
  c_connected :: bool
  c_conn :: "nat option"

datatype pool_effect =
  Connect | Disconnect | Submit_Solution solution | Submit_Hashrate u64 string
  | Post_Rotate | Raise_Sigterm

record pool_manager =
  pm_settings :: pool_settings
  pm_uris :: "nat \<Rightarrow> uri"
  m_running :: bool
  m_stopping :: bool
  m_async_pending :: bool
  m_connectionAttempt :: u32
  m_selectedHost :: string
  m_connectionSwitches :: u32
  m_activeConnectionIdx :: nat
  pm_currentWp :: work_package
  m_failovertimer :: bool
  m_submithrtimer :: bool
  m_reconnecttimer :: bool
  p_client :: "pool_client option"
  m_epochChanges :: u32
  m_lastBlock :: int
  pm_epoch_cache :: epoch_search_cache
  pm_farm :: farm
  pm_effects :: "pool_effect list"

definition pool_manager_new :: "pool_settings \<Rightarrow> (nat \<Rightarrow> uri) \<Rightarrow> farm \<Rightarrow> pool_manager" where
  "pool_manager_new settings uris f =
     \<lparr>pm_settings = settings, pm_uris = uris, m_running = False, m_stopping = False, m_async_pending = False,
      m_connectionAttempt = 0, m_selectedHost = [], m_connectionSwitches = 0, m_activeConnectionIdx = 0,
      pm_currentWp = work_package_default, m_failovertimer = False, m_submithrtimer = False,
      m_reconnecttimer = False, p_client = None, m_epochChanges = 0, m_lastBlock = -1,
      pm_epoch_cache = epoch_search_cache_init, pm_farm = f, pm_effects = []\<rparr>"

definition effect :: "pool_effect \<Rightarrow> pool_manager \<Rightarrow> pool_manager" where
  "effect e pm = pm\<lparr>pm_effects := pm_effects pm @ [e]\<rparr>"

definition client_connected :: "pool_manager \<Rightarrow> bool" where
  "client_connected pm = (case p_client pm of None \<Rightarrow> False | Some c \<Rightarrow> c_connected c)"

definition stop_mining :: "pool_manager \<Rightarrow> pool_manager" where
  "stop_mining pm = (if m_isMining (pm_farm pm) then pm\<lparr>pm_farm := farm_stop (pm_farm pm)\<rparr> else pm)"

text \<open>The build options and the time, which the start of the farm needs.\<close>

record build =
  eth_cuda :: bool
  eth_cl :: bool
  build_now :: nat

definition start_farm :: "build \<Rightarrow> farm \<Rightarrow> farm" where
  "start_farm b f = farm_start (eth_cuda b) (eth_cl b) (build_now b) f"

subsection \<open>Handlers\<close>

definition onMinerRestart :: "build \<Rightarrow> pool_manager \<Rightarrow> pool_manager" where
  "onMinerRestart b pm = (let pm = stop_mining pm in pm\<lparr>pm_farm := start_farm b (pm_farm pm)\<rparr>)"

definition onSolutionFound :: "solution \<Rightarrow> pool_manager \<Rightarrow> pool_manager" where
  "onSolutionFound sol pm = (if client_connected pm then effect (Submit_Solution sol) pm else pm)"

definition onConnected :: "build \<Rightarrow> pool_manager \<Rightarrow> pool_manager" where
  "onConnected b pm =
     (let pm = pm\<lparr>m_connectionAttempt := 0,
                  pm_currentWp := (pm_currentWp pm)\<lparr>wp_job := [], wp_header := fixed_hash_empty 32\<rparr>,
                  m_failovertimer :=
                    (m_activeConnectionIdx pm \<noteq> 0 \<and> poolFailoverTimeout (pm_settings pm) \<noteq> 0)\<rparr>;
          pm = (if \<not> m_isMining (pm_farm pm) then pm\<lparr>pm_farm := start_farm b (pm_farm pm)\<rparr>
                else if m_paused (pm_farm pm) then pm\<lparr>pm_farm := farm_resume (pm_farm pm)\<rparr>
                else pm);
          pm = (if reportHashrate (pm_settings pm) then pm\<lparr>m_submithrtimer := True\<rparr> else pm)
      in pm\<lparr>m_async_pending := False\<rparr>)"

definition onDisconnected :: "pool_manager \<Rightarrow> pool_manager" where
  "onDisconnected pm =
     (let pm = pm\<lparr>p_client := map_option (\<lambda>c. c\<lparr>c_conn := None\<rparr>) (p_client pm),
                  pm_currentWp := (pm_currentWp pm)\<lparr>wp_header := fixed_hash_empty 32\<rparr>,
                  m_failovertimer := False, m_submithrtimer := False\<rparr>
      in if m_stopping pm then (stop_mining pm)\<lparr>m_running := False\<rparr>
         else effect Post_Rotate (pm\<lparr>m_async_pending := True, pm_farm := farm_pause (pm_farm pm)\<rparr>))"

text \<open>
  New work. \<open>stratum_mode\<close> is the mode of the connection the client reports for; \<open>undef\<close> and \<open>random\<close> are
  those of the farm.
\<close>

definition onWorkReceived ::
    "host \<Rightarrow> (nat \<Rightarrow> u64) \<Rightarrow> u64 \<Rightarrow> u16 \<Rightarrow> work_package \<Rightarrow> pool_manager \<Rightarrow> pool_manager" where
  "onWorkReceived h undef random stratum_mode wp pm =
     (if \<not> work_package_bool wp then pm
      else
        let currentEpoch = wp_epoch (pm_currentWp pm);
            newEpoch = (if currentEpoch = -1 then True
                        else if stratum_mode = 3 then wp_epoch wp \<noteq> currentEpoch
                        else wp_seed wp \<noteq> wp_seed (pm_currentWp pm));
            pm = pm\<lparr>pm_currentWp := wp\<rparr>;
            pm = (if newEpoch then
                    let pm = pm\<lparr>m_epochChanges := m_epochChanges pm + 1\<rparr>
                    in if wp_epoch wp = -1 then
                         if wp_block wp \<ge> 0 then pm\<lparr>pm_currentWp := wp\<lparr>wp_epoch := wp_block wp div 30000\<rparr>\<rparr>
                         else let (e, cache) = find_epoch_number h (wp_seed wp) (pm_epoch_cache pm)
                              in pm\<lparr>pm_currentWp := wp\<lparr>wp_epoch := e\<rparr>, pm_epoch_cache := cache\<rparr>
                       else pm
                  else pm\<lparr>pm_currentWp := wp\<lparr>wp_epoch := currentEpoch\<rparr>\<rparr>)
        in pm\<lparr>m_lastBlock := wp_block (pm_currentWp pm),
              pm_farm := farm_setWork undef random (pm_currentWp pm) (pm_farm pm)\<rparr>)"

definition onSolutionAccepted :: "nat \<Rightarrow> nat \<Rightarrow> pool_manager \<Rightarrow> call_exit \<times> pool_manager" where
  "onSolutionAccepted now idx pm =
     (case accountSolution now idx Accepted (pm_farm pm) of
        (e, f) \<Rightarrow> (case e of None \<Rightarrow> Returned | Some x \<Rightarrow> Threw x, pm\<lparr>pm_farm := f\<rparr>))"

definition onSolutionRejected :: "nat \<Rightarrow> nat \<Rightarrow> pool_manager \<Rightarrow> call_exit \<times> pool_manager" where
  "onSolutionRejected now idx pm =
     (case accountSolution now idx Rejected (pm_farm pm) of
        (e, f) \<Rightarrow> (case e of None \<Rightarrow> Returned | Some x \<Rightarrow> Threw x, pm\<lparr>pm_farm := f\<rparr>))"

subsection \<open>Connections\<close>

text \<open>
  \<open>stop\<close> up to its wait, which ends when \<open>onDisconnected\<close> has cleared \<open>m_running\<close>, and the release of the
  client after it.
\<close>

definition pool_stop :: "pool_manager \<Rightarrow> pool_manager" where
  "pool_stop pm =
     (if m_running pm then
        let pm = pm\<lparr>m_async_pending := True, m_stopping := True\<rparr>
        in if client_connected pm then effect Disconnect pm
           else stop_mining (pm\<lparr>m_failovertimer := False, m_submithrtimer := False, m_reconnecttimer := False\<rparr>)
      else pm)"

definition pool_stop_done :: "pool_manager \<Rightarrow> pool_manager" where
  "pool_stop_done pm = pm\<lparr>p_client := None\<rparr>"

definition addConnection :: "nat \<Rightarrow> pool_manager \<Rightarrow> pool_manager" where
  "addConnection a pm =
     pm\<lparr>pm_settings := (pm_settings pm)\<lparr>connections := connections (pm_settings pm) @ [a]\<rparr>\<rparr>"

definition erase_connection :: "nat \<Rightarrow> pool_manager \<Rightarrow> pool_manager" where
  "erase_connection i pm =
     pm\<lparr>pm_settings := (pm_settings pm)\<lparr>connections :=
       take i (connections (pm_settings pm)) @ drop (Suc i) (connections (pm_settings pm))\<rparr>\<rparr>"

definition removeConnection :: "nat \<Rightarrow> pool_manager \<Rightarrow> call_exit \<times> pool_manager" where
  "removeConnection idx pm =
     (if m_async_pending pm then (Threw (Runtime_Error ''Outstanding operations. Retry ...''), pm)
      else if idx \<ge> length (connections (pm_settings pm)) then (Threw (Runtime_Error ''Index out-of bounds.''), pm)
      else if idx = m_activeConnectionIdx pm then (Threw (Runtime_Error ''Can't remove active connection''), pm)
      else
        let pm = erase_connection idx pm
        in (Returned, if m_activeConnectionIdx pm > idx
                      then pm\<lparr>m_activeConnectionIdx := m_activeConnectionIdx pm - 1\<rparr> else pm))"

definition setActiveConnectionCommon :: "nat \<Rightarrow> pool_manager \<Rightarrow> call_exit \<times> pool_manager" where
  "setActiveConnectionCommon idx pm =
     (if m_async_pending pm then (Threw (Runtime_Error ''Outstanding operations. Retry ...''), pm)
      else if idx \<noteq> m_activeConnectionIdx pm then
        let pm = pm\<lparr>m_async_pending := True, m_connectionSwitches := m_connectionSwitches pm + 1,
                    m_activeConnectionIdx := idx, m_connectionAttempt := 0\<rparr>
        in if p_client pm = None then (Null_Dereference, pm) else (Returned, effect Disconnect pm)
      else (Returned, pm\<lparr>m_async_pending := False\<rparr>))"

definition setActiveConnection :: "nat \<Rightarrow> pool_manager \<Rightarrow> call_exit \<times> pool_manager" where
  "setActiveConnection idx pm =
     (if idx \<ge> length (connections (pm_settings pm)) then (Threw (Runtime_Error ''Index out-of bounds.''), pm)
      else setActiveConnectionCommon idx pm)"

text \<open>The first connection whose text agrees up to the case of letters.\<close>

fun find_connection :: "(nat \<Rightarrow> uri) \<Rightarrow> string \<Rightarrow> nat list \<Rightarrow> nat \<Rightarrow> nat option" where
  "find_connection uris s [] i = None"
| "find_connection uris s (a # as) i =
     (if to_lower (u_uri (uris a)) = to_lower s then Some i else find_connection uris s as (Suc i))"

definition setActiveConnection_string :: "string \<Rightarrow> pool_manager \<Rightarrow> call_exit \<times> pool_manager" where
  "setActiveConnection_string s pm =
     (case find_connection (pm_uris pm) s (connections (pm_settings pm)) 0 of
        Some idx \<Rightarrow> setActiveConnectionCommon idx pm
      | None \<Rightarrow> (Threw (Runtime_Error ''Not found.''), pm))"

definition getActiveConnection :: "pool_manager \<Rightarrow> nat option" where
  "getActiveConnection pm =
     (if m_activeConnectionIdx pm < length (connections (pm_settings pm))
      then Some (connections (pm_settings pm) ! m_activeConnectionIdx pm) else None)"

definition pool_start :: "pool_manager \<Rightarrow> pool_manager" where
  "pool_start pm =
     effect Post_Rotate (pm\<lparr>m_running := True, m_async_pending := True,
                           m_connectionSwitches := m_connectionSwitches pm + 1\<rparr>)"

definition active_uri :: "pool_manager \<Rightarrow> uri" where
  "active_uri pm = pm_uris pm (connections (pm_settings pm) ! m_activeConnectionIdx pm)"

definition bounded_index :: "pool_manager \<Rightarrow> pool_manager" where
  "bounded_index pm =
     (if m_activeConnectionIdx pm \<ge> length (connections (pm_settings pm)) then pm\<lparr>m_activeConnectionIdx := 0\<rparr>
      else pm)"

text \<open>The first half of \<open>rotateConnect\<close>: which connection is to be tried, if any is left.\<close>

definition discard_connection :: "pool_manager \<Rightarrow> pool_manager" where
  "discard_connection pm =
     (if u_unrecoverable (active_uri pm) then
        let pm = bounded_index ((erase_connection (m_activeConnectionIdx pm) pm)\<lparr>m_connectionAttempt := 0\<rparr>)
        in pm\<lparr>m_connectionSwitches := m_connectionSwitches pm + 1\<rparr>
      else if length (connections (pm_settings pm)) = 1 \<and> connectionMaxRetries (pm_settings pm) \<noteq> 0 \<and>
              m_connectionAttempt pm \<ge> connectionMaxRetries (pm_settings pm)
      then erase_connection (m_activeConnectionIdx pm) pm
      else pm)"

definition rotate_connection :: "pool_manager \<Rightarrow> pool_manager" where
  "rotate_connection pm =
     (if connections (pm_settings pm) \<noteq> [] \<and> connectionMaxRetries (pm_settings pm) \<noteq> 0 \<and>
         m_connectionAttempt pm \<ge> connectionMaxRetries (pm_settings pm)
      then let pm = bounded_index (pm\<lparr>m_connectionAttempt := 0, m_activeConnectionIdx := m_activeConnectionIdx pm + 1\<rparr>)
           in pm\<lparr>m_connectionSwitches := m_connectionSwitches pm + 1\<rparr>
      else pm)"

text \<open>The second half: a new client for the connection, or the end of the program.\<close>

definition open_connection :: "pool_manager \<Rightarrow> pool_manager" where
  "open_connection pm =
     (if connections (pm_settings pm) \<noteq> [] \<and> u_host (active_uri pm) \<noteq> ''exit'' then
        let a = connections (pm_settings pm) ! m_activeConnectionIdx pm; u = active_uri pm;
            pm = pm\<lparr>p_client := Some \<lparr>c_family = uri_Family u, c_connected = False, c_conn = Some a\<rparr>,
                    m_connectionAttempt := m_connectionAttempt pm + 1,
                    m_selectedHost := u_host u @ '':'' @ decimal (unat (u_port u)),
                    pm_uris := (pm_uris pm)(a := u\<lparr>u_responds := False\<rparr>)\<rparr>
        in if m_connectionAttempt pm > 1 \<and> delayBeforeRetry (pm_settings pm) > 0
           then pm\<lparr>m_reconnecttimer := True\<rparr>
           else effect Connect pm
      else effect Raise_Sigterm ((stop_mining pm)\<lparr>m_running := False\<rparr>))"

definition rotateConnect :: "pool_manager \<Rightarrow> call_exit \<times> pool_manager" where
  "rotateConnect pm =
     (if client_connected pm then (Returned, pm)
      else
        let pm = bounded_index pm
        in if connections (pm_settings pm) = [] then (Threw Out_Of_Range, pm)
           else (Returned, open_connection (rotate_connection (discard_connection pm))))"

subsection \<open>Timers\<close>

text \<open>The handlers of the timers; \<open>ec\<close> says that the timer was cancelled.\<close>

definition failovertimer_elapsed :: "bool \<Rightarrow> pool_manager \<Rightarrow> call_exit \<times> pool_manager" where
  "failovertimer_elapsed ec pm =
     (let pm = pm\<lparr>m_failovertimer := False\<rparr> in
      if \<not> ec \<and> m_running pm \<and> m_activeConnectionIdx pm \<noteq> 0 then
        let pm = pm\<lparr>m_activeConnectionIdx := 0, m_connectionAttempt := 0,
                    m_connectionSwitches := m_connectionSwitches pm + 1\<rparr>
        in if p_client pm = None then (Null_Dereference, pm) else (Returned, effect Disconnect pm)
      else (Returned, pm))"

text \<open>\<open>to_u32\<close> is the conversion of a float.\<close>

definition submithrtimer_elapsed :: "(float_bits \<Rightarrow> u32) \<Rightarrow> bool \<Rightarrow> pool_manager \<Rightarrow> pool_manager" where
  "submithrtimer_elapsed to_u32 ec pm =
     (let pm = pm\<lparr>m_submithrtimer := False\<rparr> in
      if \<not> ec \<and> m_running pm then
        let pm = (if client_connected pm
                  then effect (Submit_Hashrate (ucast (to_u32 (hashrate (tel_farm (m_telemetry (pm_farm pm))))))
                         (hashRateId (pm_settings pm))) pm
                  else pm)
        in pm\<lparr>m_submithrtimer := True\<rparr>
      else pm)"

definition reconnecttimer_elapsed :: "bool \<Rightarrow> pool_manager \<Rightarrow> pool_manager" where
  "reconnecttimer_elapsed ec pm =
     (let pm = pm\<lparr>m_reconnecttimer := False\<rparr> in
      if \<not> ec \<and> m_running pm \<and> p_client pm \<noteq> None \<and> \<not> client_connected pm then effect Connect pm else pm)"

definition getPoolDifficulty :: "pool_manager \<Rightarrow> double_bits" where
  "getPoolDifficulty pm = (if work_package_bool (pm_currentWp pm) then wp_difficulty (pm_currentWp pm) else 0)"

section \<open>The selection of a connection\<close>

text \<open>The index is in range unless no connection is left.\<close>

definition index_ok :: "pool_manager \<Rightarrow> bool" where
  "index_ok pm \<longleftrightarrow>
     m_activeConnectionIdx pm < length (connections (pm_settings pm)) \<or>
     connections (pm_settings pm) = [] \<and> m_activeConnectionIdx pm = 0"

lemma index_ok_bounded: "index_ok (bounded_index pm)"
  by (cases "connections (pm_settings pm)") (auto simp: index_ok_def bounded_index_def)

lemma length_erase:
  "i < length xs \<Longrightarrow> length (take i xs @ drop (Suc i) xs) = length xs - 1"
  by simp

lemma set_erase: "set (take i xs @ drop (Suc i) xs) \<subseteq> set xs"
  using set_take_subset set_drop_subset by fastforce

lemma bounded_index_simps [simp]:
  "pm_settings (bounded_index pm) = pm_settings pm" "pm_farm (bounded_index pm) = pm_farm pm"
  "pm_effects (bounded_index pm) = pm_effects pm" "p_client (bounded_index pm) = p_client pm"
  "m_reconnecttimer (bounded_index pm) = m_reconnecttimer pm" "pm_uris (bounded_index pm) = pm_uris pm"
  "m_connectionAttempt (bounded_index pm) = m_connectionAttempt pm"
  by (simp_all add: bounded_index_def)

lemma discard_connection_simps [simp]:
  "pm_farm (discard_connection pm) = pm_farm pm" "pm_effects (discard_connection pm) = pm_effects pm"
  "p_client (discard_connection pm) = p_client pm" "pm_uris (discard_connection pm) = pm_uris pm"
  "m_reconnecttimer (discard_connection pm) = m_reconnecttimer pm"
  by (simp_all add: discard_connection_def Let_def erase_connection_def)

lemma rotate_connection_simps [simp]:
  "pm_farm (rotate_connection pm) = pm_farm pm" "pm_effects (rotate_connection pm) = pm_effects pm"
  "p_client (rotate_connection pm) = p_client pm" "pm_uris (rotate_connection pm) = pm_uris pm"
  "m_reconnecttimer (rotate_connection pm) = m_reconnecttimer pm"
  "pm_settings (rotate_connection pm) = pm_settings pm"
  by (simp_all add: rotate_connection_def Let_def)

lemma discard_connection_ok:
  assumes "m_activeConnectionIdx pm < length (connections (pm_settings pm))"
  shows "index_ok (discard_connection pm)"
    and "set (connections (pm_settings (discard_connection pm))) \<subseteq> set (connections (pm_settings pm))"
proof -
  show "index_ok (discard_connection pm)"
    using assms index_ok_bounded [of "(erase_connection (m_activeConnectionIdx pm) pm)\<lparr>m_connectionAttempt := 0\<rparr>"]
    by (auto simp: discard_connection_def Let_def index_ok_def erase_connection_def)
  show "set (connections (pm_settings (discard_connection pm))) \<subseteq> set (connections (pm_settings pm))"
    using set_erase [of "m_activeConnectionIdx pm" "connections (pm_settings pm)"]
    by (auto simp: discard_connection_def Let_def erase_connection_def)
qed

lemma rotate_connection_ok: "index_ok pm \<Longrightarrow> index_ok (rotate_connection pm)"
  using index_ok_bounded [of "pm\<lparr>m_connectionAttempt := 0, m_activeConnectionIdx := m_activeConnectionIdx pm + 1\<rparr>"]
  by (auto simp: rotate_connection_def Let_def index_ok_def)

text \<open>What a run of \<open>rotateConnect\<close> that is not cut short leaves behind.\<close>

definition opened :: "pool_manager \<Rightarrow> pool_manager \<Rightarrow> bool" where
  "opened pm pm' \<longleftrightarrow>
     m_activeConnectionIdx pm' < length (connections (pm_settings pm')) \<and>
     p_client pm' = Some \<lparr>c_family = uri_Family (active_uri pm'), c_connected = False,
       c_conn = Some (connections (pm_settings pm') ! m_activeConnectionIdx pm')\<rparr> \<and>
     u_host (active_uri pm') \<noteq> ''exit'' \<and> \<not> u_responds (active_uri pm') \<and>
     (pm_effects pm' = pm_effects pm @ [Connect] \<or> pm_effects pm' = pm_effects pm \<and> m_reconnecttimer pm')"

definition given_up :: "pool_manager \<Rightarrow> pool_manager \<Rightarrow> bool" where
  "given_up pm pm' \<longleftrightarrow>
     (connections (pm_settings pm') = [] \<or> u_host (active_uri pm') = ''exit'') \<and>
     \<not> m_running pm' \<and> \<not> m_isMining (pm_farm pm') \<and> pm_effects pm' = pm_effects pm @ [Raise_Sigterm]"

lemma open_connection_cases:
  assumes "index_ok pm"
  shows "opened pm (open_connection pm) \<or> given_up pm (open_connection pm)"
  using assms
  by (auto simp: opened_def given_up_def open_connection_def Let_def effect_def active_uri_def index_ok_def
      stop_mining_def farm_stop_def uri_Family_def scheme_of_def)

text \<open>C30. Trying the next connection fails only if there is no connection at all. Otherwise the index stays
  within the list, whose entries are some of those it had before. Either a client for the selected
  connection and of its family exists and the connection is attempted, at once or when the timer for
  retries elapses; or no connection is left, or the one selected is the word to exit, and then mining
  has stopped and the program is told to end.\<close>

theorem rotateConnect_correct:
  assumes "rotateConnect pm = (e, pm')" and "\<not> client_connected pm"
  shows "(e = Threw Out_Of_Range \<longleftrightarrow> connections (pm_settings pm) = []) \<and>
    (connections (pm_settings pm) \<noteq> [] \<longrightarrow> e = Returned \<and> (opened pm pm' \<or> given_up pm pm') \<and>
      set (connections (pm_settings pm')) \<subseteq> set (connections (pm_settings pm)))"
proof (cases "connections (pm_settings pm) = []")
  case True
  then show ?thesis using assms by (simp add: rotateConnect_def Let_def)
next
  case False
  let ?b = "bounded_index pm" and ?r = "rotate_connection (discard_connection (bounded_index pm))"
  have r: "e = Returned" "pm' = open_connection ?r"
    using assms False by (auto simp: rotateConnect_def Let_def)
  have "m_activeConnectionIdx ?b < length (connections (pm_settings ?b))"
    using False index_ok_bounded [of pm] by (simp add: index_ok_def)
  note d = discard_connection_ok [OF this]
  have "opened ?r pm' \<or> given_up ?r pm'"
    using open_connection_cases [OF rotate_connection_ok [OF d(1)]] r(2) by simp
  then have "opened pm pm' \<or> given_up pm pm'" by (simp add: opened_def given_up_def)
  moreover have "pm_settings (open_connection ?r) = pm_settings ?r"
    by (simp add: open_connection_def Let_def effect_def stop_mining_def)
  ultimately show ?thesis using r False d(2) by simp
qed

text \<open>A manager that has started, with one connection and at most two retries.\<close>

definition pool_example :: pool_manager where
  "pool_example =
     pool_start (pool_manager_new
       \<lparr>connections = [7], getWorkPollInterval = 500, noWorkTimeout = 180, noResponseTimeout = 2,
        poolFailoverTimeout = 0, reportHashrate = False, hashRateInterval = 60, hashRateId = [],
        connectionMaxRetries = 2, delayBeforeRetry = 3, benchmarkBlock = 0\<rparr>
       (\<lambda>_. (uri_blank ''stratum://pool:4444'')\<lparr>u_scheme := ''stratum'', u_host := ''pool'', u_port := 4444\<rparr>)
       farm_example)"

theorem rotateConnect_correct_witness:
  "fst (rotateConnect pool_example) = Returned \<and> opened pool_example (snd (rotateConnect pool_example))"
proof -
  obtain e pm where r: "rotateConnect pool_example = (e, pm)" by fastforce
  have "e = Returned \<and> (opened pool_example pm \<or> given_up pool_example pm) \<and> set (connections (pm_settings pm)) \<subseteq> {7}"
    using rotateConnect_correct [OF r]
    by (simp add: pool_example_def pool_start_def pool_manager_new_def effect_def client_connected_def)
  moreover have "m_running pm" using r
    by (auto simp: pool_example_def pool_start_def pool_manager_new_def effect_def client_connected_def
        rotateConnect_def bounded_index_def discard_connection_def rotate_connection_def open_connection_def
        active_uri_def uri_blank_def Let_def)
  ultimately show ?thesis using r by (simp add: given_up_def)
qed

section \<open>Retries\<close>

text \<open>
  One failed attempt: the timer for retries elapses if it is armed, the client reports that the
  connection is gone, and the next connection is tried.
\<close>

definition failed_attempt :: "pool_manager \<Rightarrow> pool_manager" where
  "failed_attempt pm =
     (let pm = (if m_reconnecttimer pm then reconnecttimer_elapsed False pm else pm)
      in snd (rotateConnect (onDisconnected pm)))"

text \<open>The state after \<open>k\<close> attempts at the only connection; \<open>n\<close> connections were opened before.\<close>

definition retrying :: "nat \<Rightarrow> u32 \<Rightarrow> nat \<Rightarrow> nat \<Rightarrow> pool_manager \<Rightarrow> bool" where
  "retrying a r n k pm \<longleftrightarrow>
     connections (pm_settings pm) = [a] \<and> connectionMaxRetries (pm_settings pm) = r \<and>
     u_host (pm_uris pm a) \<noteq> ''exit'' \<and> \<not> u_unrecoverable (pm_uris pm a) \<and>
     m_running pm \<and> \<not> m_stopping pm \<and> \<not> client_connected pm \<and> (k = 0 \<or> p_client pm \<noteq> None) \<and>
     m_connectionAttempt pm = word_of_nat k \<and> Raise_Sigterm \<notin> set (pm_effects pm) \<and>
     count_list (pm_effects pm) Connect + of_bool (m_reconnecttimer pm) = n + k"

lemma open_connection_retrying:
  assumes "retrying a r n k pm" and "\<not> m_reconnecttimer pm" and "m_activeConnectionIdx pm = 0"
  shows "retrying a r n (Suc k) (open_connection pm)"
proof -
  have "active_uri pm = pm_uris pm a" using assms by (simp add: active_uri_def retrying_def)
  with assms show ?thesis
    by (simp add: retrying_def open_connection_def Let_def effect_def client_connected_def add.commute)
qed

lemma rotateConnect_retrying:
  assumes "retrying a r n k pm" and "k < unat r" and "\<not> m_reconnecttimer pm"
  shows "retrying a r n (Suc k) (snd (rotateConnect pm))"
proof -
  let ?b = "pm\<lparr>m_activeConnectionIdx := 0\<rparr>"
  have "word_of_nat k < r"
    using assms(2) by (simp add: word_less_nat_alt unat_of_nat le_less_trans [OF mod_less_eq_dividend])
  then have less: "\<not> r \<le> m_connectionAttempt pm" using assms(1) by (simp add: retrying_def)
  have b: "bounded_index pm = ?b" using assms(1) by (auto simp: retrying_def bounded_index_def)
  have d: "discard_connection ?b = ?b"
    using assms(1) less by (simp add: retrying_def discard_connection_def active_uri_def)
  have r: "rotate_connection ?b = ?b" using assms(1) less by (simp add: retrying_def rotate_connection_def)
  have "snd (rotateConnect pm) = open_connection ?b"
    using assms(1) b d r by (simp add: rotateConnect_def Let_def retrying_def)
  moreover have "retrying a r n k ?b" using assms(1) by (simp add: retrying_def client_connected_def)
  ultimately show ?thesis using open_connection_retrying assms(3) by simp
qed

lemma onDisconnected_retrying:
  "retrying a r n k pm \<Longrightarrow> retrying a r n k (onDisconnected pm)"
  by (auto simp: retrying_def onDisconnected_def Let_def effect_def client_connected_def
      split: option.splits)

lemma reconnecttimer_elapsed_retrying:
  "\<lbrakk>retrying a r n k pm; m_reconnecttimer pm; 0 < k\<rbrakk> \<Longrightarrow> retrying a r n k (reconnecttimer_elapsed False pm)"
  by (auto simp: retrying_def reconnecttimer_elapsed_def Let_def effect_def client_connected_def)

lemma m_reconnecttimer_simps [simp]:
  "m_reconnecttimer (onDisconnected pm) = m_reconnecttimer pm"
  "\<not> m_reconnecttimer (reconnecttimer_elapsed ec pm)"
  by (simp_all add: onDisconnected_def reconnecttimer_elapsed_def Let_def effect_def stop_mining_def)

lemma failed_attempt_prepare:
  assumes "retrying a r n k pm" and "0 < k"
  obtains pm' where "retrying a r n k pm'" "\<not> m_reconnecttimer pm'" "failed_attempt pm = snd (rotateConnect pm')"
proof (rule that)
  let ?t = "if m_reconnecttimer pm then reconnecttimer_elapsed False pm else pm"
  show "failed_attempt pm = snd (rotateConnect (onDisconnected ?t))" by (simp add: failed_attempt_def Let_def)
  show "retrying a r n k (onDisconnected ?t)"
    using assms by (simp add: onDisconnected_retrying reconnecttimer_elapsed_retrying)
  show "\<not> m_reconnecttimer (onDisconnected ?t)" by simp
qed

lemma failed_attempts_retrying:
  assumes "retrying a r n 0 pm" and "\<not> m_reconnecttimer pm" and "k < unat r"
  shows "retrying a r n (Suc k) ((failed_attempt ^^ k) (snd (rotateConnect pm)))"
  using assms(3)
proof (induction k)
  case 0
  then show ?case using rotateConnect_retrying assms by simp
next
  case (Suc k)
  then have "retrying a r n (Suc k) ((failed_attempt ^^ k) (snd (rotateConnect pm)))" by simp
  then obtain pm' where "retrying a r n (Suc k) pm'" "\<not> m_reconnecttimer pm'"
      "failed_attempt ((failed_attempt ^^ k) (snd (rotateConnect pm))) = snd (rotateConnect pm')"
    by (rule failed_attempt_prepare) simp
  then show ?case using rotateConnect_retrying Suc.prems by simp
qed

lemma rotateConnect_exhausted:
  assumes "retrying a r n (unat r) pm" and "r \<noteq> 0"
  shows "given_up pm (snd (rotateConnect pm))" and "connections (pm_settings (snd (rotateConnect pm))) = []"
proof -
  let ?b = "pm\<lparr>m_activeConnectionIdx := 0\<rparr>" and ?e = "erase_connection 0 (pm\<lparr>m_activeConnectionIdx := 0\<rparr>)"
  have b: "bounded_index pm = ?b" using assms(1) by (auto simp: retrying_def bounded_index_def)
  have d: "discard_connection ?b = ?e"
    using assms by (simp add: retrying_def discard_connection_def active_uri_def)
  have c: "connections (pm_settings ?e) = []" using assms(1) by (simp add: retrying_def erase_connection_def)
  then have r: "rotate_connection ?e = ?e" by (simp add: rotate_connection_def)
  have o: "snd (rotateConnect pm) = effect Raise_Sigterm ((stop_mining ?e)\<lparr>m_running := False\<rparr>)"
    using assms(1) b d r c by (simp add: rotateConnect_def Let_def retrying_def open_connection_def)
  show "connections (pm_settings (snd (rotateConnect pm))) = []"
    using c by (simp add: o effect_def stop_mining_def)
  then show "given_up pm (snd (rotateConnect pm))"
    by (simp add: given_up_def o effect_def stop_mining_def farm_stop_def erase_connection_def)
qed

text \<open>C31. With one connection and a limit \<open>r\<close> on the retries, a connection that never comes up is attempted
  exactly \<open>r\<close> times. As long as fewer attempts have failed the program goes on; after the last of them
  has failed no connection is left, mining has stopped and the program is told to end.\<close>

theorem retries_end:
  assumes "connections (pm_settings pm) = [a]" and "connectionMaxRetries (pm_settings pm) = r" and "r \<noteq> 0"
    and "u_host (pm_uris pm a) \<noteq> ''exit''" and "\<not> u_unrecoverable (pm_uris pm a)"
    and "m_running pm" and "\<not> m_stopping pm" and "\<not> client_connected pm" and "m_connectionAttempt pm = 0"
    and "\<not> m_reconnecttimer pm" and "Raise_Sigterm \<notin> set (pm_effects pm)"
  shows "(\<forall>k. k < unat r \<longrightarrow>
      Raise_Sigterm \<notin> set (pm_effects ((failed_attempt ^^ k) (snd (rotateConnect pm))))) \<and>
    (let pm' = (failed_attempt ^^ unat r) (snd (rotateConnect pm)) in
      connections (pm_settings pm') = [] \<and> \<not> m_running pm' \<and> \<not> m_isMining (pm_farm pm') \<and>
      last (pm_effects pm') = Raise_Sigterm \<and>
      count_list (pm_effects pm') Connect = count_list (pm_effects pm) Connect + unat r)"
proof -
  define n where "n = count_list (pm_effects pm) Connect"
  have start: "retrying a r n 0 pm" using assms by (simp add: retrying_def n_def)
  note steps = failed_attempts_retrying [OF start assms(10)]
  obtain m where m: "unat r = Suc m" using \<open>r \<noteq> 0\<close> by (metis not0_implies_Suc unat_eq_0)
  let ?last = "(failed_attempt ^^ m) (snd (rotateConnect pm))"
  have "retrying a r n (unat r) ?last" using steps m by simp
  then obtain pm' where pm': "retrying a r n (unat r) pm'" "\<not> m_reconnecttimer pm'"
      "failed_attempt ?last = snd (rotateConnect pm')"
    by (rule failed_attempt_prepare) (simp add: m)
  note stop = rotateConnect_exhausted [OF pm'(1) assms(3)]
  have "count_list (pm_effects pm') Connect = n + unat r" using pm' by (simp add: retrying_def)
  then show ?thesis
    using steps stop pm'(3) by (simp add: m n_def given_up_def retrying_def)
qed

theorem retries_end_witness:
  "let pm = failed_attempt (failed_attempt (snd (rotateConnect pool_example)))
   in connections (pm_settings pm) = [] \<and> last (pm_effects pm) = Raise_Sigterm \<and> count_list (pm_effects pm) Connect = 2"
proof -
  have "(failed_attempt ^^ 2) pm = failed_attempt (failed_attempt pm)" for pm by (simp add: numeral_2_eq_2)
  then show ?thesis
    using retries_end [of pool_example 7 2]
    by (simp add: pool_example_def pool_start_def pool_manager_new_def effect_def client_connected_def
        uri_blank_def Let_def)
qed

section \<open>The epoch of the work\<close>

text \<open>The epoch of the current work, if it is known, is the one its seed belongs to.\<close>

definition epoch_ok :: "host \<Rightarrow> pool_manager \<Rightarrow> bool" where
  "epoch_ok h pm \<longleftrightarrow>
     epoch_search_cache_ok (pm_epoch_cache pm) \<and>
     (let wp = pm_currentWp pm
      in wp_epoch wp = -1 \<or> 0 \<le> wp_epoch wp \<and>
         seed_part h (ethash_calculate_epoch_seed h (wp_epoch wp)) = seed_part h (wp_seed wp))"

lemma epoch_ok_new [simp]: "epoch_ok h (pool_manager_new settings uris f)"
  by (simp add: epoch_ok_def pool_manager_new_def work_package_default_def)

lemma epoch_ok_onConnected [simp]: "epoch_ok h (onConnected b pm) = epoch_ok h pm"
  by (simp add: epoch_ok_def onConnected_def Let_def)

lemma epoch_ok_onDisconnected [simp]: "epoch_ok h (onDisconnected pm) = epoch_ok h pm"
  by (simp add: epoch_ok_def onDisconnected_def Let_def effect_def stop_mining_def)

text \<open>The epoch that a work package with a seed alone gets.\<close>

definition epoch_for :: "host \<Rightarrow> work_package \<Rightarrow> pool_manager \<Rightarrow> int \<times> epoch_search_cache" where
  "epoch_for h wp pm =
     (if wp_epoch (pm_currentWp pm) = -1 \<or> wp_seed wp \<noteq> wp_seed (pm_currentWp pm)
      then find_epoch_number h (wp_seed wp) (pm_epoch_cache pm)
      else (wp_epoch (pm_currentWp pm), pm_epoch_cache pm))"

lemma onWorkReceived_seed:
  assumes "work_package_bool wp" and "wp_epoch wp = -1" and "wp_block wp = -1" and "mode \<noteq> 3"
    and "epoch_for h wp pm = (e, cache)"
  shows "pm_currentWp (onWorkReceived h u random mode wp pm) = wp\<lparr>wp_epoch := e\<rparr>"
    and "pm_epoch_cache (onWorkReceived h u random mode wp pm) = cache"
    and "pm_farm (onWorkReceived h u random mode wp pm) = farm_setWork u random (wp\<lparr>wp_epoch := e\<rparr>) (pm_farm pm)"
  using assms by (auto simp: onWorkReceived_def epoch_for_def Let_def split_beta)

lemma epoch_for_ok:
  assumes "epoch_ok h pm" and "epoch_for h wp pm = (e, cache)"
  shows "epoch_search_cache_ok cache \<and>
    (e = -1 \<and> (\<forall>j < num_tries. seed_part h (ethash_calculate_epoch_seed h (int j)) \<noteq> seed_part h (wp_seed wp)) \<or>
     0 \<le> e \<and> seed_part h (ethash_calculate_epoch_seed h e) = seed_part h (wp_seed wp))"
proof (cases "wp_epoch (pm_currentWp pm) = -1 \<or> wp_seed wp \<noteq> wp_seed (pm_currentWp pm)")
  case True
  then show ?thesis
    using find_epoch_number_cases [of "pm_epoch_cache pm" h "wp_seed wp" e cache] assms
    by (auto simp: epoch_for_def epoch_ok_def Let_def epoch_seed_spec)
next
  case False
  then show ?thesis using assms by (auto simp: epoch_for_def epoch_ok_def Let_def)
qed



end
