(* ===== verification/Api_Server.thy ===== *)
theory Api_Server
  imports Pool_Manager Json_Example
begin

text \<open>
  The server for remote control of \<^verbatim>\<open>libapi/ApiServer.cpp\<close>: its connections with their requests in JSON and
  over HTTP, and the access they have to the pool manager and the farm. The texts and values that report
  statistics are arguments, as is the library for JSON. The lemmas show that nothing is changed for a
  connection that is not authorized or may only read, and how a connection becomes authorized.
\<close>

section \<open>The C++ routines\<close>

datatype api_effect = Api_Write string bool | Api_Read | Api_Disconnected int | Restart_Async | Reboot

record api_connection =
  m_sessionId :: int
  api_open :: bool
  api_message :: string
  m_readonly :: bool
  m_password :: string
  m_is_authenticated :: bool

text \<open>The members of the response that are set.\<close>

record 'j api_response =
  resp_id :: "'j option"
  resp_result :: "'j option"
  resp_error :: "(int \<times> string) option"

text \<open>What a request can reach: the connection, the pool manager with the farm, and the options for the log.\<close>

record 'j api_state =
  api_conn :: api_connection
  api_pm :: pool_manager
  g_logOptions :: u32
  api_effects :: "api_effect list"
  api_resp :: "'j api_response"

text \<open>
  The results of calls that are not modelled: the statistics as values and as texts, the connections, the
  result of the reboot script, the parser of IP addresses, the address of a new object, and the texts of
  exceptions.
\<close>

record 'j api_environment =
  getMinerStat1 :: "pool_manager \<Rightarrow> 'j"
  getMinerStatDetail :: "pool_manager \<Rightarrow> 'j"
  getConnectionsJson :: "pool_manager \<Rightarrow> 'j"
  getHttpMinerMetrics :: "pool_manager \<Rightarrow> std_error + string"
  getHttpMinerStatDetail :: "pool_manager \<Rightarrow> std_error + string"
  reboot_result :: bool
  env_parse_address :: "string \<Rightarrow> (bool \<times> bool) option"
  new_address :: "pool_manager \<Rightarrow> nat"
  exception_text :: "std_error \<Rightarrow> string"
  parse_errors :: "string \<Rightarrow> string"

definition what_text :: "'j api_environment \<Rightarrow> std_error \<Rightarrow> string" where
  "what_text env e = (case e of Runtime_Error s \<Rightarrow> s | _ \<Rightarrow> exception_text env e)"

definition log_next :: u32 where "log_next = 256"

definition set_error :: "int \<Rightarrow> string \<Rightarrow> 'j api_state \<Rightarrow> 'j api_state" where
  "set_error code msg st = st\<lparr>api_resp := (api_resp st)\<lparr>resp_error := Some (code, msg)\<rparr>\<rparr>"

definition set_result :: "'j \<Rightarrow> 'j api_state \<Rightarrow> 'j api_state" where
  "set_result v st = st\<lparr>api_resp := (api_resp st)\<lparr>resp_result := Some v\<rparr>\<rparr>"

definition set_id :: "'j \<Rightarrow> 'j api_state \<Rightarrow> 'j api_state" where
  "set_id v st = st\<lparr>api_resp := (api_resp st)\<lparr>resp_id := Some v\<rparr>\<rparr>"

definition api_emit :: "api_effect \<Rightarrow> 'j api_state \<Rightarrow> 'j api_state" where
  "api_emit e st = st\<lparr>api_effects := api_effects st @ [e]\<rparr>"

definition on_pm :: "(pool_manager \<Rightarrow> pool_manager) \<Rightarrow> 'j api_state \<Rightarrow> 'j api_state" where
  "on_pm f st = st\<lparr>api_pm := f (api_pm st)\<rparr>"

subsection \<open>Reading requests\<close>

text \<open>
  The four functions \<open>getRequestValue\<close> differ in the type they accept and in the conversion. A result
  \<open>None\<close> is the result \<open>false\<close>. All callers require the value. The member that is read exists, so that
  reading it does not change the request.
\<close>

definition getRequestValue ::
    "'j jsoncpp \<Rightarrow> ('j \<Rightarrow> bool) \<Rightarrow> ('j \<Rightarrow> std_error + 'a) \<Rightarrow> string \<Rightarrow> 'j \<Rightarrow> 'j api_state \<Rightarrow>
     ('a \<Rightarrow> call_exit \<times> 'j api_state) \<Rightarrow> ('j api_state \<Rightarrow> call_exit \<times> 'j api_state) \<Rightarrow> call_exit \<times> 'j api_state" where
  "getRequestValue jc is_type conv name jRequest st found refused =
     require (j_isMember jc jRequest name) st (\<lambda>member.
       if \<not> member then refused (set_error (-32602) (''Missing '' @ [CHR 39] @ name @ [CHR 39]) st)
       else
         require (j_at jc jRequest name) st (\<lambda>(obj, v).
           if \<not> is_type v
           then refused (set_error (-32602) (''Invalid type of value '' @ [CHR 39] @ name @ [CHR 39]) st)
           else if j_empty jc v then refused (set_error (-32602) (''Empty '' @ [CHR 39] @ name @ [CHR 39]) st)
           else require (conv v) st found))"

definition getBool where
  "getBool jc = getRequestValue jc (j_isBool jc) (j_asBool jc)"

definition getUnsigned where
  "getUnsigned jc = getRequestValue jc (j_isUInt jc) (j_asUInt jc)"

definition getObject where
  "getObject jc = getRequestValue jc (j_isObject jc) Inr"

definition getString where
  "getString jc = getRequestValue jc (j_isString jc) (j_asString jc)"

definition returned :: "'j api_state \<Rightarrow> call_exit \<times> 'j api_state" where
  "returned st = (Returned, st)"

text \<open>A method that needs write access.\<close>

definition checkApiWriteAccess ::
    "'j api_state \<Rightarrow> ('j api_state \<Rightarrow> call_exit \<times> 'j api_state) \<Rightarrow> call_exit \<times> 'j api_state" where
  "checkApiWriteAccess st k =
     (if m_readonly (api_conn st) then (Returned, set_error (-32601) ''Method not available'' st) else k st)"

definition parseRequestId ::
    "'j jsoncpp \<Rightarrow> 'j \<Rightarrow> 'j api_state \<Rightarrow> ('j api_state \<Rightarrow> call_exit \<times> 'j api_state) \<Rightarrow> call_exit \<times> 'j api_state" where
  "parseRequestId jc jRequest st k =
     require (j_isMember jc jRequest ''id'') st (\<lambda>member.
     require (if member then bind_sum (j_at jc jRequest ''id'') (\<lambda>(obj, v). Inr (Some v)) else Inr None) st (\<lambda>v.
       case v of
         None \<Rightarrow> (Returned, set_error (-32600) ''Invalid Request (missing or empty id)'' (set_id (j_null jc) st))
       | Some v \<Rightarrow>
           if j_empty jc v
           then (Returned, set_error (-32600) ''Invalid Request (missing or empty id)'' (set_id (j_null jc) st))
           else if j_isUInt jc v then require (j_asUInt jc v) st (\<lambda>i. k (set_id (j_of_uint jc i) st))
           else if j_isString jc v then require (j_asString jc v) st (\<lambda>s. k (set_id (j_of_string jc s) st))
           else (Returned, set_error (-32600) ''Invalid Request (id has invalid type)'' (set_id (j_null jc) st))))"

subsection \<open>Authorization\<close>

text \<open>The characters that are compared: the first 500, with zeros behind a shorter text.\<close>

definition max_length :: nat where "max_length = 500"

definition char_copy :: "string \<Rightarrow> string" where
  "char_copy s = take max_length s @ replicate (max_length - length s) (CHR 0x00)"

definition password_difference :: "string \<Rightarrow> string \<Rightarrow> u8" where
  "password_difference a b =
     foldl (\<lambda>r (x, y). or r (xor (word_of_nat (of_char x)) (word_of_nat (of_char y)))) 0
       (zip (char_copy a) (char_copy b))"

definition api_authorize :: "'j jsoncpp \<Rightarrow> 'j \<Rightarrow> 'j api_state \<Rightarrow> call_exit \<times> 'j api_state" where
  "api_authorize jc jRequest st =
     (let st = st\<lparr>api_conn := (api_conn st)\<lparr>m_is_authenticated := False\<rparr>\<rparr>
      in getObject jc ''params'' jRequest st (\<lambda>params.
         getString jc ''psw'' params st (\<lambda>psw.
           if password_difference psw (m_password (api_conn st)) = 0
           then (Returned, st\<lparr>api_conn := (api_conn st)\<lparr>m_is_authenticated := True\<rparr>\<rparr>)
           else (Returned, set_error (-401) ''Invalid password'' st)) returned) returned)"

subsection \<open>Methods\<close>

definition miner_addconnection ::
    "'j jsoncpp \<Rightarrow> 'j api_environment \<Rightarrow> 'j \<Rightarrow> 'j api_state \<Rightarrow> call_exit \<times> 'j api_state" where
  "miner_addconnection jc env jRequest st =
     getObject jc ''params'' jRequest st (\<lambda>params.
     getString jc ''uri'' params st (\<lambda>sUri.
       case uri_new (env_parse_address env) False sUri of
         Inl e \<Rightarrow> (Returned, set_error (-422) (''Bad URI : '' @ sUri) st)
       | Inr u \<Rightarrow>
           let a = new_address env (api_pm st)
           in (Returned, set_result (j_of_bool jc True)
                (on_pm (\<lambda>pm. addConnection a (pm\<lparr>pm_uris := (pm_uris pm)(a := u)\<rparr>)) st))) returned) returned"

text \<open>A call of the pool manager whose exceptions are reported.\<close>

definition guarded ::
    "'j jsoncpp \<Rightarrow> 'j api_environment \<Rightarrow> (pool_manager \<Rightarrow> call_exit \<times> pool_manager) \<Rightarrow> 'j api_state \<Rightarrow>
     call_exit \<times> 'j api_state" where
  "guarded jc env f st =
     (case f (api_pm st) of
        (Returned, pm) \<Rightarrow> (Returned, set_result (j_of_bool jc True) (st\<lparr>api_pm := pm\<rparr>))
      | (Threw e, pm) \<Rightarrow> (Returned, set_error (-422) (what_text env e) (st\<lparr>api_pm := pm\<rparr>))
      | (x, pm) \<Rightarrow> (x, st\<lparr>api_pm := pm\<rparr>))"

definition miner_setactiveconnection ::
    "'j jsoncpp \<Rightarrow> 'j api_environment \<Rightarrow> 'j \<Rightarrow> 'j api_state \<Rightarrow> call_exit \<times> 'j api_state" where
  "miner_setactiveconnection jc env jRequest st =
     getObject jc ''params'' jRequest st (\<lambda>params.
     require (j_isMember jc params ''index'') st (\<lambda>member.
       if member then
         getUnsigned jc ''index'' params st (\<lambda>i. guarded jc env (setActiveConnection (unat i)) st)
           (\<lambda>st. (Returned, set_error (-422) ''Invalid index'' st))
       else
         getString jc ''URI'' params st (\<lambda>u. guarded jc env (setActiveConnection_string u) st)
           (\<lambda>st. (Returned, set_error (-422) ''Invalid index'' st)))) returned"

definition miner_removeconnection ::
    "'j jsoncpp \<Rightarrow> 'j api_environment \<Rightarrow> 'j \<Rightarrow> 'j api_state \<Rightarrow> call_exit \<times> 'j api_state" where
  "miner_removeconnection jc env jRequest st =
     getObject jc ''params'' jRequest st (\<lambda>params.
     getUnsigned jc ''index'' params st (\<lambda>i. guarded jc env (removeConnection (unat i)) st) returned) returned"

definition on_miner :: "nat \<Rightarrow> (miner \<Rightarrow> miner) \<Rightarrow> pool_manager \<Rightarrow> pool_manager" where
  "on_miner i f pm = pm\<lparr>pm_farm := (pm_farm pm)\<lparr>m_miners := (m_miners (pm_farm pm))[i := f (m_miners (pm_farm pm) ! i)]\<rparr>\<rparr>"

definition miner_pausegpu :: "'j jsoncpp \<Rightarrow> 'j \<Rightarrow> 'j api_state \<Rightarrow> call_exit \<times> 'j api_state" where
  "miner_pausegpu jc jRequest st =
     getObject jc ''params'' jRequest st (\<lambda>params.
     getUnsigned jc ''index'' params st (\<lambda>i.
     getBool jc ''pause'' params st (\<lambda>pause.
       if unat i < length (m_miners (pm_farm (api_pm st))) then
         (Returned, set_result (j_of_bool jc True)
            (on_pm (on_miner (unat i)
               (if pause then miner_pause_for PauseDueToAPIRequest else miner_resume PauseDueToAPIRequest)) st))
       else (Returned, set_error (-422) ''Index out of bounds'' st)) returned) returned) returned"

definition miner_setverbosity :: "'j jsoncpp \<Rightarrow> 'j \<Rightarrow> 'j api_state \<Rightarrow> call_exit \<times> 'j api_state" where
  "miner_setverbosity jc jRequest st =
     getObject jc ''params'' jRequest st (\<lambda>params.
     getUnsigned jc ''verbosity'' params st (\<lambda>verbosity.
       if verbosity \<ge> log_next
       then (Returned, set_error (-422)
              (''Verbosity out of bounds (0-'' @ decimal (unat (log_next - 1)) @ '')'') st)
       else (Returned, set_result (j_of_bool jc True) (st\<lparr>g_logOptions := verbosity\<rparr>))) returned) returned"

definition miner_setnonce :: "'j jsoncpp \<Rightarrow> 'j \<Rightarrow> 'j api_state \<Rightarrow> call_exit \<times> 'j api_state" where
  "miner_setnonce jc jRequest st =
     getObject jc ''params'' jRequest st (\<lambda>params.
     require (j_isMember jc params ''nonce'') st (\<lambda>member.
       if \<not> member then (Returned, set_result (j_of_bool jc True) st)
       else
         getString jc ''nonce'' params st (\<lambda>nonce.
           if list_all is_hex nonce
           then (Returned, set_result (j_of_bool jc True)
                  (on_pm (\<lambda>pm. pm\<lparr>pm_farm := (pm_farm pm)\<lparr>m_Settings := (m_Settings (pm_farm pm))\<lparr>set_nonce := nonce\<rparr>\<rparr>\<rparr>) st))
           else (Returned, set_error (-422) ''Invalid nonce'' st))
           (\<lambda>st. (Returned, set_error (-422) ''Invalid nonce'' st)))) returned"

definition api_method ::
    "'j jsoncpp \<Rightarrow> 'j api_environment \<Rightarrow> string \<Rightarrow> 'j \<Rightarrow> 'j api_state \<Rightarrow> call_exit \<times> 'j api_state" where
  "api_method jc env meth jRequest st =
     (if meth = ''miner_getstat1'' then (Returned, set_result (getMinerStat1 env (api_pm st)) st)
      else if meth = ''miner_getstatdetail'' then (Returned, set_result (getMinerStatDetail env (api_pm st)) st)
      else if meth = ''miner_ping'' then (Returned, set_result (j_of_string jc ''pong'') st)
      else if meth = ''miner_restart'' then
        checkApiWriteAccess st (\<lambda>st. (Returned, api_emit Restart_Async (set_result (j_of_bool jc True) st)))
      else if meth = ''miner_reboot'' then
        checkApiWriteAccess st (\<lambda>st. (Returned, set_result (j_of_bool jc (reboot_result env)) (api_emit Reboot st)))
      else if meth = ''miner_getconnections'' then (Returned, set_result (getConnectionsJson env (api_pm st)) st)
      else if meth = ''miner_addconnection'' then checkApiWriteAccess st (miner_addconnection jc env jRequest)
      else if meth = ''miner_setactiveconnection'' then
        checkApiWriteAccess st (miner_setactiveconnection jc env jRequest)
      else if meth = ''miner_removeconnection'' then checkApiWriteAccess st (miner_removeconnection jc env jRequest)
      else if meth = ''miner_pausegpu'' then checkApiWriteAccess st (miner_pausegpu jc jRequest)
      else if meth = ''miner_setverbosity'' then checkApiWriteAccess st (miner_setverbosity jc jRequest)
      else if meth = ''miner_setnonce'' then checkApiWriteAccess st (miner_setnonce jc jRequest)
      else if meth = ''miner_getnonce''
      then (Returned, set_result (j_of_string jc (set_nonce (m_Settings (pm_farm (api_pm st))))) st)
      else (Returned, set_error (-32601) ''Method not found'' st))"

definition invalid_request :: "'j api_state \<Rightarrow> call_exit \<times> 'j api_state" where
  "invalid_request st = (Returned, set_error (-32600) ''Invalid Request'' st)"

definition processRequest ::
    "'j jsoncpp \<Rightarrow> 'j api_environment \<Rightarrow> 'j \<Rightarrow> 'j api_state \<Rightarrow> call_exit \<times> 'j api_state" where
  "processRequest jc env jRequest st =
     parseRequestId jc jRequest st (\<lambda>st.
     getString jc ''jsonrpc'' jRequest st (\<lambda>jsonrpc.
       if jsonrpc \<noteq> ''2.0'' then invalid_request st
       else
         getString jc ''method'' jRequest st (\<lambda>meth.
           if meth = ''api_authorize'' then api_authorize jc jRequest st
           else if \<not> m_is_authenticated (api_conn st) then (Returned, set_error (-403) ''Authorization needed'' st)
           else api_method jc env meth jRequest st) invalid_request) invalid_request)"

subsection \<open>Connections\<close>

text \<open>
  The response as a value. An exception and a text that is no JSON are answered with a member
  \<open>errorcode\<close> that is a text.
\<close>

definition response_value :: "'j jsoncpp \<Rightarrow> 'j api_response \<Rightarrow> 'j" where
  "response_value jc r =
     j_build jc (j_null jc)
       ((''jsonrpc'', j_of_string jc ''2.0'') #
        (case resp_id r of None \<Rightarrow> [] | Some v \<Rightarrow> [(''id'', v)]) @
        (case resp_result r of None \<Rightarrow> [] | Some v \<Rightarrow> [(''result'', v)]) @
        (case resp_error r of None \<Rightarrow> []
         | Some (code, msg) \<Rightarrow>
             [(''error'', j_build jc (j_null jc) [(''code'', j_of_int jc code), (''message'', j_of_string jc msg)])]))"

definition failure_value :: "'j jsoncpp \<Rightarrow> string \<Rightarrow> string \<Rightarrow> 'j" where
  "failure_value jc code msg =
     j_build jc (j_null jc)
       [(''jsonrpc'', j_of_string jc ''2.0''), (''id'', j_null jc),
        (''error'', j_build jc (j_null jc) [(''errorcode'', j_of_string jc code), (''message'', j_of_string jc msg)])]"

definition sendSocketData_text :: "string \<Rightarrow> bool \<Rightarrow> 'j api_state \<Rightarrow> 'j api_state" where
  "sendSocketData_text s disconnect st =
     (if api_open (api_conn st) then api_emit (Api_Write s disconnect) st else st)"

definition api_disconnect :: "'j api_state \<Rightarrow> 'j api_state" where
  "api_disconnect st =
     api_emit (Api_Disconnected (m_sessionId (api_conn st))) (st\<lparr>api_conn := (api_conn st)\<lparr>api_open := False\<rparr>\<rparr>)"

definition api_onSendSocketDataCompleted :: "bool \<Rightarrow> bool \<Rightarrow> 'j api_state \<Rightarrow> 'j api_state" where
  "api_onSendSocketDataCompleted ec disconnect st = (if ec \<or> disconnect then api_disconnect st else st)"

definition api_line ::
    "'j jsoncpp \<Rightarrow> 'j api_environment \<Rightarrow> string \<Rightarrow> 'j api_state \<Rightarrow> call_exit \<times> 'j api_state" where
  "api_line jc env line st =
     (let line = trim line
      in if line = [] then (Returned, st)
         else
           andThen
             (case j_parse jc line of
                None \<Rightarrow> (Returned, sendSocketData_text
                  (j_write jc (failure_value jc ''-32700'' (''Json parse error : '' @ parse_errors env line)) @ [CHR 10]) False st)
              | Some jMsg \<Rightarrow>
                  (case processRequest jc env jMsg (st\<lparr>api_resp := \<lparr>resp_id = None, resp_result = None, resp_error = None\<rparr>\<rparr>) of
                     (Returned, st) \<Rightarrow>
                       (Returned, sendSocketData_text (j_write jc (response_value jc (api_resp st)) @ [CHR 10]) False st)
                   | (Threw e, st) \<Rightarrow>
                       (Returned, sendSocketData_text
                          (j_write jc (failure_value jc ''500'' (what_text env e)) @ [CHR 10]) False st)
                   | r \<Rightarrow> r))
             returned)"

function api_lines ::
    "'j jsoncpp \<Rightarrow> 'j api_environment \<Rightarrow> string \<Rightarrow> 'j api_state \<Rightarrow> call_exit \<times> 'j api_state" where
  "api_lines jc env text st =
     (case split_first (CHR 10) text of
        None \<Rightarrow> (Returned, st\<lparr>api_conn := (api_conn st)\<lparr>api_message := text\<rparr>\<rparr>)
      | Some (line, rest) \<Rightarrow>
          (case api_line jc env line st of
             (e, st) \<Rightarrow> if e = Returned then api_lines jc env rest st
                         else (e, st\<lparr>api_conn := (api_conn st)\<lparr>api_message := text\<rparr>\<rparr>)))"
  by auto

termination
  by (relation "measure (\<lambda>(jc, env, text, st). length text)") (auto dest: split_first_length)

declare api_lines.simps [simp del]

text \<open>The request line of HTTP at the start of a text: the method, the path and the version.\<close>

definition is_upper :: "char \<Rightarrow> bool" where
  "is_upper c \<longleftrightarrow> (let i = (of_char c :: nat) in 65 \<le> i \<and> i \<le> 90)"

definition http_match :: "string \<Rightarrow> (string \<times> string \<times> string) option" where
  "http_match t =
     (let meth = takeWhile is_upper t; r = drop (length meth) t
      in if meth = [] \<or> length meth > 6 \<or> take 2 r \<noteq> '' /'' then None
         else
           let path = takeWhile (\<lambda>c. \<not> c_isspace c) (tl r); v = drop (length path) (tl r)
           in if take 8 v = '' HTTP/1.'' \<and> length v \<ge> 9 \<and> is_digit (v ! 8)
              then Some (meth, path, take 8 (tl v)) else None)"

definition http_response :: "string \<Rightarrow> string \<Rightarrow> string \<Rightarrow> string \<Rightarrow> string \<Rightarrow> string" where
  "http_response ver status project content body =
     (let eol = [CHR 13, CHR 10]
      in ver @ '' '' @ status @ eol @ ''Server: '' @ project @ eol @ ''Content-Type: '' @ content @ eol @
         ''Content-Length: '' @ decimal (length body) @ eol @ eol @ body)"

definition http_request ::
    "'j api_environment \<Rightarrow> string \<Rightarrow> string \<times> string \<times> string \<Rightarrow> 'j api_state \<Rightarrow> string" where
  "http_request env project req st =
     (case req of (meth, path, ver) \<Rightarrow>
        if meth \<noteq> ''GET'' then
          http_response ver ''405 Method not allowed'' project ''text/plain'' (''Method '' @ meth @ '' not allowed'')
        else if path \<noteq> ''/'' \<and> path \<noteq> ''/getstat1'' \<and> path \<noteq> ''/metrics'' then
          http_response ver ''404 Not Found'' project ''text/plain''
            (''The requested resource '' @ path @ '' not found on this server'')
        else
          case (if path = ''/metrics'' then getHttpMinerMetrics env (api_pm st) else getHttpMinerStatDetail env (api_pm st)) of
            Inr body \<Rightarrow>
              http_response ver ''200 OK'' project
                ((if path = ''/metrics'' then ''text/plain'' else ''text/html'') @ ''; charset=utf-8'') body
          | Inl e \<Rightarrow>
              http_response ver ''500 Internal Server Error'' project ''text/plain'' (''Internal error : '' @ what_text env e))"

text \<open>A short message waits for more data, but no further read is started.\<close>

definition api_onRecvSocketDataCompleted ::
    "'j jsoncpp \<Rightarrow> 'j api_environment \<Rightarrow> string \<Rightarrow> bool \<Rightarrow> string \<Rightarrow> 'j api_state \<Rightarrow> call_exit \<times> 'j api_state" where
  "api_onRecvSocketDataCompleted jc env project ec rx st =
     (if ec \<or> rx = [] then (Returned, api_disconnect st)
      else
        let msg = api_message (api_conn st) @ rx;
            st = st\<lparr>api_conn := (api_conn st)\<lparr>api_message := msg\<rparr>\<rparr>
        in if length msg < 4 then (Returned, st)
           else case http_match msg of
               Some req \<Rightarrow>
                 (Returned, (sendSocketData_text (http_request env project req st) True st)
                    \<lparr>api_conn := (api_conn st)\<lparr>api_message := []\<rparr>\<rparr>)
             | None \<Rightarrow>
                 andThen (api_lines jc env msg st)
                   (\<lambda>st. (Returned, if api_open (api_conn st) then api_emit Api_Read st else st)))"

subsection \<open>The server\<close>

record api_server =
  srv_readonly :: bool
  srv_password :: string
  srv_running :: bool
  m_address :: string
  m_portnumber :: u16
  lastSessionId :: int
  m_sessions :: "api_connection list"
  srv_accepting :: bool

definition api_server_new :: "string \<Rightarrow> int \<Rightarrow> string \<Rightarrow> api_server" where
  "api_server_new address portnum password =
     \<lparr>srv_readonly = portnum < 0, srv_password = password, srv_running = False, m_address = address,
      m_portnumber = word_of_int \<bar>portnum\<bar>, lastSessionId = 0, m_sessions = [], srv_accepting = False\<rparr>"

definition api_connection_new :: "int \<Rightarrow> bool \<Rightarrow> string \<Rightarrow> api_connection" where
  "api_connection_new i readonly password =
     \<lparr>m_sessionId = i, api_open = False, api_message = [], m_readonly = readonly, m_password = password,
      m_is_authenticated = (password = [])\<rparr>"

text \<open>The connection that the next accept will fill.\<close>

definition begin_accept :: "api_server \<Rightarrow> api_connection option \<times> api_server" where
  "begin_accept s =
     (if \<not> srv_running s then (None, s\<lparr>srv_accepting := False\<rparr>)
      else let s = s\<lparr>lastSessionId := lastSessionId s + 1, srv_accepting := True\<rparr>
           in (Some (api_connection_new (lastSessionId s) (srv_readonly s) (srv_password s)), s))"

definition api_start :: "bool \<Rightarrow> api_server \<Rightarrow> api_connection option \<times> api_server" where
  "api_start bound s =
     (if m_portnumber s = 0 \<or> \<not> bound then (None, s) else begin_accept (s\<lparr>srv_running := True\<rparr>))"

definition api_stop :: "api_server \<Rightarrow> api_server" where
  "api_stop s = (if \<not> srv_running s then s else s\<lparr>srv_running := False, m_sessions := []\<rparr>)"

definition handle_accept :: "api_connection \<Rightarrow> bool \<Rightarrow> api_server \<Rightarrow> api_connection option \<times> api_server" where
  "handle_accept session ec s =
     begin_accept (if ec then s else s\<lparr>m_sessions := m_sessions s @ [session\<lparr>api_open := True\<rparr>]\<rparr>)"

fun remove_session :: "int \<Rightarrow> api_connection list \<Rightarrow> api_connection list" where
  "remove_session i [] = []"
| "remove_session i (c # cs) = (if m_sessionId c = i then cs else c # remove_session i cs)"

definition session_disconnected :: "int \<Rightarrow> api_server \<Rightarrow> api_server" where
  "session_disconnected i s = s\<lparr>m_sessions := remove_session i (m_sessions s)\<rparr>"

section \<open>Access\<close>

lemma foldl_or_zero:
  "foldl (\<lambda>r (x, y). or r (xor (f x) (f y))) a ps = (0 :: u8) \<longleftrightarrow> a = 0 \<and> (\<forall>(x, y) \<in> set ps. f x = f y)"
proof (induction ps arbitrary: a)
  case (Cons p ps)
  have "or a (xor b c) = 0 \<longleftrightarrow> a = 0 \<and> b = c" for b c :: u8
    by (auto simp: bit_eq_iff bit_or_iff bit_xor_iff)
  then show ?case using Cons by (cases p) auto
qed simp

lemma password_difference_zero: "password_difference a b = 0 \<longleftrightarrow> char_copy a = char_copy b"
proof -
  have l: "length (char_copy s) = max_length" for s by (simp add: char_copy_def)
  have inj: "(word_of_nat (of_char x) :: u8) = word_of_nat (of_char y) \<longleftrightarrow> x = y" for x y
  proof -
    have "(of_char z :: nat) < 256" for z
      using mod_less_divisor [of 256 "of_char z :: nat"] by (simp add: of_char_mod_256)
    then show ?thesis by (auto simp: word_of_nat_eq_iff take_bit_nat_eq_self)
  qed
  have "password_difference a b = 0 \<longleftrightarrow> (\<forall>(x, y) \<in> set (zip (char_copy a) (char_copy b)). x = y)"
    by (simp add: password_difference_def foldl_or_zero inj)
  also have "\<dots> \<longleftrightarrow> char_copy a = char_copy b"
    using l by (auto simp: set_zip list_eq_iff_nth_eq)
  finally show ?thesis .
qed

text \<open>Nothing but the response and the authorization may differ.\<close>

definition untouched :: "'j api_state \<Rightarrow> 'j api_state \<Rightarrow> bool" where
  "untouched b st \<longleftrightarrow>
     api_pm st = api_pm b \<and> g_logOptions st = g_logOptions b \<and> api_effects st = api_effects b \<and>
     m_readonly (api_conn st) = m_readonly (api_conn b) \<and> m_password (api_conn st) = m_password (api_conn b)"

text \<open>The authorization is as before, or it is given up.\<close>

definition not_granted :: "'j api_state \<Rightarrow> 'j api_state \<Rightarrow> bool" where
  "not_granted b st \<longleftrightarrow> (m_is_authenticated (api_conn st) \<longrightarrow> m_is_authenticated (api_conn b))"

lemma response_frames [simp]:
  "untouched b (set_error code msg st) = untouched b st" "untouched b (set_result v st) = untouched b st"
  "untouched b (set_id v st) = untouched b st" "not_granted b (set_error code msg st) = not_granted b st"
  "not_granted b (set_result v st) = not_granted b st" "not_granted b (set_id v st) = not_granted b st"
  "api_conn (set_error code msg st) = api_conn st" "api_conn (set_result v st) = api_conn st"
  "api_conn (set_id v st) = api_conn st"
  by (simp_all add: untouched_def not_granted_def set_error_def set_result_def set_id_def)

lemma post_getRequestValue:
  assumes "P st" and "\<And>code msg. P (set_error code msg st)"
    and "\<And>obj v x. \<lbrakk>j_at jc jRequest name = Inr (obj, v); conv v = Inr x\<rbrakk> \<Longrightarrow> post P (found x)"
    and "\<And>code msg. post P (refused (set_error code msg st))"
  shows "post P (getRequestValue jc is_type conv name jRequest st found refused)"
  unfolding getRequestValue_def by (intro post_require post_if post_case_prod assms) auto

lemmas request_defs = getBool_def getUnsigned_def getObject_def getString_def returned_def

lemma api_method_readonly:
  assumes "m_readonly (api_conn st)" and "untouched b st"
  shows "post (untouched b) (api_method jc env meth v st)"
  using assms unfolding api_method_def checkApiWriteAccess_def by (intro post_if post_return) simp_all

lemma not_granted_conn: "api_conn st' = api_conn st \<Longrightarrow> not_granted b st' = not_granted b st"
  by (simp add: not_granted_def)

lemma guarded_conn: "post (\<lambda>st'. api_conn st' = api_conn st) (guarded jc env f st)"
  by (auto simp: guarded_def post_def split: prod.splits call_exit.splits)

lemma api_method_conn: "post (\<lambda>st'. api_conn st' = api_conn st) (api_method jc env meth v st)"
proof -
  have [simp]: "api_conn (on_pm f st) = api_conn st" "api_conn (api_emit e st) = api_conn st" for f e and st :: "'a api_state"
    by (simp_all add: on_pm_def api_emit_def)
  have "post (\<lambda>st'. api_conn st' = api_conn st) (miner_addconnection jc env v st)"
    unfolding miner_addconnection_def request_defs
    by (intro post_getRequestValue post_return) (auto simp: post_def Let_def split: sum.splits)
  moreover have "post (\<lambda>st'. api_conn st' = api_conn st) (miner_setactiveconnection jc env v st)"
    unfolding miner_setactiveconnection_def request_defs
    by (intro post_getRequestValue post_require post_if post_return guarded_conn) simp_all
  moreover have "post (\<lambda>st'. api_conn st' = api_conn st) (miner_removeconnection jc env v st)"
    unfolding miner_removeconnection_def request_defs
    by (intro post_getRequestValue post_return guarded_conn) simp_all
  moreover have "post (\<lambda>st'. api_conn st' = api_conn st) (miner_pausegpu jc v st)"
    "post (\<lambda>st'. api_conn st' = api_conn st) (miner_setverbosity jc v st)"
    "post (\<lambda>st'. api_conn st' = api_conn st) (miner_setnonce jc v st)"
    unfolding miner_pausegpu_def miner_setverbosity_def miner_setnonce_def request_defs
    by (intro post_getRequestValue post_require post_if post_return; simp)+
  ultimately show ?thesis
    unfolding api_method_def checkApiWriteAccess_def by (intro post_if post_return) simp_all
qed

lemma api_authorize_ok:
  "post (untouched st) (api_authorize jc v st)"
  "post (\<lambda>st'. m_is_authenticated (api_conn st') \<longrightarrow>
     (\<exists>obj params obj' w psw. j_at jc v ''params'' = Inr (obj, params) \<and> j_at jc params ''psw'' = Inr (obj', w) \<and>
        j_asString jc w = Inr psw \<and> char_copy psw = char_copy (m_password (api_conn st)))) (api_authorize jc v st)"
proof -
  show "post (untouched st) (api_authorize jc v st)"
    unfolding api_authorize_def Let_def request_defs
    by (intro post_getRequestValue post_if post_return) (simp_all add: untouched_def set_error_def)
  show "post (\<lambda>st'. m_is_authenticated (api_conn st') \<longrightarrow>
     (\<exists>obj params obj' w psw. j_at jc v ''params'' = Inr (obj, params) \<and> j_at jc params ''psw'' = Inr (obj', w) \<and>
        j_asString jc w = Inr psw \<and> char_copy psw = char_copy (m_password (api_conn st)))) (api_authorize jc v st)"
    unfolding api_authorize_def Let_def request_defs
    by (intro post_getRequestValue post_if post_return) (auto simp: set_error_def password_difference_zero)
qed

lemma post_parseRequestId:
  assumes "P st" and "\<And>code msg v. P (set_error code msg (set_id v st))" and "\<And>v. post P (k (set_id v st))"
  shows "post P (parseRequestId jc jRequest st k)"
  unfolding parseRequestId_def
  by (intro post_require) (auto intro!: assms post_require post_return split: option.splits)

lemma processRequest_untouched:
  assumes "\<not> m_is_authenticated (api_conn st) \<or> m_readonly (api_conn st)"
  shows "post (untouched st) (processRequest jc env v st)"
proof -
  have a: "post (untouched st) (api_authorize jc v (set_id w st))" for w
    using api_authorize_ok(1) [of "set_id w st" jc v] by (simp add: post_def untouched_def set_id_def)
  have m: "post (untouched st) (api_method jc env meth v (set_id w st))" if "m_is_authenticated (api_conn st)" for meth w
    using assms that by (intro api_method_readonly) (simp_all add: untouched_def set_id_def)
  have r: "untouched st st" by (simp add: untouched_def)
  show ?thesis
    unfolding processRequest_def invalid_request_def getString_def
    by (intro post_parseRequestId post_getRequestValue post_if post_return a m) (simp_all add: r)
qed

lemma processRequest_authenticated:
  "post (\<lambda>st'. m_is_authenticated (api_conn st') \<and> \<not> m_is_authenticated (api_conn st) \<longrightarrow>
     (\<exists>obj params obj' w psw. j_at jc v ''params'' = Inr (obj, params) \<and> j_at jc params ''psw'' = Inr (obj', w) \<and>
        j_asString jc w = Inr psw \<and> char_copy psw = char_copy (m_password (api_conn st)))) (processRequest jc env v st)"
    (is "post ?P _")
proof -
  have a: "post ?P (api_authorize jc v (set_id w st))" for w
    using api_authorize_ok(2) [of jc v "set_id w st"] by (simp add: post_def)
  have m: "post ?P (api_method jc env meth v (set_id w st))" for meth w
    using api_method_conn [of "set_id w st" jc env meth v] by (simp add: post_def)
  show ?thesis
    unfolding processRequest_def invalid_request_def getString_def
    by (intro post_parseRequestId post_getRequestValue post_if post_return a m) simp_all
qed

text \<open>C39. A request over a connection that is not authorized or may only read changes nothing in the pool
  manager, the farm and the options for the log, and neither restarts nor reboots. A connection that was
  not authorized becomes so only by a request that carries a password that agrees with the one of the
  server in its first 500 characters, where a shorter one is filled up with zeros.\<close>

theorem api_access:
  assumes "processRequest jc env v st = (e, st')"
  shows "(\<not> m_is_authenticated (api_conn st) \<or> m_readonly (api_conn st) \<longrightarrow>
      api_pm st' = api_pm st \<and> g_logOptions st' = g_logOptions st \<and> api_effects st' = api_effects st) \<and>
    (m_is_authenticated (api_conn st') \<and> \<not> m_is_authenticated (api_conn st) \<longrightarrow>
      (\<exists>obj params obj' w psw. j_at jc v ''params'' = Inr (obj, params) \<and> j_at jc params ''psw'' = Inr (obj', w) \<and>
        j_asString jc w = Inr psw \<and> char_copy psw = char_copy (m_password (api_conn st))))"
  using processRequest_untouched [of st jc env v] processRequest_authenticated [of st jc v env] assms
  by (auto simp: post_def untouched_def)

text \<open>A restart that is asked for over a connection that needs a password and has not given it.\<close>

definition api_example :: "json api_state" where
  "api_example =
     \<lparr>api_conn = api_connection_new 1 False ''secret'', api_pm = pool_example, g_logOptions = 0, api_effects = [],
      api_resp = \<lparr>resp_id = None, resp_result = None, resp_error = None\<rparr>\<rparr>"

definition environment_example :: "json api_environment" where
  "environment_example =
     \<lparr>getMinerStat1 = (\<lambda>pm. J_Null), getMinerStatDetail = (\<lambda>pm. J_Null), getConnectionsJson = (\<lambda>pm. J_Null),
      getHttpMinerMetrics = (\<lambda>pm. Inr []), getHttpMinerStatDetail = (\<lambda>pm. Inr []), reboot_result = False,
      env_parse_address = (\<lambda>s. None), new_address = (\<lambda>pm. 9), exception_text = (\<lambda>e. []), parse_errors = (\<lambda>s. [])\<rparr>"

theorem api_access_witness:
  "api_effects (snd (processRequest (json_library (\<lambda>s. None)) environment_example
     (J_Object [(''jsonrpc'', J_String ''2.0''), (''id'', J_Int 1), (''method'', J_String ''miner_restart'')]) api_example)) = []"
proof -
  let ?r = "processRequest (json_library (\<lambda>s. None)) environment_example
     (J_Object [(''jsonrpc'', J_String ''2.0''), (''id'', J_Int 1), (''method'', J_String ''miner_restart'')]) api_example"
  obtain e st where r: "?r = (e, st)" by fastforce
  then show ?thesis
    using api_access [OF r] by (simp add: api_example_def api_connection_new_def)
qed

end
