(* ===== verification/Cuda_Miner.thy ===== *)
theory Cuda_Miner
  imports Farm "HOL-Library.Multiset"
begin

text \<open>
  The host side of the miner for CUDA devices of \<^verbatim>\<open>libcuda/CUDAMiner.cpp\<close>: the preparation of an epoch, the
  loop over the work, and the search, which keeps several streams of the device busy with batches of
  nonces. The calls of the CUDA library and the kernel are arguments: which allocations succeed, and what
  a batch that starts at a nonce reports. The lemmas show that the batches cover the nonces from the
  start without a gap and that every solution that the device reports is submitted once, with its nonce.
\<close>

section \<open>The C++ routines\<close>

definition max_search_results :: nat where "max_search_results = 4"

record search_results =
  solCount :: u32
  hashCount :: u32
  res_done :: u32
  gid :: "u32 list"

subsection \<open>The search\<close>

text \<open>
  What other threads do while a search runs: in a round the miner may be found paused, before a stream is
  looked at \<open>kick_miner\<close> may have been called, and after it the thread may have been told to stop.
\<close>

record search_events =
  ev_paused :: "nat \<Rightarrow> bool"
  ev_kicked :: "nat \<Rightarrow> nat \<Rightarrow> bool"
  ev_stop :: "nat \<Rightarrow> nat \<Rightarrow> bool"

text \<open>
  The state of a search. \<open>on_stream\<close> is the start of the batch that a stream works on; \<open>launched\<close> and
  \<open>submitted\<close> record the batches that were started and the nonces that were given to the farm, and
  \<open>counts\<close> what is added to the hash rate after each round.
\<close>

record search_state =
  start_nonce :: u64
  streams_bsy :: u32
  m_done :: bool
  batchCount :: u32
  on_stream :: "nat \<Rightarrow> u64"
  launched :: "u64 list"
  submitted :: "u64 list"
  counts :: "u32 list"

definition run_ethash_search :: "nat \<Rightarrow> search_state \<Rightarrow> search_state" where
  "run_ethash_search i s =
     s\<lparr>on_stream := (on_stream s)(i := start_nonce s), launched := launched s @ [start_nonce s]\<rparr>"

definition prime_stream :: "u32 \<Rightarrow> nat \<Rightarrow> search_state \<Rightarrow> search_state" where
  "prime_stream batch_blocks i s =
     (let s = run_ethash_search i s in s\<lparr>start_nonce := start_nonce s + ucast batch_blocks\<rparr>)"

definition search_stream ::
    "(u64 \<Rightarrow> search_results) \<Rightarrow> search_events \<Rightarrow> u32 \<Rightarrow> u32 \<Rightarrow> nat \<Rightarrow> nat \<Rightarrow> search_state \<Rightarrow> search_state" where
  "search_stream device ev batch_blocks stream_blocks t i s =
     (let s = (if \<not> bit (streams_bsy s) i then s
               else
                 let r = device (on_stream s i);
                     s = s\<lparr>m_done := m_done s \<or> ev_kicked ev t i\<rparr>;
                     s = (if m_done s then s\<lparr>streams_bsy := and (streams_bsy s) (not (push_bit i 1))\<rparr>
                          else run_ethash_search i s);
                     n = min (unat (solCount r)) max_search_results
                 in s\<lparr>batchCount := batchCount s + hashCount r,
                      submitted := submitted s @
                        map (\<lambda>g. start_nonce s - ucast stream_blocks + ucast g) (take n (gid r)),
                      m_done := m_done s \<or> ev_stop ev t i\<rparr>)
      in s\<lparr>start_nonce := start_nonce s + ucast batch_blocks\<rparr>)"

definition search_round ::
    "(u64 \<Rightarrow> search_results) \<Rightarrow> search_events \<Rightarrow> u32 \<Rightarrow> u32 \<Rightarrow> nat \<Rightarrow> nat \<Rightarrow> search_state \<Rightarrow> search_state" where
  "search_round device ev batch_blocks stream_blocks streams t s =
     (let s = s\<lparr>m_done := m_done s \<or> ev_paused ev t, batchCount := 0\<rparr>;
          s = fold (search_stream device ev batch_blocks stream_blocks t) [0..<streams] s
      in s\<lparr>counts := counts s @ [batchCount s]\<rparr>)"

text \<open>The loop runs as long as a stream is busy; without enough fuel there is no result.\<close>

fun search_loop ::
    "(u64 \<Rightarrow> search_results) \<Rightarrow> search_events \<Rightarrow> u32 \<Rightarrow> u32 \<Rightarrow> nat \<Rightarrow> nat \<Rightarrow> nat \<Rightarrow> search_state \<Rightarrow> search_state option" where
  "search_loop device ev batch_blocks stream_blocks streams 0 t s = (if streams_bsy s = 0 then Some s else None)"
| "search_loop device ev batch_blocks stream_blocks streams (Suc fuel) t s =
     (if streams_bsy s = 0 then Some s
      else search_loop device ev batch_blocks stream_blocks streams fuel (Suc t)
             (search_round device ev batch_blocks stream_blocks streams t s))"

definition search_start :: "u64 \<Rightarrow> u32 \<Rightarrow> nat \<Rightarrow> search_state" where
  "search_start nonce batch_blocks streams =
     (let s = fold (prime_stream batch_blocks) [0..<streams]
            \<lparr>start_nonce = nonce, streams_bsy = 0, m_done = True, batchCount = 0, on_stream = (\<lambda>i. 0),
             launched = [], submitted = [], counts = []\<rparr>
      in s\<lparr>m_done := False, streams_bsy := push_bit streams 1 - 1\<rparr>)"

definition cuda_search ::
    "(u64 \<Rightarrow> search_results) \<Rightarrow> search_events \<Rightarrow> u32 \<Rightarrow> u32 \<Rightarrow> u32 \<Rightarrow> nat \<Rightarrow> u64 \<Rightarrow> search_state option" where
  "cuda_search device ev block_multiple block_size stream_size fuel nonce =
     (let batch_blocks = block_multiple * block_size;
          stream_blocks = batch_blocks * stream_size;
          streams = unat stream_size
      in search_loop device ev batch_blocks stream_blocks streams fuel 0 (search_start nonce batch_blocks streams))"

section \<open>Every batch is accounted for\<close>

text \<open>The solutions that the device reports for a batch.\<close>

definition batch_solutions :: "(u64 \<Rightarrow> search_results) \<Rightarrow> u64 \<Rightarrow> u64 list" where
  "batch_solutions device n =
     map (\<lambda>g. n + ucast g) (take (min (unat (solCount (device n))) max_search_results) (gid (device n)))"

definition batch_start :: "u64 \<Rightarrow> u32 \<Rightarrow> nat \<Rightarrow> u64" where
  "batch_start nonce batch_blocks k = nonce + word_of_nat k * ucast batch_blocks"

definition busy :: "nat \<Rightarrow> search_state \<Rightarrow> nat set" where
  "busy streams s = {j. j < streams \<and> bit (streams_bsy s) j}"

text \<open>The solutions of the batches that were started are submitted or still to come from a busy stream.\<close>

definition accounted :: "(u64 \<Rightarrow> search_results) \<Rightarrow> nat \<Rightarrow> search_state \<Rightarrow> bool" where
  "accounted device streams s \<longleftrightarrow>
     mset (submitted s) + (\<Sum>j \<in> busy streams s. mset (batch_solutions device (on_stream s j))) =
       mset (concat (map (batch_solutions device) (launched s)))"

text \<open>The state when \<open>i\<close> streams were looked at in round \<open>t\<close>; \<open>k\<close> batches were started.\<close>

definition search_inv :: "(u64 \<Rightarrow> search_results) \<Rightarrow> u64 \<Rightarrow> u32 \<Rightarrow> nat \<Rightarrow> nat \<Rightarrow> nat \<Rightarrow> nat \<Rightarrow> search_state \<Rightarrow> bool" where
  "search_inv device nonce batch streams t i k s \<longleftrightarrow>
     start_nonce s = batch_start nonce batch ((t + 1) * streams + i) \<and>
     (\<forall>j \<in> busy streams s. on_stream s j = batch_start nonce batch ((t + of_bool (j < i)) * streams + j)) \<and>
     (\<forall>j. bit (streams_bsy s) j \<longrightarrow> j < streams) \<and>
     launched s = map (batch_start nonce batch) [0..<k] \<and>
     (\<not> m_done s \<longrightarrow> k = (t + 1) * streams + i \<and> busy streams s = {0..<streams}) \<and>
     accounted device streams s"

lemma finite_busy [simp]: "finite (busy streams s)"
  by (simp add: busy_def)

lemma batch_start_add:
  "batch_start nonce batch k + ucast batch = batch_start nonce batch (Suc k)"
  by (simp add: batch_start_def algebra_simps)

text \<open>The product for all streams has to fit into 32 bits.\<close>

lemma batch_start_diff:
  assumes "unat batch * streams < 2 ^ 32"
  shows "batch_start nonce batch (streams + k) - ucast (batch * word_of_nat streams) = batch_start nonce batch k"
proof -
  have "unat (batch * word_of_nat streams) = unat batch * streams"
    using assms by (simp add: unat_word_ariths unat_of_nat mod_mult_right_eq)
  then have "(ucast (batch * word_of_nat streams) :: u64) = word_of_nat (unat batch) * word_of_nat streams"
    by (metis of_nat_mult of_nat_unat)
  then have "(ucast (batch * word_of_nat streams) :: u64) = ucast batch * word_of_nat streams"
    by (simp only: of_nat_unat)
  then show ?thesis by (simp add: batch_start_def algebra_simps)
qed

lemma busy_clear:
  "busy streams (s\<lparr>streams_bsy := and (streams_bsy s) (not (push_bit i 1))\<rparr>) = busy streams s - {i}"
  by (auto simp: busy_def bit_simps dest: bit_imp_le_length)

lemma busy_conv: "busy streams s = busy streams s' \<longleftrightarrow> (\<forall>j < streams. bit (streams_bsy s) j = bit (streams_bsy s') j)"
  by (auto simp: busy_def)

lemma search_stream_idle:
  assumes inv: "search_inv device nonce batch streams t i k s" and i: "i < streams" "\<not> bit (streams_bsy s) i"
  shows "search_inv device nonce batch streams t (Suc i) k (search_stream device ev batch blocks t i s)"
proof -
  have s: "search_stream device ev batch blocks t i s = s\<lparr>start_nonce := start_nonce s + ucast batch\<rparr>"
    using i by (simp add: search_stream_def)
  have b: "busy streams (s\<lparr>start_nonce := n\<rparr>) = busy streams s" for n by (simp add: busy_def)
  have a: "accounted device streams (s\<lparr>start_nonce := n\<rparr>) = accounted device streams s" for n
    by (simp add: accounted_def b)
  have "i \<notin> busy streams s" using i by (simp add: busy_def)
  moreover from this have "m_done s" using inv i by (auto simp: search_inv_def)
  moreover have "of_bool (j < Suc i) = (of_bool (j < i) :: nat)" if "j \<in> busy streams s" for j
    using that \<open>i \<notin> _\<close> by (auto simp: less_Suc_eq)
  ultimately show ?thesis
    using inv by (simp add: search_inv_def s a b batch_start_add)
qed

text \<open>The nonces that are submitted for a stream are the solutions of its batch.\<close>

lemma search_stream_busy:
  assumes inv: "search_inv device nonce batch streams t i k s" and i: "i < streams" "bit (streams_bsy s) i"
    and room: "unat batch * streams < 2 ^ 32"
  shows "on_stream s i = batch_start nonce batch (t * streams + i)"
    and "map (\<lambda>g. start_nonce s - ucast (batch * word_of_nat streams) + ucast g)
        (take (min (unat (solCount (device (on_stream s i)))) max_search_results) (gid (device (on_stream s i)))) =
      batch_solutions device (on_stream s i)"
proof -
  have "i \<in> busy streams s" using i by (simp add: busy_def)
  then show o: "on_stream s i = batch_start nonce batch (t * streams + i)" using inv by (simp add: search_inv_def)
  have "start_nonce s = batch_start nonce batch (streams + (t * streams + i))"
    using inv by (simp add: search_inv_def algebra_simps)
  then have "start_nonce s - ucast (batch * word_of_nat streams) = on_stream s i"
    using batch_start_diff [OF room] o by simp
  then show "map (\<lambda>g. start_nonce s - ucast (batch * word_of_nat streams) + ucast g)
        (take (min (unat (solCount (device (on_stream s i)))) max_search_results) (gid (device (on_stream s i)))) =
      batch_solutions device (on_stream s i)" by (simp add: batch_solutions_def)
qed

lemma search_stream_finish:
  assumes inv: "search_inv device nonce batch streams t i k s" and i: "i < streams" "bit (streams_bsy s) i"
    and room: "unat batch * streams < 2 ^ 32" and d: "m_done s \<or> ev_kicked ev t i"
  shows "search_inv device nonce batch streams t (Suc i) k
    (search_stream device ev batch (batch * word_of_nat streams) t i s)" (is "search_inv _ _ _ _ _ _ _ ?s")
proof -
  let ?f = "\<lambda>j. mset (batch_solutions device (on_stream s j))"
  note sols = search_stream_busy [OF inv i room]
  have s: "start_nonce ?s = start_nonce s + ucast batch" "on_stream ?s = on_stream s" "launched ?s = launched s"
    "m_done ?s" "submitted ?s = submitted s @ batch_solutions device (on_stream s i)"
    "streams_bsy ?s = and (streams_bsy s) (not (push_bit i 1))"
    using i d sols(2) by (simp_all add: search_stream_def Let_def)
  have b: "busy streams ?s = busy streams s - {i}"
    using busy_clear [of streams s i] by (simp add: busy_def s(6))
  have "i \<in> busy streams s" using i by (simp add: busy_def)
  then have "(\<Sum>j \<in> busy streams s. ?f j) = ?f i + (\<Sum>j \<in> busy streams s - {i}. ?f j)" by (simp add: sum.remove)
  moreover have "accounted device streams s" using inv by (simp add: search_inv_def)
  ultimately have "accounted device streams ?s" by (simp add: accounted_def s b add.assoc)
  moreover have "of_bool (j < Suc i) = (of_bool (j < i) :: nat)" if "j \<in> busy streams s - {i}" for j
    using that by (auto simp: less_Suc_eq)
  moreover have "\<forall>j. bit (streams_bsy ?s) j \<longrightarrow> j < streams"
    using inv by (simp add: search_inv_def s(6) bit_and_iff)
  ultimately show ?thesis
    using inv by (simp add: search_inv_def s b batch_start_add)
qed

lemma search_stream_launch:
  assumes inv: "search_inv device nonce batch streams t i k s" and i: "i < streams"
    and room: "unat batch * streams < 2 ^ 32" and d: "\<not> (m_done s \<or> ev_kicked ev t i)"
  shows "search_inv device nonce batch streams t (Suc i) (Suc k)
    (search_stream device ev batch (batch * word_of_nat streams) t i s)" (is "search_inv _ _ _ _ _ _ _ ?s")
proof -
  let ?f = "\<lambda>j. mset (batch_solutions device (on_stream s j))"
  have k: "k = (t + 1) * streams + i" "busy streams s = {0..<streams}" using inv d by (simp_all add: search_inv_def)
  have "i \<in> busy streams s" using k(2) i by simp
  then have bit: "bit (streams_bsy s) i" by (simp add: busy_def)
  note sols = search_stream_busy [OF inv i bit room]
  have s: "start_nonce ?s = start_nonce s + ucast batch" "on_stream ?s = (on_stream s)(i := start_nonce s)"
    "launched ?s = launched s @ [start_nonce s]" "streams_bsy ?s = streams_bsy s"
    "submitted ?s = submitted s @ batch_solutions device (on_stream s i)"
    using bit d sols(2) by (simp_all add: search_stream_def Let_def run_ethash_search_def)
  have b: "busy streams ?s = {0..<streams}" by (simp only: busy_def s(4) k(2) [unfolded busy_def])
  have start: "start_nonce s = batch_start nonce batch k" using inv k by (simp add: search_inv_def)
  have "on_stream ?s j = batch_start nonce batch ((t + of_bool (j < Suc i)) * streams + j)" if "j < streams" for j
    using inv that k i start by (cases "j = i") (auto simp: search_inv_def s(2) less_Suc_eq)
  moreover have "accounted device streams ?s"
  proof -
    have "accounted device streams s" using inv by (simp add: search_inv_def)
    moreover have "(\<Sum>j \<in> {0..<streams}. mset (batch_solutions device (on_stream ?s j))) =
        mset (batch_solutions device (start_nonce s)) + (\<Sum>j \<in> {0..<streams} - {i}. ?f j)"
      using i by (simp add: sum.remove [of _ i] s(2))
    moreover have "(\<Sum>j \<in> {0..<streams}. ?f j) = ?f i + (\<Sum>j \<in> {0..<streams} - {i}. ?f j)"
      using i by (simp add: sum.remove [of _ i])
    ultimately show ?thesis by (simp add: accounted_def s(3,5) b k(2) ac_simps)
  qed
  ultimately show ?thesis
    using inv k start by (simp add: search_inv_def s b batch_start_add)
qed

lemma search_stream_inv:
  assumes inv: "search_inv device nonce batch streams t i k s" and i: "i < streams"
    and room: "unat batch * streams < 2 ^ 32"
  shows "\<exists>k' \<ge> k. search_inv device nonce batch streams t (Suc i) k'
    (search_stream device ev batch (batch * word_of_nat streams) t i s)"
  using search_stream_idle [OF inv i] search_stream_finish [OF inv i _ room] search_stream_launch [OF inv i room]
  by (metis le_Suc_eq order_refl)

lemma search_streams_inv:
  assumes "search_inv device nonce batch streams t 0 k s" and room: "unat batch * streams < 2 ^ 32"
    and "i \<le> streams"
  shows "\<exists>k' \<ge> k. search_inv device nonce batch streams t i k'
    (fold (search_stream device ev batch (batch * word_of_nat streams) t) [0..<i] s)"
  using \<open>i \<le> streams\<close>
proof (induction i)
  case 0
  show ?case using assms(1) by auto
next
  case (Suc i)
  let ?s = "fold (search_stream device ev batch (batch * word_of_nat streams) t) [0..<i] s"
  obtain k' where k': "k \<le> k'" "search_inv device nonce batch streams t i k' ?s" using Suc by auto
  obtain k'' where "k' \<le> k''" "search_inv device nonce batch streams t (Suc i) k''
      (search_stream device ev batch (batch * word_of_nat streams) t i ?s)"
    using search_stream_inv [OF k'(2) _ room] Suc.prems by (metis Suc_le_eq)
  then show ?case using k'(1) by (auto intro!: exI [of _ k''])
qed

text \<open>The end of a round is the start of the next one.\<close>

lemma search_inv_next_round:
  "search_inv device nonce batch streams t streams k s = search_inv device nonce batch streams (Suc t) 0 k s"
proof -
  have "j < streams" if "j \<in> busy streams s" for j using that by (simp add: busy_def)
  then show ?thesis by (simp add: search_inv_def algebra_simps)
qed

lemma search_inv_update:
  "search_inv device nonce batch streams t i k (s\<lparr>counts := c\<rparr>) = search_inv device nonce batch streams t i k s"
  "search_inv device nonce batch streams t i k s \<Longrightarrow>
     search_inv device nonce batch streams t i k (s\<lparr>m_done := m_done s \<or> p, batchCount := c'\<rparr>)"
proof -
  have b: "busy streams (s\<lparr>counts := c\<rparr>) = busy streams s"
    "busy streams (s\<lparr>m_done := d, batchCount := c'\<rparr>) = busy streams s" for d by (simp_all add: busy_def)
  have a: "accounted device streams (s\<lparr>counts := c\<rparr>) = accounted device streams s"
    "accounted device streams (s\<lparr>m_done := d, batchCount := c'\<rparr>) = accounted device streams s" for d
    by (simp_all add: accounted_def b)
  show "search_inv device nonce batch streams t i k (s\<lparr>counts := c\<rparr>) = search_inv device nonce batch streams t i k s"
    "search_inv device nonce batch streams t i k s \<Longrightarrow>
       search_inv device nonce batch streams t i k (s\<lparr>m_done := m_done s \<or> p, batchCount := c'\<rparr>)"
    by (simp_all add: search_inv_def a b)
qed

lemma search_round_inv:
  assumes "search_inv device nonce batch streams t 0 k s" "unat batch * streams < 2 ^ 32"
  shows "\<exists>k' \<ge> k. search_inv device nonce batch streams (Suc t) 0 k'
    (search_round device ev batch (batch * word_of_nat streams) streams t s)"
  using search_streams_inv [OF search_inv_update(2) [OF assms(1)] assms(2) order_refl]
  by (simp add: search_round_def Let_def search_inv_update(1) search_inv_next_round)

text \<open>A round that starts when the search is over leaves no stream busy.\<close>

lemma search_stream_done:
  assumes "m_done s"
  shows "m_done (search_stream device ev batch blocks t i s)"
    and "bit (streams_bsy (search_stream device ev batch blocks t i s)) j \<longleftrightarrow> bit (streams_bsy s) j \<and> j \<noteq> i"
  using assms by (auto simp: search_stream_def Let_def bit_simps dest: bit_imp_le_length)

lemma search_streams_done:
  assumes "m_done s"
  shows "m_done (fold (search_stream device ev batch blocks t) [0..<i] s) \<and>
    (\<forall>j. bit (streams_bsy (fold (search_stream device ev batch blocks t) [0..<i] s)) j \<longleftrightarrow>
       bit (streams_bsy s) j \<and> i \<le> j)"
proof (induction i)
  case 0
  show ?case using assms by simp
next
  case (Suc i)
  let ?s = "fold (search_stream device ev batch blocks t) [0..<i] s"
  have "m_done ?s" "\<And>j. bit (streams_bsy ?s) j \<longleftrightarrow> bit (streams_bsy s) j \<and> i \<le> j" using Suc by blast+
  then show ?case using search_stream_done [of ?s] by (auto simp: Suc_le_eq order.strict_iff_order)
qed

lemma search_round_done:
  assumes "ev_paused ev t" "\<forall>j. bit (streams_bsy s) j \<longrightarrow> j < streams"
  shows "streams_bsy (search_round device ev batch blocks streams t s) = 0"
proof -
  let ?s = "s\<lparr>m_done := True, batchCount := 0\<rparr>"
  have "\<not> bit (streams_bsy (fold (search_stream device ev batch blocks t) [0..<streams] ?s)) j" for j
    using search_streams_done [of ?s device ev batch blocks t streams] assms(2) by auto
  then show ?thesis using assms(1) by (simp add: search_round_def Let_def bit_eq_iff)
qed

lemma search_loop_ends:
  assumes "search_inv device nonce batch streams t 0 k s" and room: "unat batch * streams < 2 ^ 32"
    and p: "ev_paused ev T" and "t \<le> T"
  shows "\<exists>s' t' k'. search_loop device ev batch (batch * word_of_nat streams) streams (Suc T - t) t s = Some s' \<and>
    k \<le> k' \<and> search_inv device nonce batch streams t' 0 k' s' \<and> streams_bsy s' = 0"
  using assms(1,4)
proof (induction "T - t" arbitrary: t k s)
  case 0
  let ?s = "search_round device ev batch (batch * word_of_nat streams) streams t s"
  have t: "t = T" using 0 by simp
  have "streams_bsy ?s = 0" using search_round_done p 0(2) t by (auto simp: search_inv_def)
  moreover obtain k' where "k \<le> k'" "search_inv device nonce batch streams (Suc t) 0 k' ?s"
    using search_round_inv [OF 0(2) room] by blast
  ultimately show ?case
    using 0(2) t by (cases "streams_bsy s = 0") auto
next
  case (Suc d)
  let ?s = "search_round device ev batch (batch * word_of_nat streams) streams t s"
  have t: "Suc T - t = Suc (Suc T - Suc t)" "d = T - Suc t" "Suc t \<le> T" using Suc(2) by simp_all
  obtain k' where k': "k \<le> k'" "search_inv device nonce batch streams (Suc t) 0 k' ?s"
    using search_round_inv [OF Suc(3) room] by blast
  show ?case
    using Suc(1) [OF t(2) k'(2) t(3)] k'(1) Suc(3) by (cases "streams_bsy s = 0") (auto simp: t(1) intro: le_trans)
qed

lemma prime_streams:
  "fold (prime_stream batch) [0..<n] s =
     s\<lparr>start_nonce := batch_start (start_nonce s) batch n,
       on_stream := (\<lambda>j. if j < n then batch_start (start_nonce s) batch j else on_stream s j),
       launched := launched s @ map (batch_start (start_nonce s) batch) [0..<n]\<rparr>"
proof (induction n)
  case 0
  show ?case by (simp add: batch_start_def)
next
  case (Suc n)
  then show ?case by (simp add: prime_stream_def run_ethash_search_def Let_def batch_start_add fun_eq_iff less_Suc_eq)
qed

lemma search_start_inv:
  assumes "streams < 32"
  shows "search_inv device nonce batch streams 0 0 streams (search_start nonce batch streams)"
proof -
  let ?s = "search_start nonce batch streams"
  have s: "streams_bsy ?s = mask streams" "start_nonce ?s = batch_start nonce batch streams"
    "on_stream ?s = (\<lambda>j. if j < streams then batch_start nonce batch j else 0)"
    "launched ?s = map (batch_start nonce batch) [0..<streams]" "submitted ?s = []" "\<not> m_done ?s"
    by (simp_all add: search_start_def Let_def prime_streams mask_eq_decr_exp push_bit_eq_mult cong: if_cong)
  have b: "busy streams ?s = {0..<streams}" using assms by (auto simp: busy_def s(1) bit_mask_iff)
  have "(\<Sum>j = 0..<streams. mset (batch_solutions device (on_stream ?s j))) =
      (\<Sum>j = 0..<streams. mset (batch_solutions device (batch_start nonce batch j)))" by (simp add: s(3))
  also have "\<dots> = mset (concat (map (batch_solutions device) (map (batch_start nonce batch) [0..<streams])))"
    by (induction streams) simp_all
  finally have "accounted device streams ?s" by (simp add: accounted_def b s(4,5))
  then show ?thesis by (simp add: search_inv_def b s bit_mask_iff)
qed

text \<open>
  C40. The search of the miner for CUDA devices ends when the miner is paused, and it accounts for
  everything it has started. Let the product of the block multiple, the block size and the number of
  streams fit into 32 bits. If the miner is found paused in some round, the loop returns at the latest with
  that round, whatever the other threads do in between. The batches that were started are then the
  consecutive ranges of nonces from the first nonce on, at least one for each stream, without a gap and
  without a range that is searched twice; and the nonces that were submitted are exactly those that the
  device reports for these batches, each as often as it was reported, although the loop recovers the nonce
  of a batch from the nonce at which it is about to start the next one, and skips streams that have stopped.
\<close>

theorem cuda_search_correct:
  assumes "unat stream_size < 32" "unat (block_multiple * block_size) * unat stream_size < 2 ^ 32"
    and "ev_paused ev T"
  shows "\<exists>s k. cuda_search device ev block_multiple block_size stream_size (Suc T) nonce = Some s \<and>
    unat stream_size \<le> k \<and> streams_bsy s = 0 \<and>
    launched s = map (batch_start nonce (block_multiple * block_size)) [0..<k] \<and>
    mset (submitted s) = mset (concat (map (batch_solutions device) (launched s)))"
proof -
  let ?batch = "block_multiple * block_size"
  have "stream_size = word_of_nat (unat stream_size)" by simp
  then obtain s t k where "cuda_search device ev block_multiple block_size stream_size (Suc T) nonce = Some s"
    "unat stream_size \<le> k" and inv: "search_inv device nonce ?batch (unat stream_size) t 0 k s" "streams_bsy s = 0"
    using search_loop_ends [OF search_start_inv [OF assms(1)] assms(2,3), of device nonce]
    by (auto simp: cuda_search_def Let_def)
  moreover have "busy (unat stream_size) s = {}" by (simp add: busy_def inv(2))
  ultimately show ?thesis by (auto simp: search_inv_def accounted_def)
qed

text \<open>
  A device that finds a solution in every batch, with two streams of 1024 nonces: \<open>kick_miner\<close> is called
  after the first stream was given another batch, and the miner is paused in the next round.
\<close>

definition search_example :: "u64 \<Rightarrow> search_results" where
  "search_example n = \<lparr>solCount = 1, hashCount = 1024, res_done = 1, gid = [5, 0, 0, 0]\<rparr>"

definition events_example :: search_events where
  "events_example = \<lparr>ev_paused = (\<lambda>t. t = 1), ev_kicked = (\<lambda>t i. t = 0 \<and> i = 1), ev_stop = (\<lambda>t i. False)\<rparr>"

theorem cuda_search_correct_witness:
  "unat (2 :: u32) < 32 \<and> unat (8 * 128 :: u32) * unat (2 :: u32) < 2 ^ 32 \<and> ev_paused events_example 1 \<and>
   (\<exists>s k. cuda_search search_example events_example 8 128 2 (Suc 1) 7000 = Some s \<and>
    unat (2 :: u32) \<le> k \<and> streams_bsy s = 0 \<and> launched s = map (batch_start 7000 (8 * 128)) [0..<k] \<and>
    mset (submitted s) = mset (concat (map (batch_solutions search_example) (launched s))))"
proof -
  have h: "unat (2 :: u32) < 32" "unat (8 * 128 :: u32) * unat (2 :: u32) < 2 ^ 32" "ev_paused events_example 1"
    by (simp_all add: events_example_def)
  then show ?thesis using cuda_search_correct [OF h, of search_example 7000] by blast
qed

end
