(* ===== verification/Cuda_Helper.thy ===== *)
theory Cuda_Helper
  imports Bit_Manipulation Keccak_Sponge
begin

text \<open>
  The helper functions for code that runs on CUDA devices, from \<^verbatim>\<open>libcuda/cuda_helper.h\<close>: pairs and
  quadruples of 32-bit words, the inline instructions, and the operations on pairs. The instructions of the
  device are defined first, as its instruction set describes them. The lemmas show that the operations on
  pairs are the operations on the 64-bit words that the pairs stand for, for every architecture of the
  device that the preprocessor distinguishes, but for three operations that nothing uses: the product, and
  the shifts by 32 bits and more.
\<close>

section \<open>The device\<close>

text \<open>The macros \<^verbatim>\<open>__CUDA_ARCH__\<close> and \<^verbatim>\<open>CUDA_VERSION\<close> that select between variants.\<close>

record cuda_target =
  cuda_arch :: nat
  cuda_version :: nat

datatype uint2 = Uint2 (ux: u32) (uy: u32)
datatype uint4 = Uint4 (x4: u32) (y4: u32) (z4: u32) (w4: u32)

subsection \<open>Instructions\<close>

text \<open>\<^verbatim>\<open>mov.b64\<close>, in both directions.\<close>

definition mov_b64 :: "u32 \<Rightarrow> u32 \<Rightarrow> u64" where
  "mov_b64 lo hi = push_bit 32 (ucast hi) OR ucast lo"

definition mov_b64_lo :: "u64 \<Rightarrow> u32" where "mov_b64_lo v = ucast v"
definition mov_b64_hi :: "u64 \<Rightarrow> u32" where "mov_b64_hi v = ucast (drop_bit 32 v)"

text \<open>\<^verbatim>\<open>lop3.b32\<close>: any function of three bits, given by its table.\<close>

definition lop3_b32 :: "u32 \<Rightarrow> u32 \<Rightarrow> u32 \<Rightarrow> nat \<Rightarrow> u32" where
  "lop3_b32 a b c table =
     (let term = (\<lambda>i p. if bit table i then p else 0)
      in term 0 (NOT a AND NOT b AND NOT c) OR term 1 (NOT a AND NOT b AND c) OR
         term 2 (NOT a AND b AND NOT c) OR term 3 (NOT a AND b AND c) OR
         term 4 (a AND NOT b AND NOT c) OR term 5 (a AND NOT b AND c) OR
         term 6 (a AND b AND NOT c) OR term 7 (a AND b AND c))"

text \<open>\<^verbatim>\<open>shf.l.wrap\<close> and \<^verbatim>\<open>shf.r.wrap\<close>: the funnel shifts of \<open>b\<close> and \<open>a\<close>, high word first; \<^verbatim>\<open>clamp\<close> stops at 32.\<close>

definition shf_l_wrap :: "u32 \<Rightarrow> u32 \<Rightarrow> nat \<Rightarrow> u32" where
  "shf_l_wrap a b c = (let n = c mod 32 in push_bit n b OR drop_bit (32 - n) a)"

definition shf_r_wrap :: "u32 \<Rightarrow> u32 \<Rightarrow> nat \<Rightarrow> u32" where
  "shf_r_wrap a b c = (let n = c mod 32 in push_bit (32 - n) b OR drop_bit n a)"

definition shf_l_clamp :: "u32 \<Rightarrow> u32 \<Rightarrow> nat \<Rightarrow> u32" where
  "shf_l_clamp a b c = (let n = min c 32 in push_bit n b OR drop_bit (32 - n) a)"

definition shf_r_clamp :: "u32 \<Rightarrow> u32 \<Rightarrow> nat \<Rightarrow> u32" where
  "shf_r_clamp a b c = (let n = min c 32 in push_bit (32 - n) b OR drop_bit n a)"

text \<open>\<^verbatim>\<open>__byte_perm\<close>: four of the eight bytes of \<open>y\<close> and \<open>x\<close>, each selected by three bits.\<close>

definition byte_perm :: "u32 \<Rightarrow> u32 \<Rightarrow> nat \<Rightarrow> u32" where
  "byte_perm x y s =
     (let b = (\<lambda>i. take_bit 8 (drop_bit (8 * (s div 16 ^ i mod 8)) (mov_b64 x y)))
      in ucast (b 0 OR push_bit 8 (b 1) OR push_bit 16 (b 2) OR push_bit 24 (b 3)))"

text \<open>\<^verbatim>\<open>add.cc\<close>, \<^verbatim>\<open>addc\<close>, \<^verbatim>\<open>sub.cc\<close>, \<^verbatim>\<open>subc\<close>: the carry, or the borrow, between two words.\<close>

definition add_carry :: "u32 \<Rightarrow> u32 \<Rightarrow> bool" where
  "add_carry a b \<longleftrightarrow> unat a + unat b \<ge> 2 ^ 32"

definition sub_borrow :: "u32 \<Rightarrow> u32 \<Rightarrow> bool" where
  "sub_borrow a b \<longleftrightarrow> a < b"

text \<open>\<^verbatim>\<open>mul.hi\<close> and \<^verbatim>\<open>bfe.u32\<close>.\<close>

definition mul_hi :: "u32 \<Rightarrow> u32 \<Rightarrow> u32" where
  "mul_hi a b = ucast (drop_bit 32 (ucast a * ucast b :: u64))"

definition bfe_u32 :: "u32 \<Rightarrow> nat \<Rightarrow> nat \<Rightarrow> u32" where
  "bfe_u32 x pos len = take_bit len (drop_bit pos x)"

section \<open>The C++ routines\<close>

subsection \<open>Words\<close>

definition MAKE_ULONGLONG :: "u32 \<Rightarrow> u32 \<Rightarrow> u64" where
  "MAKE_ULONGLONG lo hi = mov_b64 lo hi"

definition cuda_swab32 :: "u32 \<Rightarrow> u32" where
  "cuda_swab32 x = byte_perm x x 0x0123"

definition cuda_swab64 :: "u64 \<Rightarrow> u64" where
  "cuda_swab64 x =
     (let tx = byte_perm (mov_b64_lo x) 0 0x0123; ty = byte_perm (mov_b64_hi x) 0 0x0123
      in mov_b64 ty tx)"

definition xor1 :: "u64 \<Rightarrow> u64 \<Rightarrow> u64" where "xor1 a b = a XOR b"

definition xor8 :: "u64 \<Rightarrow> u64 \<Rightarrow> u64 \<Rightarrow> u64 \<Rightarrow> u64 \<Rightarrow> u64 \<Rightarrow> u64 \<Rightarrow> u64 \<Rightarrow> u64" where
  "xor8 a b c d e f g h =
     (let r = g XOR h; r = r XOR f; r = r XOR e; r = r XOR d; r = r XOR c; r = r XOR b in r XOR a)"

definition xandx :: "u64 \<Rightarrow> u64 \<Rightarrow> u64 \<Rightarrow> u64" where
  "xandx a b c = (let r = b XOR c; n = r AND a in n XOR c)"

definition andor :: "u64 \<Rightarrow> u64 \<Rightarrow> u64 \<Rightarrow> u64" where
  "andor a b c = (let m = a AND b; n = a OR b; r = n AND c in r OR m)"

definition shr_t64 :: "u64 \<Rightarrow> u32 \<Rightarrow> u64" where "shr_t64 x n = drop_bit (unat n) x"
definition shl_t64 :: "u64 \<Rightarrow> u32 \<Rightarrow> u64" where "shl_t64 x n = push_bit (unat n) x"

text \<open>The rotations of 64-bit words, in the variant that is selected by default.\<close>

definition ROTR64 :: "u64 \<Rightarrow> nat \<Rightarrow> u64" where
  "ROTR64 x offset = push_bit (64 - offset) x + drop_bit offset x"

definition ROTL64 :: "u64 \<Rightarrow> nat \<Rightarrow> u64" where
  "ROTL64 x offset = push_bit offset x + drop_bit (64 - offset) x"

definition SWAPDWORDS :: "cuda_target \<Rightarrow> u64 \<Rightarrow> u64" where
  "SWAPDWORDS T value =
     (if cuda_arch T \<ge> 320 then mov_b64 (mov_b64_hi value) (mov_b64_lo value) else ROTL64 value 32)"

subsection \<open>Pairs\<close>

definition devectorize :: "uint2 \<Rightarrow> u64" where
  "devectorize a = mov_b64 (ux a) (uy a)"

definition vectorize :: "u64 \<Rightarrow> uint2" where
  "vectorize v = Uint2 (mov_b64_lo v) (mov_b64_hi v)"

definition devectorize2 :: "uint4 \<Rightarrow> uint2 \<times> uint2" where
  "devectorize2 v = (Uint2 (x4 v) (y4 v), Uint2 (z4 v) (w4 v))"

definition vectorize2 :: "uint2 \<Rightarrow> uint2 \<Rightarrow> uint4" where
  "vectorize2 a b = Uint4 (ux a) (uy a) (ux b) (uy b)"

definition vectorize4 :: "u64 \<Rightarrow> u64 \<Rightarrow> uint4" where
  "vectorize4 a b = Uint4 (mov_b64_lo a) (mov_b64_hi a) (mov_b64_lo b) (mov_b64_hi b)"

definition devectorize4 :: "uint4 \<Rightarrow> u64 \<times> u64" where
  "devectorize4 v = (mov_b64 (x4 v) (y4 v), mov_b64 (z4 v) (w4 v))"

definition vectorizelow :: "u32 \<Rightarrow> uint2" where "vectorizelow v = Uint2 v 0"
definition vectorizehigh :: "u32 \<Rightarrow> uint2" where "vectorizehigh v = Uint2 0 v"

definition u2_xor32 :: "uint2 \<Rightarrow> u32 \<Rightarrow> uint2" where "u2_xor32 a b = Uint2 (ux a XOR b) (uy a)"
definition u2_xor :: "uint2 \<Rightarrow> uint2 \<Rightarrow> uint2" where "u2_xor a b = Uint2 (ux a XOR ux b) (uy a XOR uy b)"
definition u2_and :: "uint2 \<Rightarrow> uint2 \<Rightarrow> uint2" where "u2_and a b = Uint2 (ux a AND ux b) (uy a AND uy b)"
definition u2_or :: "uint2 \<Rightarrow> uint2 \<Rightarrow> uint2" where "u2_or a b = Uint2 (ux a OR ux b) (uy a OR uy b)"
definition u2_not :: "uint2 \<Rightarrow> uint2" where "u2_not a = Uint2 (NOT (ux a)) (NOT (uy a))"

definition u2_add :: "uint2 \<Rightarrow> uint2 \<Rightarrow> uint2" where
  "u2_add a b = Uint2 (ux a + ux b) (uy a + uy b + of_bool (add_carry (ux a) (ux b)))"

definition u2_add32 :: "uint2 \<Rightarrow> u32 \<Rightarrow> uint2" where
  "u2_add32 a b = Uint2 (ux a + b) (uy a + 0 + of_bool (add_carry (ux a) b))"

definition u2_sub32 :: "uint2 \<Rightarrow> u32 \<Rightarrow> uint2" where
  "u2_sub32 a b = Uint2 (ux a - b) (uy a - 0 - of_bool (sub_borrow (ux a) b))"

definition u2_sub :: "uint2 \<Rightarrow> uint2 \<Rightarrow> uint2" where
  "u2_sub a b = Uint2 (ux a - ux b) (uy a - uy b - of_bool (sub_borrow (ux a) (ux b)))"

text \<open>
  The product multiplies the high word of the first factor with both words of the second one; the low word
  of the first factor is not multiplied with the high word of the second one.
\<close>

definition u2_mult :: "uint2 \<Rightarrow> uint2 \<Rightarrow> uint2" where
  "u2_mult a b =
     (let lo = ux a * ux b; hi = mul_hi (ux a) (ux b);
          c = add_carry (uy a * ux b) hi; hi = uy a * ux b + hi;
          hi = uy a * uy b + hi + of_bool c
      in Uint2 lo hi)"

definition ROR2 :: "cuda_target \<Rightarrow> uint2 \<Rightarrow> nat \<Rightarrow> uint2" where
  "ROR2 T a n =
     (if cuda_arch T \<ge> 350 then
        if n < 32 then Uint2 (shf_r_wrap (ux a) (uy a) n) (shf_r_wrap (uy a) (ux a) n)
        else Uint2 (shf_r_wrap (uy a) (ux a) n) (shf_r_wrap (ux a) (uy a) n)
      else
        if n \<le> 32
        then Uint2 (drop_bit n (ux a) OR push_bit (32 - n) (uy a)) (drop_bit n (uy a) OR push_bit (32 - n) (ux a))
        else Uint2 (drop_bit (n - 32) (uy a) OR push_bit (64 - n) (ux a))
                   (drop_bit (n - 32) (ux a) OR push_bit (64 - n) (uy a)))"

definition ROL2 :: "cuda_target \<Rightarrow> uint2 \<Rightarrow> nat \<Rightarrow> uint2" where
  "ROL2 T a n =
     (if cuda_arch T \<ge> 350 then
        if n \<ge> 32 then Uint2 (shf_l_wrap (ux a) (uy a) n) (shf_l_wrap (uy a) (ux a) n)
        else Uint2 (shf_l_wrap (uy a) (ux a) n) (shf_l_wrap (ux a) (uy a) n)
      else
        if n \<le> 32
        then Uint2 (push_bit n (ux a) OR drop_bit (32 - n) (uy a)) (push_bit n (uy a) OR drop_bit (32 - n) (ux a))
        else Uint2 (push_bit (n - 32) (uy a) OR drop_bit (64 - n) (ux a))
                   (push_bit (n - 32) (ux a) OR drop_bit (64 - n) (uy a)))"

definition ROR8 :: "uint2 \<Rightarrow> uint2" where
  "ROR8 a = Uint2 (byte_perm (uy a) (ux a) 0x0765) (byte_perm (uy a) (ux a) 0x4321)"

definition ROR16 :: "uint2 \<Rightarrow> uint2" where
  "ROR16 a = Uint2 (byte_perm (uy a) (ux a) 0x1076) (byte_perm (uy a) (ux a) 0x5432)"

definition ROR24 :: "uint2 \<Rightarrow> uint2" where
  "ROR24 a = Uint2 (byte_perm (uy a) (ux a) 0x2107) (byte_perm (uy a) (ux a) 0x6543)"

definition ROL8 :: "uint2 \<Rightarrow> uint2" where
  "ROL8 a = Uint2 (byte_perm (uy a) (ux a) 0x6543) (byte_perm (uy a) (ux a) 0x2107)"

definition ROL16 :: "uint2 \<Rightarrow> uint2" where
  "ROL16 a = Uint2 (byte_perm (uy a) (ux a) 0x5432) (byte_perm (uy a) (ux a) 0x1076)"

definition ROL24 :: "uint2 \<Rightarrow> uint2" where
  "ROL24 a = Uint2 (byte_perm (uy a) (ux a) 0x4321) (byte_perm (uy a) (ux a) 0x0765)"

definition SHL2 :: "cuda_target \<Rightarrow> uint2 \<Rightarrow> nat \<Rightarrow> uint2" where
  "SHL2 T a offset =
     (if cuda_arch T > 300 then
        if offset < 32 then Uint2 (push_bit offset (ux a)) (shf_l_clamp (ux a) (uy a) offset)
        else Uint2 (push_bit offset (uy a)) (shf_l_clamp (uy a) (ux a) offset)
      else
        if offset \<le> 32 then Uint2 (push_bit offset (ux a)) (push_bit offset (uy a) OR drop_bit (32 - offset) (ux a))
        else Uint2 0 (push_bit (offset - 32) (ux a)))"

definition SHR2 :: "cuda_target \<Rightarrow> uint2 \<Rightarrow> nat \<Rightarrow> uint2" where
  "SHR2 T a offset =
     (if cuda_arch T > 300 then
        if offset < 32 then Uint2 (shf_r_clamp (ux a) (uy a) offset) (drop_bit offset (uy a))
        else Uint2 (shf_l_clamp (uy a) (ux a) offset) (push_bit offset (ux a))
      else
        if offset \<le> 32 then Uint2 (drop_bit offset (ux a) OR push_bit (32 - offset) (uy a)) (drop_bit offset (uy a))
        else Uint2 (drop_bit (offset - 32) (uy a)) 0)"

definition devectorizeswap :: "uint2 \<Rightarrow> u64" where
  "devectorizeswap v = MAKE_ULONGLONG (cuda_swab32 (uy v)) (cuda_swab32 (ux v))"

definition vectorizeswap :: "u64 \<Rightarrow> uint2" where
  "vectorizeswap v = Uint2 (cuda_swab32 (mov_b64_hi v)) (cuda_swab32 (mov_b64_lo v))"

definition xor3b :: "u32 \<Rightarrow> u32 \<Rightarrow> u32 \<Rightarrow> u32" where
  "xor3b a b c = (let t1 = b XOR c in a XOR t1)"

definition bfe :: "u32 \<Rightarrow> u32 \<Rightarrow> u32 \<Rightarrow> u32" where
  "bfe x pos numBits = bfe_u32 x (unat pos) (unat numBits)"

section \<open>Pairs are 64-bit words\<close>

named_theorems device_simps \<open>operations on pairs as operations on 64-bit words\<close>

lemma bit_mov_b64:
  "bit (mov_b64 lo hi) n \<longleftrightarrow> (if n < 32 then bit lo n else n < 64 \<and> bit hi (n - 32))"
  by (auto simp: mov_b64_def bit_simps dest: bit_imp_le_length)

lemma bit_mov_b64_parts:
  "bit (mov_b64_lo v) n \<longleftrightarrow> n < 32 \<and> bit v n" "bit (mov_b64_hi v) n \<longleftrightarrow> n < 32 \<and> bit v (n + 32)"
  by (auto simp: mov_b64_lo_def mov_b64_hi_def bit_simps add.commute)

lemma mov_b64_parts [simp]:
  "mov_b64_lo (mov_b64 lo hi) = lo" "mov_b64_hi (mov_b64 lo hi) = hi"
  "mov_b64 (mov_b64_lo v) (mov_b64_hi v) = v"
  by (auto intro!: bit_word_eqI simp: bit_mov_b64 bit_mov_b64_parts split: if_splits)

lemma vectorize_devectorize [simp]: "vectorize (devectorize a) = a" "devectorize (vectorize v) = v"
  by (cases a) (simp_all add: vectorize_def devectorize_def)

lemma devectorize_inject [simp]: "devectorize a = devectorize b \<longleftrightarrow> a = b"
  by (metis vectorize_devectorize(1))

lemma devectorize_bitwise [device_simps]:
  "devectorize (u2_xor a b) = devectorize a XOR devectorize b"
  "devectorize (u2_and a b) = devectorize a AND devectorize b"
  "devectorize (u2_or a b) = devectorize a OR devectorize b"
  "devectorize (u2_not a) = NOT (devectorize a)"
  by (auto intro!: bit_word_eqI simp: devectorize_def bit_mov_b64 bit_simps u2_xor_def u2_and_def u2_or_def u2_not_def)

lemma unat_u32_less: "unat (a :: u32) < 2 ^ 32"
  using unsigned_less [of a, where ?'a = nat] by simp

lemma unat_mov_b64: "unat (mov_b64 lo hi) = unat lo + 2 ^ 32 * unat hi"
proof -
  have "\<not> (32 \<le> n \<and> bit lo n)" for n using bit_imp_le_length [of lo n] by auto
  then have "mov_b64 lo hi = push_bit 32 (ucast hi) + ucast lo"
    unfolding mov_b64_def by (intro disjunctive_add_eq_or [symmetric] bit_word_eqI) (auto simp: bit_simps)
  moreover have "unat lo < 2 ^ 32" "unat hi < 2 ^ 32" by (rule unat_u32_less)+
  moreover have "unat (ucast a :: u64) = unat a" for a :: u32
    using unat_u32_less [of a] by (simp add: unsigned_ucast_eq take_bit_nat_eq_self)
  ultimately show ?thesis
    by (simp add: push_bit_eq_mult unat_word_ariths)
qed

lemma mod_split: "(a :: nat) < m \<Longrightarrow> (a + m * k) mod (m * n) = a + m * (k mod n)"
  by (simp add: mod_mult2_eq)

lemma devectorize_arith [device_simps]:
  "devectorize (u2_add a b) = devectorize a + devectorize b"
  "devectorize (u2_sub a b) = devectorize a - devectorize b"
proof -
  have add: "mov_b64 (l + l') (h + h' + of_bool (add_carry l l')) = mov_b64 l h + mov_b64 l' h'" for l h l' h'
  proof (rule word_unat_eq_iff [THEN iffD2])
    define c where "c = (if add_carry l l' then 1 else 0 :: nat)"
    have l: "unat (l + l') + 2 ^ 32 * c = unat l + unat l'"
      using unat_u32_less [of l] unat_u32_less [of l'] by (auto simp: c_def add_carry_def unat_word_ariths mod_if)
    have u: "unat (v + w) = (unat v + unat w) mod 2 ^ 64" for v w :: u64 by (simp add: unat_word_ariths)
    have e: "unat l + 2 ^ 32 * unat h + (unat l' + 2 ^ 32 * unat h') = unat (l + l') + 2 ^ 32 * (unat h + unat h' + c)"
      using l by (simp add: distrib_left)
    have "unat (mov_b64 l h + mov_b64 l' h') = (unat (l + l') + 2 ^ 32 * (unat h + unat h' + c)) mod (2 ^ 32 * 2 ^ 32)"
      unfolding u unat_mov_b64 e by simp
    also have "\<dots> = unat (l + l') + 2 ^ 32 * ((unat h + unat h' + c) mod 2 ^ 32)"
      using unat_u32_less [of "l + l'"] by (rule mod_split)
    also have "(unat h + unat h' + c) mod 2 ^ 32 = unat (h + h' + of_bool (add_carry l l'))"
      by (simp add: unat_word_ariths c_def mod_simps)
    finally show "unat (mov_b64 (l + l') (h + h' + of_bool (add_carry l l'))) = unat (mov_b64 l h + mov_b64 l' h')"
      by (simp add: unat_mov_b64)
  qed
  show *: "devectorize (u2_add a b) = devectorize a + devectorize b" for a b
    by (simp add: devectorize_def u2_add_def add)
  have "u2_add (u2_sub a b) b = a"
    using unat_u32_less [of "ux a"]
    by (cases a; cases b) (auto simp: u2_add_def u2_sub_def add_carry_def sub_borrow_def word_less_nat_alt unat_sub_if')
  then show "devectorize (u2_sub a b) = devectorize a - devectorize b"
    using * [of "u2_sub a b" b] by (simp add: eq_diff_eq)
qed

lemma rotl_cases:
  "0 < s \<Longrightarrow> s < 64 \<Longrightarrow> n < 64 \<Longrightarrow>
     bit (word_rotl s (v :: u64)) n = (if n < s then bit v (n + 64 - s) else bit v (n - s))"
  by (auto simp: bit_simps mod_if)

lemma mov_b64_rotl:
  assumes "0 < n" "n < 32"
  shows "mov_b64 (push_bit n lo OR drop_bit (32 - n) hi) (push_bit n hi OR drop_bit (32 - n) lo) =
    word_rotl n (mov_b64 lo hi)"
proof (rule bit_word_eqI)
  fix k assume k: "k < LENGTH(64)"
  have z: "32 \<le> m \<Longrightarrow> \<not> bit lo m" "32 \<le> m \<Longrightarrow> \<not> bit hi m" for m
    using bit_imp_le_length [of lo m] bit_imp_le_length [of hi m] by auto
  consider "k < n" | "n \<le> k" "k < 32" | "32 \<le> k" "k < n + 32" | "n + 32 \<le> k" by linarith
  then show "bit (mov_b64 (push_bit n lo OR drop_bit (32 - n) hi) (push_bit n hi OR drop_bit (32 - n) lo)) k =
      bit (word_rotl n (mov_b64 lo hi)) k"
    using assms k z rotl_cases [of n k "mov_b64 lo hi"] by cases (auto simp: bit_mov_b64 bit_simps add.commute)
qed

lemma mov_b64_swap: "mov_b64 hi lo = word_rotl 32 (mov_b64 lo hi)"
proof (rule bit_word_eqI)
  fix k assume k: "k < LENGTH(64)"
  then have "k - 32 < 32" "k + 64 - 32 = k + 32" by auto
  then show "bit (mov_b64 hi lo) k = bit (word_rotl 32 (mov_b64 lo hi)) k"
    using k rotl_cases [of 32 k "mov_b64 lo hi"] by (simp add: bit_mov_b64)
qed

lemma word_rotl_rotl: "word_rotl m (word_rotl n v) = word_rotl (m + n) (v :: u64)"
  by (simp add: word_rotl_rev word_rotr_word_rotr_eq)

lemma rotation_cases:
  assumes "0 < n" "n < (64 :: nat)"
  obtains "n < 32" | "n = 32" | m where "n = m + 32" "0 < m" "m < 32"
proof -
  have "n = n - 32 + 32 \<and> 0 < n - 32 \<and> n - 32 < 32" if "32 < n" using that assms by auto
  then show thesis using that by (meson linorder_neqE_nat)
qed

lemma devectorize_ROL2 [device_simps]:
  assumes "0 < n" "n < 64"
  shows "devectorize (ROL2 T a n) = word_rotl n (devectorize a)"
proof -
  consider "n < 32" | "n = 32" | m where "n = m + 32" "0 < m" "m < 32" using assms by (rule rotation_cases)
  then show ?thesis
  proof cases
    case 1
    then show ?thesis using assms mov_b64_rotl [of n "ux a" "uy a"]
      by (simp add: ROL2_def shf_l_wrap_def Let_def devectorize_def)
  next
    case 2
    then show ?thesis by (simp add: ROL2_def shf_l_wrap_def Let_def devectorize_def mov_b64_swap [of "uy a"])
  next
    case 3
    then show ?thesis using mov_b64_rotl [of m "uy a" "ux a"]
      by (simp add: ROL2_def shf_l_wrap_def Let_def devectorize_def mov_b64_swap [of "uy a"] word_rotl_rotl)
  qed
qed

lemma devectorize_arith32 [device_simps]:
  "devectorize (u2_add32 a c) = devectorize a + ucast c"
  "devectorize (u2_sub32 a c) = devectorize a - ucast c"
proof -
  have "devectorize (Uint2 c 0) = ucast c" by (simp add: devectorize_def mov_b64_def)
  moreover have "u2_add32 a c = u2_add a (Uint2 c 0)" "u2_sub32 a c = u2_sub a (Uint2 c 0)"
    by (simp_all add: u2_add32_def u2_add_def u2_sub32_def u2_sub_def)
  ultimately show "devectorize (u2_add32 a c) = devectorize a + ucast c"
    "devectorize (u2_sub32 a c) = devectorize a - ucast c" by (simp_all add: devectorize_arith)
qed

lemma rotr_rotl: "0 < s \<Longrightarrow> s < 64 \<Longrightarrow> word_rotr s (v :: u64) = word_rotl (64 - s) v"
  by (rule bit_word_eqI) (auto simp: bit_simps mod_if)

lemma ROR2_ROL2:
  assumes "0 < n" "n < 64"
  shows "ROR2 T a n = ROL2 T a (64 - n)"
proof -
  consider "n < 32" | "n = 32" | m where "n = m + 32" "0 < m" "m < 32" using assms by (rule rotation_cases)
  then show ?thesis
  proof cases
    case 1
    then have "(64 - n) mod 32 = 32 - n" "\<not> 64 - n \<le> 32" using assms by (simp_all add: mod_if)
    with 1 assms show ?thesis by (simp add: ROR2_def ROL2_def shf_r_wrap_def shf_l_wrap_def Let_def or.commute)
  next
    case 2
    then show ?thesis by (simp add: ROR2_def ROL2_def shf_r_wrap_def shf_l_wrap_def Let_def)
  next
    case 3
    then show ?thesis by (simp add: ROR2_def ROL2_def shf_r_wrap_def shf_l_wrap_def Let_def or.commute)
  qed
qed

lemma devectorize_ROR2 [device_simps]:
  "0 < n \<Longrightarrow> n < 64 \<Longrightarrow> devectorize (ROR2 T a n) = word_rotr n (devectorize a)"
  by (simp add: ROR2_ROL2 devectorize_ROL2 rotr_rotl)

text \<open>Bytes that are permuted.\<close>

lemma bit_byte_perm:
  assumes "m < 8"
  shows "bit (byte_perm x y s) m \<longleftrightarrow> bit (mov_b64 x y) (8 * (s mod 8) + m)"
    and "bit (byte_perm x y s) (m + 8) \<longleftrightarrow> bit (mov_b64 x y) (8 * (s div 16 mod 8) + m)"
    and "bit (byte_perm x y s) (m + 16) \<longleftrightarrow> bit (mov_b64 x y) (8 * (s div 16 ^ 2 mod 8) + m)"
    and "bit (byte_perm x y s) (m + 24) \<longleftrightarrow> bit (mov_b64 x y) (8 * (s div 16 ^ 3 mod 8) + m)"
  using assms by (simp_all add: byte_perm_def Let_def bit_simps)

lemma no_bit: "32 \<le> n \<Longrightarrow> \<not> bit (x :: u32) n"
  using bit_imp_le_length [of x n] by auto

lemma byte_wise:
  assumes "\<And>m. m < 8 \<Longrightarrow> bit a m = bit b m" "\<And>m. m < 8 \<Longrightarrow> bit a (m + 8) = bit b (m + 8)"
    "\<And>m. m < 8 \<Longrightarrow> bit a (m + 16) = bit b (m + 16)" "\<And>m. m < 8 \<Longrightarrow> bit a (m + 24) = bit b (m + 24)"
  shows "a = (b :: u32)"
proof (rule bit_word_eqI)
  fix n assume "n < LENGTH(32)"
  then consider "n < 8" | "8 \<le> n" "n - 8 < 8" | "16 \<le> n" "n - 16 < 8" | "24 \<le> n" "n - 24 < 8" by fastforce
  then show "bit a n = bit b n"
    using assms(1) [of n] assms(2) [of "n - 8"] assms(3) [of "n - 16"] assms(4) [of "n - 24"] by cases auto
qed

lemma byte_perm_rotations:
  "byte_perm y x 0x6543 = push_bit 8 x OR drop_bit 24 y" "byte_perm y x 0x2107 = push_bit 8 y OR drop_bit 24 x"
  "byte_perm y x 0x5432 = push_bit 16 x OR drop_bit 16 y" "byte_perm y x 0x1076 = push_bit 16 y OR drop_bit 16 x"
  "byte_perm y x 0x4321 = push_bit 24 x OR drop_bit 8 y" "byte_perm y x 0x0765 = push_bit 24 y OR drop_bit 8 x"
proof -
qed (rule byte_wise; simp add: bit_byte_perm bit_mov_b64 bit_simps no_bit)+

lemma devectorize_ROL8 [device_simps]: "devectorize (ROL8 a) = word_rotl 8 (devectorize a)"
  using mov_b64_rotl [of 8 "ux a" "uy a"] by (simp add: ROL8_def devectorize_def byte_perm_rotations)

lemma devectorize_rotations [device_simps]:
  "devectorize (ROL16 a) = word_rotl 16 (devectorize a)" "devectorize (ROL24 a) = word_rotl 24 (devectorize a)"
  "devectorize (ROR8 a) = word_rotl 56 (devectorize a)" "devectorize (ROR16 a) = word_rotl 48 (devectorize a)"
  "devectorize (ROR24 a) = word_rotl 40 (devectorize a)"
proof -
  have r: "mov_b64 (push_bit n hi OR drop_bit (32 - n) lo) (push_bit n lo OR drop_bit (32 - n) hi) =
      word_rotl (n + 32) (mov_b64 lo hi)" if "0 < n" "n < 32" for n lo hi
    using mov_b64_rotl [OF that, of hi lo] by (simp add: mov_b64_swap [of hi lo] word_rotl_rotl)
  show "devectorize (ROL16 a) = word_rotl 16 (devectorize a)" "devectorize (ROL24 a) = word_rotl 24 (devectorize a)"
    using mov_b64_rotl [of 16 "ux a" "uy a"] mov_b64_rotl [of 24 "ux a" "uy a"]
    by (simp_all add: ROL16_def ROL24_def devectorize_def byte_perm_rotations)
  show "devectorize (ROR8 a) = word_rotl 56 (devectorize a)" "devectorize (ROR16 a) = word_rotl 48 (devectorize a)"
    "devectorize (ROR24 a) = word_rotl 40 (devectorize a)"
    using r [of 24 "uy a" "ux a"] r [of 16 "uy a" "ux a"] r [of 8 "uy a" "ux a"]
    by (simp_all add: ROR8_def ROR16_def ROR24_def devectorize_def byte_perm_rotations)
qed

text \<open>Reversing the bytes.\<close>

lemma byte_positions:
  "m < 8 \<Longrightarrow> (m + 8) div 8 = 1" "m < 8 \<Longrightarrow> (m + 16) div 8 = 2" "m < 8 \<Longrightarrow> (m + 24) div 8 = 3"
  "m < 8 \<Longrightarrow> (m + 16) mod 8 = m" "m < 8 \<Longrightarrow> (m + 24) mod 8 = m" for m :: nat
  by presburger+

lemma cuda_swab32_bswap: "cuda_swab32 x = bswap32 x" "byte_perm x 0 0x0123 = bswap32 x"
proof -
qed (rule byte_wise; simp add: cuda_swab32_def bit_byte_perm bit_mov_b64 bit_le_join bswap32_def rev_nth le_split_nth bit_simps byte_positions)+

lemma le_split_mov_b64: "le_split 8 (mov_b64 lo hi) = le_split 4 lo @ le_split 4 hi"
  by (auto intro!: bit_word_eqI simp: le_split_def upt_rec bit_mov_b64 bit_simps no_bit)

lemma mov_b64_join: "length xs = 4 \<Longrightarrow> length ys = 4 \<Longrightarrow> mov_b64 (le_join xs) (le_join ys) = le_join (xs @ ys)"
  using le_join_split_64 [of "mov_b64 (le_join xs) (le_join ys)"] by (simp add: le_split_mov_b64)

lemma cuda_swab64_bswap: "cuda_swab64 v = bswap64 v"
proof -
  have "le_split 8 v = le_split 4 (mov_b64_lo v) @ le_split 4 (mov_b64_hi v)"
    using le_split_mov_b64 [of "mov_b64_lo v" "mov_b64_hi v"] by simp
  then show ?thesis
    by (simp add: cuda_swab64_def cuda_swab32_bswap bswap64_def bswap32_def mov_b64_join)
qed

text \<open>The choices by instructions with a table.\<close>

lemma lop3_tables:
  "lop3_b32 a b c 0x96 = a XOR b XOR c" "lop3_b32 a b c 0xD2 = a XOR (NOT b AND c)"
  by (auto intro!: bit_word_eqI simp: lop3_b32_def Let_def bit_simps)

lemma bfe_bits: "bfe x pos n = take_bit (unat n) (drop_bit (unat pos) x)"
  by (simp add: bfe_def bfe_u32_def)

text \<open>The operations on 64-bit words.\<close>

lemma ROTL64_rotl:
  assumes "0 < n" "n < 64"
  shows "ROTL64 v n = word_rotl n v"
proof -
  have z: "n \<le> k \<Longrightarrow> \<not> bit v (64 + k - n)" for k using bit_imp_le_length [of v "64 + k - n"] by auto
  have "push_bit n v AND drop_bit (64 - n) v = 0"
    using assms by (auto intro!: bit_word_eqI simp: bit_simps z)
  then have "ROTL64 v n = rol v n" unfolding ROTL64_def rol_def by (rule disjunctive_add_eq_or)
  then show ?thesis using assms by (simp add: rol_word_rotl)
qed

lemma ROTR64_rotr: "0 < n \<Longrightarrow> n < 64 \<Longrightarrow> ROTR64 v n = word_rotr n v"
  using ROTL64_rotl [of "64 - n" v] by (simp add: rotr_rotl ROTR64_def ROTL64_def)

lemma SWAPDWORDS_rotl: "SWAPDWORDS T v = word_rotl 32 v"
  using mov_b64_swap [of "mov_b64_hi v" "mov_b64_lo v"] by (simp add: SWAPDWORDS_def ROTL64_rotl)

lemma word_choices:
  "bit (xandx a b c) n = (if bit a n then bit b n else bit c n)"
  "bit (andor a b c) n = (2 \<le> of_bool (bit a n) + of_bool (bit b n) + (of_bool (bit c n) :: nat))"
  by (auto simp: xandx_def andor_def Let_def bit_simps)

lemma devectorizeswap_bswap: "devectorizeswap a = bswap64 (devectorize a)" "vectorizeswap v = vectorize (bswap64 v)"
proof -
  have d: "devectorizeswap a = bswap64 (devectorize a)" for a
    by (simp add: devectorizeswap_def MAKE_ULONGLONG_def cuda_swab32_bswap bswap32_def bswap64_def devectorize_def
        le_split_mov_b64 mov_b64_join)
  show "devectorizeswap a = bswap64 (devectorize a)" by (rule d)
  have "devectorize (vectorizeswap v) = bswap64 v"
    using cuda_swab64_bswap [of v]
    by (simp add: devectorize_def vectorizeswap_def cuda_swab64_def cuda_swab32_bswap)
  then show "vectorizeswap v = vectorize (bswap64 v)" by (metis vectorize_devectorize(1))
qed

section \<open>Shifts and products of pairs\<close>

lemma devectorize_SHL2:
  assumes "n < 32"
  shows "devectorize (SHL2 T a n) = push_bit n (devectorize a)"
proof -
  have "SHL2 T a n = Uint2 (push_bit n (ux a)) (push_bit n (uy a) OR drop_bit (32 - n) (ux a))"
    using assms by (simp add: SHL2_def shf_l_clamp_def)
  moreover have "mov_b64 (push_bit n lo) (push_bit n hi OR drop_bit (32 - n) lo) = push_bit n (mov_b64 lo hi)" for lo hi
  proof (rule bit_word_eqI)
    fix k assume k: "k < LENGTH(64)"
    consider "k < n" | "n \<le> k" "k < 32" | "32 \<le> k" "k < n + 32" | "n + 32 \<le> k" by linarith
    then show "bit (mov_b64 (push_bit n lo) (push_bit n hi OR drop_bit (32 - n) lo)) k = bit (push_bit n (mov_b64 lo hi)) k"
      using assms k by cases (auto simp: bit_mov_b64 bit_simps no_bit add.commute)
  qed
  ultimately show ?thesis by (simp add: devectorize_def)
qed

lemma devectorize_SHR2:
  assumes "n < 32"
  shows "devectorize (SHR2 T a n) = drop_bit n (devectorize a)"
proof -
  have "SHR2 T a n = Uint2 (push_bit (32 - n) (uy a) OR drop_bit n (ux a)) (drop_bit n (uy a))"
    using assms by (simp add: SHR2_def shf_r_clamp_def or.commute)
  moreover have "mov_b64 (push_bit (32 - n) hi OR drop_bit n lo) (drop_bit n hi) = drop_bit n (mov_b64 lo hi)" for lo hi
  proof (rule bit_word_eqI)
    fix k assume k: "k < LENGTH(64)"
    consider "k < 32 - n" | "32 - n \<le> k" "k < 32" | "32 \<le> k" by linarith
    then show "bit (mov_b64 (push_bit (32 - n) hi OR drop_bit n lo) (drop_bit n hi)) k = bit (drop_bit n (mov_b64 lo hi)) k"
      using assms k bit_imp_le_length [of hi "k + n - 32"] by cases (auto simp: bit_mov_b64 bit_simps no_bit add.commute)
  qed
  ultimately show ?thesis by (simp add: devectorize_def)
qed

text \<open>
  On an architecture above 300 the left shift by 32 bits and the right shift by 33 bits are wrong, and so is
  the product: none of them is the operation on the 64-bit words.
\<close>

lemma wide_shifts_wrong:
  "devectorize (SHL2 \<lparr>cuda_arch = 350, cuda_version = 7050\<rparr> (vectorize 1) 32) \<noteq> push_bit 32 1"
  "devectorize (SHR2 \<lparr>cuda_arch = 350, cuda_version = 7050\<rparr> (vectorize 0x200000000) 33) \<noteq> drop_bit 33 0x200000000"
  by (simp_all add: SHL2_def SHR2_def shf_l_clamp_def vectorize_def devectorize_def mov_b64_def mov_b64_lo_def mov_b64_hi_def)

lemma u2_mult_wrong: "devectorize (u2_mult (vectorize 1) (vectorize 0x100000000)) \<noteq> 1 * 0x100000000"
  by (simp add: u2_mult_def vectorize_def devectorize_def mov_b64_def mov_b64_lo_def mov_b64_hi_def mul_hi_def Let_def
      add_carry_def)

end
