(* ===== verification/Cuda_Dagger.thy ===== *)
theory Cuda_Dagger
  imports Cuda_Keccak Ethash_Spec
begin

text \<open>
  The evaluation of nonces on a CUDA device, from \<^verbatim>\<open>libcuda/dagger_shuffled.cuh\<close> and \<^verbatim>\<open>libcuda/fnv.cuh\<close>: eight
  threads compute the hashes of their eight nonces together, and each of them holds a quarter of a mix of
  each hash in turn. The theory models the group of threads, which proceed in step, with the values of a
  variable in all threads as a list, and shows that the result of every thread is that of Hashimoto of the
  Ethash specification for its nonce.
\<close>

section \<open>The C++ routines\<close>

definition FNV_PRIME :: u32 where "FNV_PRIME = 0x01000193"

definition fnv :: "u32 \<Rightarrow> u32 \<Rightarrow> u32" where
  "fnv x y = x * FNV_PRIME XOR y"

definition fnv4 :: "uint4 \<Rightarrow> uint4 \<Rightarrow> uint4" where
  "fnv4 a b =
     Uint4 (x4 a * FNV_PRIME XOR x4 b) (y4 a * FNV_PRIME XOR y4 b)
           (z4 a * FNV_PRIME XOR z4 b) (w4 a * FNV_PRIME XOR w4 b)"

definition fnv_reduce :: "uint4 \<Rightarrow> u32" where
  "fnv_reduce v = fnv (fnv (fnv (x4 v) (y4 v)) (z4 v)) (w4 v)"

text \<open>The constants that the host sets before a kernel is started.\<close>

record cuda_globals =
  d_dag_size :: u32
  d_dag :: "uint4 list list"
  d_light_size :: u32
  d_light :: "uint4 list list"
  d_header :: "uint4 list"
  d_target :: u64

definition ACCESSES :: nat where "ACCESSES = 64"
definition THREADS_PER_HASH :: nat where "THREADS_PER_HASH = 8"
definition PARALLEL_HASH :: nat where "PARALLEL_HASH = 4"

text \<open>\<open>SHFL\<close>: the value of a variable in another thread of the group.\<close>

definition SHFL :: "'a list \<Rightarrow> nat \<Rightarrow> 'a" where
  "SHFL vs src = vs ! (src mod length vs)"

definition SHFL2 :: "uint2 list \<Rightarrow> nat \<Rightarrow> uint2" where
  "SHFL2 vs src = Uint2 (SHFL (map ux vs) src) (SHFL (map uy vs) src)"

text \<open>The mix and the first word of the hash of thread \<open>src\<close>, in all threads.\<close>

definition share_init :: "uint2 list list \<Rightarrow> nat \<Rightarrow> uint4 list \<times> u32 list" where
  "share_init states src =
     (let shuffle = map (\<lambda>thread. map (\<lambda>j. SHFL2 (map (\<lambda>s. s ! j) states) src) [0..<8]) [0..<THREADS_PER_HASH];
          mix = map (\<lambda>thread_id.
                  let s = shuffle ! thread_id; mix_idx = thread_id mod 4
                  in if mix_idx = 0 then vectorize2 (s ! 0) (s ! 1)
                     else if mix_idx = 1 then vectorize2 (s ! 2) (s ! 3)
                     else if mix_idx = 2 then vectorize2 (s ! 4) (s ! 5)
                     else vectorize2 (s ! 6) (s ! 7)) [0..<THREADS_PER_HASH];
          init0 = map (\<lambda>thread. SHFL (map (\<lambda>s. ux (s ! 0)) shuffle) 0) [0..<THREADS_PER_HASH]
      in (mix, init0))"

text \<open>One access to the dataset for one of the hashes.\<close>

definition dag_access :: "cuda_globals \<Rightarrow> u32 \<Rightarrow> u32 \<Rightarrow> u32 list \<Rightarrow> uint4 list \<Rightarrow> uint4 list" where
  "dag_access g a b init0 mix =
     (let t = bfe a 2 3;
          offset = map (\<lambda>thread. fnv (init0 ! thread XOR (a + b)) (words4 (mix ! thread) ! unat b) mod d_dag_size g)
                     [0..<THREADS_PER_HASH];
          offset = map (\<lambda>thread. SHFL offset (unat t)) [0..<THREADS_PER_HASH]
      in map (\<lambda>thread_id. fnv4 (mix ! thread_id) (d_dag g ! unat (offset ! thread_id) ! thread_id)) [0..<THREADS_PER_HASH])"

definition dag_accesses :: "cuda_globals \<Rightarrow> u32 list list \<Rightarrow> uint4 list list \<Rightarrow> uint4 list list" where
  "dag_accesses g inits mixes =
     fold (\<lambda>a. fold (\<lambda>b. fold (\<lambda>p mixes.
         mixes[p := dag_access g (word_of_nat a) (word_of_nat b) (inits ! p) (mixes ! p)]) [0..<PARALLEL_HASH])
       [0..<4]) (map ((*) 4) [0..<ACCESSES div 4]) mixes"

text \<open>The mix of a hash is moved into the state of its thread.\<close>

definition move_mix :: "nat \<Rightarrow> uint4 list \<Rightarrow> uint2 list list \<Rightarrow> uint2 list list" where
  "move_mix dest mix states =
     (let thread_mix = map fnv_reduce mix;
          shuffle = map (\<lambda>j. Uint2 (SHFL thread_mix (2 * j)) (SHFL thread_mix (2 * j + 1))) [0..<4]
      in map (\<lambda>thread_id.
           let state = states ! thread_id
           in if dest = thread_id
              then state[8 := shuffle ! 0, 9 := shuffle ! 1, 10 := shuffle ! 2, 11 := shuffle ! 3]
              else state) [0..<THREADS_PER_HASH])"

definition hash_round :: "cuda_globals \<Rightarrow> nat \<Rightarrow> uint2 list list \<Rightarrow> uint2 list list" where
  "hash_round g i states =
     (let shared = map (\<lambda>p. share_init states (i + p)) [0..<PARALLEL_HASH];
          mixes = dag_accesses g (map snd shared) (map fst shared)
      in fold (\<lambda>p states. move_mix (i + p) (mixes ! p) states) [0..<PARALLEL_HASH] states)"

text \<open>The hash of a group; only entry 4 of the initial state is set. The result is true for no solution.\<close>

definition compute_hash :: "cuda_target \<Rightarrow> cuda_globals \<Rightarrow> u64 list \<Rightarrow> bool list" where
  "compute_hash T g nonces =
     (let states = map (\<lambda>nonce. (replicate 12 (Uint2 0 0))[4 := vectorize nonce]) nonces;
          states = map (keccak_f1600_init T (d_header g)) states;
          states = fold (hash_round g) (map ((*) PARALLEL_HASH) [0..<THREADS_PER_HASH div PARALLEL_HASH]) states
      in map (\<lambda>state. cuda_swab64 (keccak_f1600_final T state) > d_target g) states)"

section \<open>The hash of a thread\<close>

lemma fnv_fnv1: "fnv x y = fnv1 x y"
  by (simp add: fnv_def fnv1_def FNV_PRIME_def fnv_prime_def)

lemma words4_fnv4: "words4 (fnv4 a b) = map2 fnv1 (words4 a) (words4 b)"
  by (simp add: fnv4_def words4_def fnv1_def FNV_PRIME_def fnv_prime_def)

lemma fnv_reduce_words: "fnv_reduce v = fold (\<lambda>w h. fnv1 h w) (tl (words4 v)) (hd (words4 v))"
  by (simp add: fnv_reduce_def words4_def fnv_fnv1)

text \<open>The words that a list of quadruples holds.\<close>

definition mix_words :: "uint4 list \<Rightarrow> u32 list" where
  "mix_words mix = concat (map words4 mix)"

lemma mix_words_fnv4:
  "length xs = length ys \<Longrightarrow> mix_words (map2 fnv4 xs ys) = map2 fnv1 (mix_words xs) (mix_words ys)"
  by (induction xs ys rule: list_induct2) (simp_all add: mix_words_def words4_fnv4)

lemma length_mix_words [simp]: "length (mix_words mix) = 4 * length mix"
  by (induction mix) (simp_all add: mix_words_def)

lemma nth_mix_words: "i < length mix \<Longrightarrow> b < 4 \<Longrightarrow> mix_words mix ! (4 * i + b) = words4 (mix ! i) ! b"
proof (induction mix arbitrary: i)
  case (Cons v mix)
  then show ?case by (cases i) (simp_all add: mix_words_def nth_append)
qed simp

lemma spec_compress_words: "spec_compress (mix_words mix) = map fnv_reduce mix"
proof -
  have "chunks 4 (mix_words mix) = map words4 mix" unfolding mix_words_def by (rule chunks_concat) auto
  then show ?thesis by (simp add: spec_compress_def fnv_reduce_words)
qed

lemma upt_8: "[0..<8] = [0, 1, 2, 3, 4, 5, 6, 7]"
  by (simp add: upt_rec)

lemma replicate_8: "replicate 8 x = [x, x, x, x, x, x, x, x]"
  by (simp add: numeral_nat)

lemma share_init_words:
  assumes "length states = 8" "src < 8" "length (states ! src) = 12"
  shows "mix_words (fst (share_init states src)) = concat (map words2 (take 8 (states ! src) @ take 8 (states ! src)))"
    and "snd (share_init states src) = replicate 8 (ux (states ! src ! 0))"
    and "length (fst (share_init states src)) = 8"
proof -
  have s: "take 8 (states ! src) = map ((!) (states ! src)) [0..<8]"
    using assms(3) by (intro nth_equalityI) simp_all
  have sh: "SHFL2 (map (\<lambda>s. s ! j) states) src = states ! src ! j" for j
    using assms(1,2) by (simp add: SHFL2_def SHFL_def)
  show "mix_words (fst (share_init states src)) = concat (map words2 (take 8 (states ! src) @ take 8 (states ! src)))"
    unfolding share_init_def sh Let_def THREADS_PER_HASH_def s upt_8
    by (simp add: mix_words_def words4_def words2_def vectorize2_def)
  show "snd (share_init states src) = replicate 8 (ux (states ! src ! 0))"
    unfolding share_init_def sh Let_def THREADS_PER_HASH_def upt_8
    by (simp add: SHFL_def replicate_8)
  show "length (fst (share_init states src)) = 8" by (simp add: share_init_def THREADS_PER_HASH_def)
qed

text \<open>The dataset on the device: enough items, each of eight quadruples.\<close>

definition wf_dag :: "cuda_globals \<Rightarrow> bool" where
  "wf_dag g \<longleftrightarrow> 0 < d_dag_size g \<and> unat (d_dag_size g) \<le> length (d_dag g) \<and> (\<forall>item \<in> set (d_dag g). length item = 8)"

definition dag_words :: "cuda_globals \<Rightarrow> nat \<Rightarrow> u32 list" where
  "dag_words g k = mix_words (d_dag g ! k)"

lemma unat_of_nat_u32: "n < 2 ^ 32 \<Longrightarrow> unat (word_of_nat n :: u32) = n"
  by (simp add: unsigned_of_nat take_bit_nat_eq_self)

lemma bfe_access:
  assumes "q < 16"
  shows "unat (bfe (word_of_nat (4 * q)) 2 3) = q mod 8"
proof -
  have "unat (word_of_nat (4 * q) :: u32) = 4 * q" using assms by (intro unat_of_nat_u32) simp
  then show ?thesis
    unfolding bfe_bits unsigned_take_bit_eq unat_drop_bit_eq by (simp only: drop_bit_eq_div take_bit_eq_mod) simp
qed

lemma dag_access_words:
  assumes "wf_dag g" "length mix = 8" "q < 16" "b < 4"
  shows "length (dag_access g (word_of_nat (4 * q)) (word_of_nat b) (replicate 8 s0) mix) = 8"
    and "mix_words (dag_access g (word_of_nat (4 * q)) (word_of_nat b) (replicate 8 s0) mix) =
      spec_mix_step (unat (d_dag_size g)) (dag_words g) s0 (4 * q + b) (mix_words mix)"
proof -
  let ?x = "fnv (s0 XOR word_of_nat (4 * q + b)) (words4 (mix ! (q mod 8)) ! b)"
  let ?k = "unat ?x mod unat (d_dag_size g)"
  have b: "unat (word_of_nat b :: u32) = b" using assms(4) by (intro unat_of_nat_u32) simp
  have s: "SHFL (map (\<lambda>thread. fnv (replicate 8 s0 ! thread XOR (word_of_nat (4 * q) + word_of_nat b)) (words4 (mix ! thread) ! b) mod
      d_dag_size g) [0..<8]) (q mod 8) = ?x mod d_dag_size g"
    by (simp add: SHFL_def)
  have a: "dag_access g (word_of_nat (4 * q)) (word_of_nat b) (replicate 8 s0) mix =
      map (\<lambda>thread_id. fnv4 (mix ! thread_id) (d_dag g ! ?k ! thread_id)) [0..<8]"
    unfolding dag_access_def Let_def THREADS_PER_HASH_def b bfe_access [OF assms(3)] s
    by (simp add: unat_mod_distrib)
  then show "length (dag_access g (word_of_nat (4 * q)) (word_of_nat b) (replicate 8 s0) mix) = 8" by simp
  have k: "?k < unat (d_dag_size g)" using assms(1) by (simp add: wf_dag_def word_less_nat_alt)
  then have l: "length (d_dag g ! ?k) = 8" using assms(1) by (simp add: wf_dag_def)
  have "map (\<lambda>thread_id. fnv4 (mix ! thread_id) (d_dag g ! ?k ! thread_id)) [0..<8] = map2 fnv4 mix (d_dag g ! ?k)"
    using assms(2) l by (intro nth_equalityI) simp_all
  moreover have "words4 (mix ! (q mod 8)) ! b = mix_words mix ! ((4 * q + b) mod 32)"
  proof -
    have "(4 * q + b) mod (4 * 8) = 4 * (q mod 8) + b" using assms(4) by (subst mod_mult2_eq) simp
    then show ?thesis using nth_mix_words [of "q mod 8" mix b] assms(2,4) by simp
  qed
  ultimately show "mix_words (dag_access g (word_of_nat (4 * q)) (word_of_nat b) (replicate 8 s0) mix) =
      spec_mix_step (unat (d_dag_size g)) (dag_words g) s0 (4 * q + b) (mix_words mix)"
    using a l assms(2) mix_words_fnv4 [of mix "d_dag g ! ?k"]
    by (simp add: spec_mix_step_def dag_words_def fnv_fnv1 xor.commute)
qed

text \<open>Loops that count up.\<close>

lemma fold_upt_invariant:
  assumes "P 0 x" and "\<And>i x. i < n \<Longrightarrow> P i x \<Longrightarrow> P (Suc i) (f i x)"
  shows "P n (fold f [0..<n] x)"
  using assms by (induction n) simp_all

lemma fold_updates:
  "n \<le> length m \<Longrightarrow> fold (\<lambda>p m. m[p := f p (m ! p)]) [0..<n] m = map (\<lambda>p. f p (m ! p)) [0..<n] @ drop n m"
proof (induction n)
  case (Suc n)
  then have "drop n m = m ! n # drop (Suc n) m" by (simp add: Cons_nth_drop_Suc)
  with Suc show ?case by (simp add: list_update_append nth_append)
qed simp

definition mixes_at :: "cuda_globals \<Rightarrow> u32 list \<Rightarrow> uint4 list list \<Rightarrow> nat \<Rightarrow> uint4 list list \<Rightarrow> bool" where
  "mixes_at g s0s mixes k ms \<longleftrightarrow>
     length ms = 4 \<and>
     (\<forall>p < 4. length (ms ! p) = 8 \<and>
        mix_words (ms ! p) =
          fold (spec_mix_step (unat (d_dag_size g)) (dag_words g) (s0s ! p)) [0..<k] (mix_words (mixes ! p)))"

lemma mixes_at_step:
  assumes "wf_dag g" "length s0s = 4" "q < 16" "b < 4" "mixes_at g s0s mixes (4 * q + b) ms"
  shows "mixes_at g s0s mixes (4 * q + Suc b) (fold (\<lambda>p mixes.
    mixes[p := dag_access g (word_of_nat (4 * q)) (word_of_nat b) (map (replicate 8) s0s ! p) (mixes ! p)]) [0..<4] ms)"
proof -
  have l: "length ms = 4" "\<And>p. p < 4 \<Longrightarrow> length (ms ! p) = 8" using assms(5) by (simp_all add: mixes_at_def)
  have "fold (\<lambda>p mixes.
      mixes[p := dag_access g (word_of_nat (4 * q)) (word_of_nat b) (map (replicate 8) s0s ! p) (mixes ! p)]) [0..<4] ms =
    map (\<lambda>p. dag_access g (word_of_nat (4 * q)) (word_of_nat b) (map (replicate 8) s0s ! p) (ms ! p)) [0..<4]"
    using fold_updates [of 4 ms "\<lambda>p. dag_access g (word_of_nat (4 * q)) (word_of_nat b) (map (replicate 8) s0s ! p)"] l(1)
    by simp
  then show ?thesis
    using assms(2,5) l dag_access_words [OF assms(1) l(2) assms(3,4)] by (simp add: mixes_at_def)
qed

lemma dag_accesses_words:
  assumes "wf_dag g" "length s0s = 4" "length mixes = 4" "\<forall>p < 4. length (mixes ! p) = 8"
  shows "mixes_at g s0s mixes 64 (dag_accesses g (map (replicate 8) s0s) mixes)"
proof -
  let ?f = "\<lambda>q b. fold (\<lambda>p mixes.
      mixes[p := dag_access g (word_of_nat (4 * q)) (word_of_nat b) (map (replicate 8) s0s ! p) (mixes ! p)]) [0..<4]"
  have "mixes_at g s0s mixes (4 * Suc q) (fold (?f q) [0..<4] ms)" if "q < 16" "mixes_at g s0s mixes (4 * q) ms" for q ms
    using fold_upt_invariant [of "\<lambda>b. mixes_at g s0s mixes (4 * q + b)" ms 4 "?f q"] that
      mixes_at_step [OF assms(1,2) that(1), of _ mixes] by (simp add: add.commute)
  then have "mixes_at g s0s mixes (4 * 16) (fold (\<lambda>q. fold (?f q) [0..<4]) [0..<16] mixes)"
    using fold_upt_invariant [of "\<lambda>q. mixes_at g s0s mixes (4 * q)" mixes 16] assms(3,4)
    by (simp add: mixes_at_def [of _ _ _ 0])
  moreover have "dag_accesses g (map (replicate 8) s0s) mixes = fold (\<lambda>q. fold (?f q) [0..<4]) [0..<16] mixes"
    by (simp add: dag_accesses_def PARALLEL_HASH_def ACCESSES_def fold_map comp_def)
  ultimately show ?thesis by simp
qed

text \<open>The state of a thread that has the first digest of its nonce, and one that has the mix as well.\<close>

definition header_bytes :: "cuda_globals \<Rightarrow> u8 list" where
  "header_bytes g = of_word32s Little_Endian (mix_words (d_header g))"

definition seeded :: "cuda_globals \<Rightarrow> u64 \<Rightarrow> uint2 list \<Rightarrow> bool" where
  "seeded g nonce s \<longleftrightarrow>
     length s = 12 \<and>
     of_word32s Little_Endian (concat (map words2 (take 8 s))) = spec_seed_hash (header_bytes g) nonce"

definition hashed :: "cuda_globals \<Rightarrow> u64 \<Rightarrow> uint2 list \<Rightarrow> bool" where
  "hashed g nonce s \<longleftrightarrow>
     seeded g nonce s \<and>
     of_word32s Little_Endian (concat (map words2 (drop 8 s))) =
       spec_mix_hash (unat (d_dag_size g)) (dag_words g) (spec_seed_hash (header_bytes g) nonce)"

lemma words2_nth_0: "0 < length s \<Longrightarrow> concat (map words2 s) ! 0 = ux (s ! 0)"
  by (cases s) (simp_all add: words2_def)

lemma share_init_seed:
  assumes "length states = 8" "src < 8" "seeded g nonce (states ! src)"
  shows "mix_words (fst (share_init states src)) =
      word32s Little_Endian (spec_seed_hash (header_bytes g) nonce) @ word32s Little_Endian (spec_seed_hash (header_bytes g) nonce)"
    and "snd (share_init states src) = replicate 8 (word32s Little_Endian (spec_seed_hash (header_bytes g) nonce) ! 0)"
    and "length (fst (share_init states src)) = 8"
proof -
  have l: "length (states ! src) = 12" using assms(3) by (simp add: seeded_def)
  have w: "word32s Little_Endian (spec_seed_hash (header_bytes g) nonce) = concat (map words2 (take 8 (states ! src)))"
    using assms(3) word32s_of_word32s by (metis seeded_def)
  note i = share_init_words [OF assms(1,2) l]
  show "mix_words (fst (share_init states src)) =
      word32s Little_Endian (spec_seed_hash (header_bytes g) nonce) @ word32s Little_Endian (spec_seed_hash (header_bytes g) nonce)"
    by (simp add: i(1) w)
  show "snd (share_init states src) = replicate 8 (word32s Little_Endian (spec_seed_hash (header_bytes g) nonce) ! 0)"
    using words2_nth_0 [of "take 8 (states ! src)"] l by (simp add: i(2) w)
  show "length (fst (share_init states src)) = 8" by (rule i(3))
qed

lemma drop_updates:
  assumes "length s = 12"
  shows "drop 8 (s[8 := a, 9 := b, 10 := c, 11 := d]) = [a, b, c, d]"
proof -
  have "length (drop 8 s) = Suc (Suc (Suc (Suc 0)))" using assms by simp
  then obtain w x y z where "drop 8 s = [w, x, y, z]" by (auto simp: length_Suc_conv simp del: length_drop)
  then show ?thesis by (simp add: drop_update_swap)
qed

lemma move_mix_thread:
  assumes "length mix = 8" "length states = 8" "k < 8"
  shows "length (move_mix dest mix states) = 8"
    and "k \<noteq> dest \<Longrightarrow> move_mix dest mix states ! k = states ! k"
    and "length (states ! k) = 12 \<Longrightarrow> take 8 (move_mix dest mix states ! k) = take 8 (states ! k)"
    and "length (states ! k) = 12 \<Longrightarrow> length (move_mix dest mix states ! k) = 12"
    and "length (states ! k) = 12 \<Longrightarrow> k = dest \<Longrightarrow>
      concat (map words2 (drop 8 (move_mix dest mix states ! k))) = spec_compress (mix_words mix)"
proof -
  show "length (move_mix dest mix states) = 8" "k \<noteq> dest \<Longrightarrow> move_mix dest mix states ! k = states ! k"
    "length (states ! k) = 12 \<Longrightarrow> take 8 (move_mix dest mix states ! k) = take 8 (states ! k)"
    "length (states ! k) = 12 \<Longrightarrow> length (move_mix dest mix states ! k) = 12"
    using assms(3) by (simp_all add: move_mix_def Let_def THREADS_PER_HASH_def)
  have upt_4: "[0..<4] = [0, 1, 2, 3]" by (simp add: upt_rec)
  assume l: "length (states ! k) = 12" and "k = dest"
  then have "drop 8 (move_mix dest mix states ! k) =
      map (\<lambda>j. Uint2 (SHFL (map fnv_reduce mix) (2 * j)) (SHFL (map fnv_reduce mix) (2 * j + 1))) [0..<4]"
    using assms(3) by (simp add: move_mix_def Let_def THREADS_PER_HASH_def upt_4 drop_updates)
  moreover have "map fnv_reduce mix = map (\<lambda>i. fnv_reduce (mix ! i)) [0..<8]"
    using assms(1) by (intro nth_equalityI) simp_all
  ultimately show "concat (map words2 (drop 8 (move_mix dest mix states ! k))) = spec_compress (mix_words mix)"
    unfolding spec_compress_words upt_4 upt_8 by (simp add: words2_def SHFL_def)
qed

text \<open>The threads below \<open>i\<close> have their mix.\<close>

definition group_state :: "cuda_globals \<Rightarrow> u64 list \<Rightarrow> nat \<Rightarrow> uint2 list list \<Rightarrow> bool" where
  "group_state g nonces i states \<longleftrightarrow>
     length states = 8 \<and>
     (\<forall>k < 8. seeded g (nonces ! k) (states ! k) \<and> (k < i \<longrightarrow> hashed g (nonces ! k) (states ! k)))"

lemma move_mix_state:
  assumes st: "group_state g nonces i states" and "i < 8" "length mix = 8"
    and "of_word32s Little_Endian (spec_compress (mix_words mix)) =
      spec_mix_hash (unat (d_dag_size g)) (dag_words g) (spec_seed_hash (header_bytes g) (nonces ! i))"
  shows "group_state g nonces (Suc i) (move_mix i mix states)"
  unfolding group_state_def
proof (intro conjI allI impI)
  have l: "length states = 8" using st by (simp add: group_state_def)
  show "length (move_mix i mix states) = 8" by (rule move_mix_thread(1) [OF assms(3) l \<open>i < 8\<close>])
  fix k :: nat assume k: "k < 8"
  then have s: "seeded g (nonces ! k) (states ! k)" using st by (simp add: group_state_def)
  then have l12: "length (states ! k) = 12" by (simp add: seeded_def)
  note m = move_mix_thread(2-5) [OF assms(3) l k, of i]
  show s': "seeded g (nonces ! k) (move_mix i mix states ! k)" using s m(2,3) l12 by (simp add: seeded_def)
  assume "k < Suc i"
  then consider "k < i" | "k = i" by linarith
  then show "hashed g (nonces ! k) (move_mix i mix states ! k)"
  proof cases
    case 1
    then show ?thesis using m(1) st k by (simp add: group_state_def)
  next
    case 2
    then show ?thesis using m(4) [OF l12] s' assms(4) by (simp add: hashed_def)
  qed
qed

lemma hash_round_state:
  assumes st: "group_state g nonces i states" and "i + 4 \<le> 8" and wf: "wf_dag g"
  shows "group_state g nonces (i + 4) (hash_round g i states)"
proof -
  let ?seed = "\<lambda>p. spec_seed_hash (header_bytes g) (nonces ! (i + p))"
  let ?shared = "map (\<lambda>p. share_init states (i + p)) [0..<4]"
  let ?s0s = "map (\<lambda>p. word32s Little_Endian (?seed p) ! 0) [0..<4]"
  let ?mixes = "dag_accesses g (map snd ?shared) (map fst ?shared)"
  have sh: "mix_words (fst (share_init states (i + p))) = word32s Little_Endian (?seed p) @ word32s Little_Endian (?seed p)"
    "snd (share_init states (i + p)) = replicate 8 (word32s Little_Endian (?seed p) ! 0)"
    "length (fst (share_init states (i + p))) = 8" if "p < 4" for p
    using share_init_seed [of states "i + p" g "nonces ! (i + p)"] st that assms(2) by (simp_all add: group_state_def)
  have e: "map snd ?shared = map (replicate 8) ?s0s" using sh(2) by simp
  have mixes: "mixes_at g ?s0s (map fst ?shared) 64 ?mixes"
    unfolding e by (rule dag_accesses_words [OF wf]) (use sh(3) in simp_all)
  have m: "length (?mixes ! p) = 8" "of_word32s Little_Endian (spec_compress (mix_words (?mixes ! p))) =
      spec_mix_hash (unat (d_dag_size g)) (dag_words g) (?seed p)" if "p < 4" for p
    using mixes that sh(1) by (simp_all add: mixes_at_def spec_mix_hash_def Let_def)
  have "group_state g nonces (i + 4) (fold (\<lambda>p. move_mix (i + p) (?mixes ! p)) [0..<4] states)"
    by (rule fold_upt_invariant [where P = "\<lambda>p. group_state g nonces (i + p)"])
      (use st assms(2) m move_mix_state in \<open>simp_all\<close>)
  then show ?thesis by (simp add: hash_round_def Let_def PARALLEL_HASH_def)
qed

lemma init_group_state:
  assumes "length nonces = 8" "length (d_header g) = 2"
  shows "group_state g nonces 0 (map (keccak_f1600_init T (d_header g))
    (map (\<lambda>nonce. (replicate 12 (Uint2 0 0))[4 := vectorize nonce]) nonces))"
proof -
  have "seeded g nonce (keccak_f1600_init T (d_header g) ((replicate 12 (Uint2 0 0))[4 := vectorize nonce]))" for nonce
    using keccak_f1600_init_digest [OF assms(2), of "(replicate 12 (Uint2 0 0))[4 := vectorize nonce]" nonce T]
    by (simp add: seeded_def spec_seed_hash_def header_bytes_def mix_words_def keccak_f1600_init_lanes(1))
  then show ?thesis using assms(1) by (simp add: group_state_def)
qed

lemma compute_hash_group:
  assumes "wf_dag g" "length (d_header g) = 2" "length nonces = 8" "k < 8"
  shows "compute_hash T g nonces ! k \<longleftrightarrow>
    d_target g < bswap64 (le_join (take 8
      (fst (spec_hashimoto (unat (d_dag_size g)) (dag_words g) (header_bytes g) (nonces ! k)))))"
proof -
  let ?states = "map (keccak_f1600_init T (d_header g))
    (map (\<lambda>nonce. (replicate 12 (Uint2 0 0))[4 := vectorize nonce]) nonces)"
  let ?s = "hash_round g 4 (hash_round g 0 ?states)"
  have "group_state g nonces 8 ?s"
    using hash_round_state [OF hash_round_state [OF init_group_state [OF assms(3,2), of T] _ assms(1)] _ assms(1)] by simp
  then have l: "length ?s = 8" and h: "hashed g (nonces ! k) (?s ! k)" using assms(4) by (simp_all add: group_state_def)
  let ?seed = "spec_seed_hash (header_bytes g) (nonces ! k)"
  have "concat (map words2 (?s ! k)) = concat (map words2 (take 8 (?s ! k))) @ concat (map words2 (drop 8 (?s ! k)))"
    by (simp flip: concat_append map_append)
  then have "of_word32s Little_Endian (concat (map words2 (?s ! k))) =
      ?seed @ spec_mix_hash (unat (d_dag_size g)) (dag_words g) ?seed"
    using h by (simp add: hashed_def seeded_def of_word32s_append)
  moreover have "length (?s ! k) = 12" using h by (simp add: hashed_def seeded_def)
  ultimately have "le_split 8 (keccak_f1600_final T (?s ! k)) =
      take 8 (fst (spec_hashimoto (unat (d_dag_size g)) (dag_words g) (header_bytes g) (nonces ! k)))"
    using keccak_f1600_final_digest [of "?s ! k" T] by (simp add: spec_hashimoto_def Let_def)
  then have "keccak_f1600_final T (?s ! k) =
      le_join (take 8 (fst (spec_hashimoto (unat (d_dag_size g)) (dag_words g) (header_bytes g) (nonces ! k))))"
    by (metis le_join_split_64)
  moreover have "compute_hash T g nonces = map (\<lambda>state. cuda_swab64 (keccak_f1600_final T state) > d_target g) ?s"
    by (simp add: compute_hash_def Let_def PARALLEL_HASH_def THREADS_PER_HASH_def numeral_2_eq_2)
  ultimately show ?thesis using l assms(4) by (simp add: cuda_swab64_bswap)
qed

end
