(* ===== verification/Cuda_Dag.thy ===== *)
theory Cuda_Dag
  imports Cuda_Dagger
begin

text \<open>
  The generation of the dataset on a CUDA device, from \<^verbatim>\<open>libcuda/ethash_cuda_miner_kernel.cu\<close>: the kernel
  \<open>ethash_calculate_dag_item\<close>, in which four threads fetch the parents of their four nodes together, and the
  loop of the host that starts it. The theory shows that the nodes of the dataset become the items of the
  Ethash specification, and which memory is written.
\<close>

section \<open>The C++ routines\<close>

text \<open>
  The union of a node and the 25 pairs of Keccak: the 16 words of the node are the first eight pairs. The
  rest is not initialised before \<open>SHA3_512\<close> sets it.
\<close>

definition node_words :: "uint2 list \<Rightarrow> u32 list" where
  "node_words buf = concat (map words2 (take 8 buf))"

definition get_uint4 :: "uint2 list \<Rightarrow> nat \<Rightarrow> uint4" where
  "get_uint4 buf w = vectorize2 (buf ! (2 * w)) (buf ! (2 * w + 1))"

definition set_uint4 :: "uint2 list \<Rightarrow> nat \<Rightarrow> uint4 \<Rightarrow> uint2 list" where
  "set_uint4 buf w v = (case devectorize2 v of (a, b) \<Rightarrow> buf[2 * w := a, 2 * w + 1 := b])"

definition SHFL4 :: "uint4 list \<Rightarrow> nat \<Rightarrow> uint4" where
  "SHFL4 vs src = Uint4 (SHFL (map x4 vs) src) (SHFL (map y4 vs) src) (SHFL (map z4 vs) src) (SHFL (map w4 vs) src)"

definition ETHASH_DATASET_PARENTS :: nat where "ETHASH_DATASET_PARENTS = 256"
definition NODE_WORDS :: nat where "NODE_WORDS = 16"

definition node_init :: "cuda_target \<Rightarrow> cuda_globals \<Rightarrow> u32 \<Rightarrow> uint2 list" where
  "node_init T g node_index =
     (let src = d_light g ! unat (node_index mod d_light_size g);
          buf = fold (\<lambda>i buf. set_uint4 buf i (src ! i)) [0..<4] (replicate 25 (Uint2 0 0));
          buf = buf[0 := Uint2 (ux (buf ! 0) XOR node_index) (uy (buf ! 0))]
      in SHA3_512 T buf)"

text \<open>One parent of each of the four nodes.\<close>

definition parent_round :: "cuda_globals \<Rightarrow> u32 list \<Rightarrow> nat \<Rightarrow> uint2 list list \<Rightarrow> uint2 list list" where
  "parent_round g nodes i bufs =
     (let parent_index = map (\<lambda>thread. fnv (nodes ! thread XOR word_of_nat i)
              (node_words (bufs ! thread) ! (i mod NODE_WORDS)) mod d_light_size g) [0..<4]
      in fold (\<lambda>t bufs.
           let shuffle_index = SHFL parent_index t;
               p4 = map (\<lambda>thread_id. d_light g ! unat shuffle_index ! thread_id) [0..<4]
           in fold (\<lambda>w bufs.
                map (\<lambda>thread_id.
                  let buf = bufs ! thread_id; s4 = SHFL4 p4 w
                  in if t = thread_id then set_uint4 buf w (fnv4 (get_uint4 buf w) s4) else buf) [0..<4])
                [0..<4] bufs) [0..<4] bufs)"

definition dag_group :: "cuda_target \<Rightarrow> cuda_globals \<Rightarrow> u32 list \<Rightarrow> uint4 list list" where
  "dag_group T g nodes =
     (let bufs = map (node_init T g) nodes;
          bufs = fold (parent_round g nodes) [0..<ETHASH_DATASET_PARENTS] bufs;
          bufs = map (SHA3_512 T) bufs
      in map (\<lambda>buf. map (get_uint4 buf) [0..<4]) bufs)"

definition node_returns :: "cuda_globals \<Rightarrow> u32 \<Rightarrow> bool" where
  "node_returns g node_index \<longleftrightarrow> (drop_bit 1 node_index AND NOT 1) \<ge> d_dag_size g"

text \<open>
  The kernel for four consecutive threads: the nodes that they write. A value of a thread that has returned
  must not be fetched, so there is no result if only some of the four return.
\<close>

definition ethash_calculate_dag_item ::
    "cuda_target \<Rightarrow> cuda_globals \<Rightarrow> u32 \<Rightarrow> nat \<Rightarrow> (nat \<rightharpoonup> uint4 list) \<Rightarrow> (nat \<rightharpoonup> uint4 list) option" where
  "ethash_calculate_dag_item T g start q dag =
     (let nodes = map (\<lambda>j. start + word_of_nat (4 * q + j)) [0..<4]
      in if list_all (node_returns g) nodes then Some dag
         else if list_ex (node_returns g) nodes then None
         else Some (fold (\<lambda>(node, item) dag. dag(unat node \<mapsto> item)) (zip nodes (dag_group T g nodes)) dag))"

text \<open>The threads of a launch, four by four; a block has to consist of such groups.\<close>

definition dag_kernel ::
    "cuda_target \<Rightarrow> cuda_globals \<Rightarrow> u32 \<Rightarrow> u32 \<Rightarrow> u32 \<Rightarrow> (nat \<rightharpoonup> uint4 list) \<Rightarrow> (nat \<rightharpoonup> uint4 list) option" where
  "dag_kernel T g gridSize blockSize start dag =
     (if unat blockSize mod 4 \<noteq> 0 then None
      else fold (\<lambda>q dag. Option.bind dag (ethash_calculate_dag_item T g start q))
             [0..<unat gridSize * unat blockSize div 4] (Some dag))"

text \<open>The full launches; the fuel bounds their number.\<close>

fun full_launches ::
    "nat \<Rightarrow> (u32 \<Rightarrow> (nat \<rightharpoonup> uint4 list) \<Rightarrow> (nat \<rightharpoonup> uint4 list) option) \<Rightarrow> u32 \<Rightarrow> u32 \<Rightarrow> u32 \<Rightarrow> (nat \<rightharpoonup> uint4 list) \<Rightarrow>
     (u32 \<times> (nat \<rightharpoonup> uint4 list)) option" where
  "full_launches fuel launch work run base dag =
     (if \<not> base \<le> work - run then Some (base, dag)
      else case fuel of 0 \<Rightarrow> None
        | Suc fuel \<Rightarrow> Option.bind (launch base dag) (full_launches fuel launch work run (base + run)))"

definition ethash_generate_dag ::
    "nat \<Rightarrow> cuda_target \<Rightarrow> cuda_globals \<Rightarrow> u64 \<Rightarrow> u32 \<Rightarrow> u32 \<Rightarrow> (nat \<rightharpoonup> uint4 list) option" where
  "ethash_generate_dag fuel T g dag_size gridSize blockSize =
     (let work = (ucast (dag_size div 64) :: u32); run = gridSize * blockSize
      in Option.bind (full_launches fuel (dag_kernel T g gridSize blockSize) work run 0 Map.empty) (\<lambda>(base, dag).
           if base < work then dag_kernel T g ((work - base + blockSize - 1) div blockSize) blockSize base dag
           else Some dag))"

section \<open>The items of a group\<close>

definition wf_light :: "cuda_globals \<Rightarrow> bool" where
  "wf_light g \<longleftrightarrow>
     0 < d_light_size g \<and> unat (d_light_size g) = length (d_light g) \<and> (\<forall>item \<in> set (d_light g). length item = 4)"

definition light_words :: "cuda_globals \<Rightarrow> u32 list list" where
  "light_words g = map mix_words (d_light g)"

text \<open>A buffer as its first eight pairs and the rest.\<close>

lemma buffer_cases:
  assumes "length buf = 25"
  obtains b0 b1 b2 b3 b4 b5 b6 b7 r where "buf = [b0, b1, b2, b3, b4, b5, b6, b7] @ r" "length r = 17"
proof -
  have t: "take 8 buf = map ((!) buf) [0..<8]" using assms by (intro nth_equalityI) simp_all
  have "buf = take 8 buf @ drop 8 buf" by simp
  then have "buf = [buf ! 0, buf ! 1, buf ! 2, buf ! 3, buf ! 4, buf ! 5, buf ! 6, buf ! 7] @ drop 8 buf"
    unfolding t upt_8 by simp
  then show thesis by (rule that) (simp add: assms)
qed

lemma upt_4: "[0..<4] = [0, 1, 2, 3]"
  by (simp add: upt_rec)

lemma mix_words_4: "length v = 4 \<Longrightarrow> mix_words v = words4 (v ! 0) @ words4 (v ! 1) @ words4 (v ! 2) @ words4 (v ! 3)"
proof -
  assume "length v = 4"
  then have "v = map ((!) v) [0..<4]" by (intro nth_equalityI) simp_all
  then have "mix_words v = mix_words (map ((!) v) [0..<4])" by simp
  then show ?thesis by (simp add: upt_4 mix_words_def)
qed

lemma copy_words:
  assumes "length buf = 25" "length src = 4"
  shows "length (fold (\<lambda>i buf. set_uint4 buf i (src ! i)) [0..<4] buf) = 25"
    and "node_words (fold (\<lambda>i buf. set_uint4 buf i (src ! i)) [0..<4] buf) = mix_words src"
proof -
  obtain b0 b1 b2 b3 b4 b5 b6 b7 r where b: "buf = [b0, b1, b2, b3, b4, b5, b6, b7] @ r" "length r = 17"
    using assms(1) by (rule buffer_cases)
  show "length (fold (\<lambda>i buf. set_uint4 buf i (src ! i)) [0..<4] buf) = 25"
    by (simp add: upt_4 b set_uint4_def devectorize2_def)
  show "node_words (fold (\<lambda>i buf. set_uint4 buf i (src ! i)) [0..<4] buf) = mix_words src"
    by (simp add: upt_4 b set_uint4_def devectorize2_def node_words_def words2_def words4_def mix_words_4 [OF assms(2)])
qed

lemma mix_thread:
  assumes "length buf = 25" "length item = 4"
  shows "length (fold (\<lambda>w buf. set_uint4 buf w (fnv4 (get_uint4 buf w) (item ! w))) [0..<4] buf) = 25"
    and "node_words (fold (\<lambda>w buf. set_uint4 buf w (fnv4 (get_uint4 buf w) (item ! w))) [0..<4] buf) =
      map2 fnv1 (node_words buf) (mix_words item)"
proof -
  obtain b0 b1 b2 b3 b4 b5 b6 b7 r where b: "buf = [b0, b1, b2, b3, b4, b5, b6, b7] @ r" "length r = 17"
    using assms(1) by (rule buffer_cases)
  show "length (fold (\<lambda>w buf. set_uint4 buf w (fnv4 (get_uint4 buf w) (item ! w))) [0..<4] buf) = 25"
    by (simp add: upt_4 b set_uint4_def devectorize2_def)
  show "node_words (fold (\<lambda>w buf. set_uint4 buf w (fnv4 (get_uint4 buf w) (item ! w))) [0..<4] buf) =
      map2 fnv1 (node_words buf) (mix_words item)"
    by (simp add: upt_4 b set_uint4_def get_uint4_def vectorize2_def devectorize2_def node_words_def words2_def words4_def
        mix_words_4 [OF assms(2)] fnv4_def fnv1_def FNV_PRIME_def fnv_prime_def)
qed

lemma SHFL4_nth: "w < length vs \<Longrightarrow> SHFL4 vs w = vs ! w"
  by (cases "vs ! w") (simp add: SHFL4_def SHFL_def)

text \<open>Of the four threads only one updates its node at a time.\<close>

lemma fold_thread:
  assumes "length bufs = 4" "t < 4"
  shows "fold (\<lambda>w bufs. map (\<lambda>thread_id. if t = thread_id then f w (bufs ! thread_id) else bufs ! thread_id) [0..<4]) ws bufs =
    bufs[t := fold f ws (bufs ! t)]"
  using assms
proof (induction ws arbitrary: bufs)
  case (Cons w ws)
  have "map (\<lambda>thread_id. if t = thread_id then f w (bufs ! thread_id) else bufs ! thread_id) [0..<4] = bufs[t := f w (bufs ! t)]"
    using Cons.prems by (intro nth_equalityI) (simp_all add: nth_list_update)
  then show ?case using Cons by simp
qed simp

lemma fold_cong_invariant:
  assumes "P x" and "\<And>i x. i \<in> set is \<Longrightarrow> P x \<Longrightarrow> f i x = g i x \<and> P (g i x)"
  shows "fold f is x = fold g is x"
  using assms by (induction "is" arbitrary: x) auto

lemma parent_round_thread:
  assumes wf: "wf_light g" and "length bufs = 4" "k < 4" "length (bufs ! k) = 25" "length nodes = 4"
  shows "length (parent_round g nodes i bufs) = 4" "length (parent_round g nodes i bufs ! k) = 25"
    and "node_words (parent_round g nodes i bufs ! k) =
      spec_dataset_parent (light_words g) (unat (nodes ! k)) i (node_words (bufs ! k))"
proof -
  let ?p = "\<lambda>t. unat (fnv (nodes ! t XOR word_of_nat i) (node_words (bufs ! t) ! (i mod 16)) mod d_light_size g)"
  let ?f = "\<lambda>t. fold (\<lambda>w buf. set_uint4 buf w (fnv4 (get_uint4 buf w) (d_light g ! ?p t ! w))) [0..<4]"
  have n: "?p t < length (d_light g)" for t
    using wf by (auto simp: wf_light_def unat_mod_distrib word_less_nat_alt)
  then have l: "length (d_light g ! ?p t) = 4" for t using wf by (simp add: wf_light_def)
  have step: "fold (\<lambda>w bufs. map (\<lambda>thread_id. let buf = bufs ! thread_id;
        s4 = SHFL4 (map (\<lambda>thread_id. d_light g ! ?p t ! thread_id) [0..<4]) w
      in if t = thread_id then set_uint4 buf w (fnv4 (get_uint4 buf w) s4) else buf) [0..<4]) [0..<4] bs = bs[t := ?f t (bs ! t)]"
    if "t < 4" "length bs = 4" for t bs
  proof -
    have "fold (\<lambda>w bufs. map (\<lambda>thread_id. let buf = bufs ! thread_id;
          s4 = SHFL4 (map (\<lambda>thread_id. d_light g ! ?p t ! thread_id) [0..<4]) w
        in if t = thread_id then set_uint4 buf w (fnv4 (get_uint4 buf w) s4) else buf) [0..<4]) [0..<4] bs =
      fold (\<lambda>w bufs. map (\<lambda>thread_id. if t = thread_id then set_uint4 (bufs ! thread_id) w
          (fnv4 (get_uint4 (bufs ! thread_id) w) (d_light g ! ?p t ! w)) else bufs ! thread_id) [0..<4]) [0..<4] bs"
      by (rule fold_cong) (auto simp: SHFL4_nth fun_eq_iff Let_def)
    then show ?thesis using fold_thread [OF that(2,1)] by simp
  qed
  have "parent_round g nodes i bufs = fold (\<lambda>t bufs. bufs[t := ?f t (bufs ! t)]) [0..<4] bufs"
    unfolding parent_round_def NODE_WORDS_def Let_def [of "map _ _"] Let_def [of "SHFL _ _"]
  proof (rule fold_cong_invariant [where P = "\<lambda>bs. length bs = 4"])
    fix t and bs :: "uint2 list list" assume "t \<in> set [0..<4]" and l: "length bs = 4"
    then have t: "t < 4" by simp
    have "SHFL (map (\<lambda>thread. fnv (nodes ! thread XOR word_of_nat i) (node_words (bufs ! thread) ! (i mod 16)) mod
        d_light_size g) [0..<4]) t = fnv (nodes ! t XOR word_of_nat i) (node_words (bufs ! t) ! (i mod 16)) mod d_light_size g"
      using t by (simp add: SHFL_def)
    note sh = this
    show "fold (\<lambda>w bufsa. map (\<lambda>thread_id. let buf = bufsa ! thread_id;
          s4 = SHFL4 (map (\<lambda>thread_id. d_light g ! unat (SHFL (map (\<lambda>thread. fnv (nodes ! thread XOR word_of_nat i)
            (node_words (bufs ! thread) ! (i mod 16)) mod d_light_size g) [0..<4]) t) ! thread_id) [0..<4]) w
        in if t = thread_id then set_uint4 buf w (fnv4 (get_uint4 buf w) s4) else buf) [0..<4]) [0..<4] bs =
      bs[t := ?f t (bs ! t)] \<and> length (bs[t := ?f t (bs ! t)]) = 4"
      unfolding sh using step [OF t l] l by simp
  qed (rule assms(2))
  also have "\<dots> = map (\<lambda>t. ?f t (bufs ! t)) [0..<4]"
    using fold_updates [of 4 bufs ?f] assms(2) by simp
  finally have r: "parent_round g nodes i bufs = map (\<lambda>t. ?f t (bufs ! t)) [0..<4]" .
  show "length (parent_round g nodes i bufs) = 4" by (simp add: r)
  show "length (parent_round g nodes i bufs ! k) = 25" using mix_thread(1) [OF assms(4) l] assms(3) by (simp add: r)
  show "node_words (parent_round g nodes i bufs ! k) =
      spec_dataset_parent (light_words g) (unat (nodes ! k)) i (node_words (bufs ! k))"
    using mix_thread(2) [OF assms(4) l] assms(3) n [of k] wf
    by (simp add: r spec_dataset_parent_def light_words_def fnv_fnv1 wf_light_def unat_mod_distrib)
qed

lemma SHA3_512_words:
  assumes "length buf = 25"
  shows "node_words (SHA3_512 T buf) = keccak512_words (node_words buf)"
  using SHA3_512_digest [of buf T] assms word32s_of_word32s [of Little_Endian "node_words (SHA3_512 T buf)"]
  by (simp add: node_words_def keccak512_words_def)

lemma node_words_update:
  assumes "length buf = 25"
  shows "node_words (buf[0 := Uint2 (ux (buf ! 0) XOR x) (uy (buf ! 0))]) = (node_words buf)[0 := node_words buf ! 0 XOR x]"
proof -
  obtain b0 b1 b2 b3 b4 b5 b6 b7 r where b: "buf = [b0, b1, b2, b3, b4, b5, b6, b7] @ r" using assms by (rule buffer_cases)
  show ?thesis by (simp add: b node_words_def words2_def)
qed

lemma node_init_words:
  assumes wf: "wf_light g"
  shows "length (node_init T g node) = 25"
    and "node_words (node_init T g node) =
      (let mix = light_words g ! (unat node mod length (light_words g))
       in keccak512_words (mix[0 := mix ! 0 XOR word_of_nat (unat node)]))"
proof -
  let ?src = "d_light g ! unat (node mod d_light_size g)"
  let ?b = "fold (\<lambda>i buf. set_uint4 buf i (?src ! i)) [0..<4] (replicate 25 (Uint2 0 0))"
  have k: "unat (node mod d_light_size g) = unat node mod length (d_light g)" "unat node mod length (d_light g) < length (d_light g)"
    using wf by (auto simp: wf_light_def unat_mod_distrib word_less_nat_alt)
  then have "length ?src = 4" using wf by (simp add: wf_light_def)
  note c = copy_words [OF length_replicate this, of "Uint2 0 0"]
  show "length (node_init T g node) = 25"
    unfolding node_init_def Let_def by (rule SHA3_512_lanes(1)) (simp add: c)
  show "node_words (node_init T g node) =
      (let mix = light_words g ! (unat node mod length (light_words g))
       in keccak512_words (mix[0 := mix ! 0 XOR word_of_nat (unat node)]))"
    unfolding node_init_def Let_def
    using c k by (simp add: SHA3_512_words node_words_update light_words_def)
qed

lemma words4_get_uint4:
  assumes "length buf = 25"
  shows "mix_words (map (get_uint4 buf) [0..<4]) = node_words buf"
proof -
  obtain b0 b1 b2 b3 b4 b5 b6 b7 r where b: "buf = [b0, b1, b2, b3, b4, b5, b6, b7] @ r" using assms by (rule buffer_cases)
  show ?thesis by (simp add: upt_4 b mix_words_def get_uint4_def vectorize2_def node_words_def words2_def words4_def)
qed

lemma dag_group_item:
  assumes wf: "wf_light g" and "length nodes = 4" "k < 4"
  shows "length (dag_group T g nodes) = 4" "length (dag_group T g nodes ! k) = 4"
    and "mix_words (dag_group T g nodes ! k) = spec_dataset_item (light_words g) (unat (nodes ! k))"
proof -
  let ?b = "map (node_init T g) nodes"
  let ?P = "\<lambda>i bufs. length bufs = 4 \<and> (\<forall>k < 4. length (bufs ! k) = 25 \<and>
    node_words (bufs ! k) = fold (spec_dataset_parent (light_words g) (unat (nodes ! k))) [0..<i] (node_words (?b ! k)))"
  have P: "?P 256 (fold (parent_round g nodes) [0..<256] ?b)"
    by (rule fold_upt_invariant [where P = ?P])
      (use assms(2) node_init_words(1) [OF wf] parent_round_thread(1) [OF wf _ _ _ assms(2), of _ 0]
        parent_round_thread(2,3) [OF wf _ _ _ assms(2)] in auto)
  then have l: "length (fold (parent_round g nodes) [0..<256] ?b ! k) = 25" using assms(3) by blast
  have d: "dag_group T g nodes =
      map (\<lambda>buf. map (get_uint4 buf) [0..<4]) (map (SHA3_512 T) (fold (parent_round g nodes) [0..<256] ?b))"
    by (simp add: dag_group_def Let_def ETHASH_DATASET_PARENTS_def)
  show "length (dag_group T g nodes) = 4" "length (dag_group T g nodes ! k) = 4" using P assms(3) by (simp_all add: d)
  have "mix_words (dag_group T g nodes ! k) = node_words (SHA3_512 T (fold (parent_round g nodes) [0..<256] ?b ! k))"
    using P assms(3) words4_get_uint4 [OF SHA3_512_lanes(1)] l by (simp add: d)
  also have "\<dots> = keccak512_words (fold (spec_dataset_parent (light_words g) (unat (nodes ! k))) [0..<256] (node_words (?b ! k)))"
    using P assms(3) SHA3_512_words [OF l] by simp
  finally show "mix_words (dag_group T g nodes ! k) = spec_dataset_item (light_words g) (unat (nodes ! k))"
    using node_init_words(2) [OF wf, of T "nodes ! k"] assms(2,3) by (simp add: spec_dataset_item_def Let_def)
qed

section \<open>The nodes that are written\<close>

text \<open>The kernel computes the nodes below this number: groups of four up to the one with the last node.\<close>

definition node_limit :: "cuda_globals \<Rightarrow> nat" where
  "node_limit g = 4 * ((unat (d_dag_size g) + 1) div 2)"

definition filled :: "cuda_globals \<Rightarrow> nat \<Rightarrow> (nat \<rightharpoonup> uint4 list) \<Rightarrow> bool" where
  "filled g n dag \<longleftrightarrow>
     dom dag = {k. k < n \<and> k < node_limit g} \<and>
     (\<forall>k v. dag k = Some v \<longrightarrow> length v = 4 \<and> mix_words v = spec_dataset_item (light_words g) k)"

lemma unat_clear_low: "unat (drop_bit 1 (w :: u32) AND NOT 1) = 2 * (unat w div 4)"
proof -
  have "drop_bit 1 w AND NOT 1 = 2 * drop_bit 2 w"
    by (rule bit_word_eqI) (auto simp: bit_simps bit_1_iff bit_double_iff)
  moreover have "unat (drop_bit 2 w) = unat w div 4"
    by (subst unat_drop_bit_eq) (simp add: drop_bit_eq_div)
  moreover have "2 * (unat w div 4) < 2 ^ 32" using unat_u32_less [of w] by simp
  ultimately show ?thesis by (simp add: unat_word_ariths)
qed

lemma node_returns_iff: "node_returns g w \<longleftrightarrow> node_limit g \<le> 4 * (unat w div 4)"
proof -
  have "d \<le> 2 * m \<longleftrightarrow> 4 * ((d + 1) div 2) \<le> 4 * m" for d m :: nat by presburger
  then show ?thesis unfolding node_returns_def word_le_nat_alt unat_clear_low node_limit_def .
qed

lemma dag_item_filled:
  assumes wf: "wf_light g" and dag: "filled g (4 * m) dag" and "4 * m + 4 \<le> 2 ^ 32"
    and "start + word_of_nat (4 * q) = word_of_nat (4 * m)"
  shows "\<exists>dag'. ethash_calculate_dag_item T g start q dag = Some dag' \<and> filled g (4 * m + 4) dag'"
proof -
  let ?nodes = "map (\<lambda>j. start + word_of_nat (4 * q + j)) [0..<4]"
  have n: "?nodes = map (\<lambda>j. word_of_nat (4 * m + j)) [0..<4]"
    using assms(4) by (simp add: add.assoc [symmetric])
  have u: "unat (word_of_nat (4 * m + j) :: u32) = 4 * m + j" if "j < 4" for j
    using that assms(3) by (intro unat_of_nat_u32) simp
  have d: "(4 * m + j) div 4 = m" if "j < 4" for j using that by simp
  have r: "node_returns g (?nodes ! j) \<longleftrightarrow> node_limit g \<le> 4 * m" if "j < 4" for j
    unfolding n node_returns_iff using that u [OF that] d [OF that] by simp
  show ?thesis
  proof (cases "node_limit g \<le> 4 * m")
    case True
    then have "list_all (node_returns g) ?nodes" using r by (simp add: list_all_length)
    moreover have "filled g (4 * m + 4) dag" using dag True by (auto simp: filled_def)
    ultimately show ?thesis by (auto simp: ethash_calculate_dag_item_def Let_def)
  next
    case False
    then have "\<not> list_all (node_returns g) ?nodes" "\<not> list_ex (node_returns g) ?nodes"
      using r r [of 0] by (auto simp: list_all_length list_ex_length intro!: exI [of _ 0])
    then have e: "ethash_calculate_dag_item T g start q dag =
        Some (fold (\<lambda>(node, item) dag. dag(unat node \<mapsto> item)) (zip ?nodes (dag_group T g ?nodes)) dag)"
      by (simp add: ethash_calculate_dag_item_def Let_def)
    have l: "length (dag_group T g ?nodes) = 4" by (rule dag_group_item(1) [OF wf, of _ 0]) simp_all
    let ?v = "\<lambda>j. dag_group T g ?nodes ! j"
    have v: "length (?v j) = 4 \<and> mix_words (?v j) = spec_dataset_item (light_words g) (4 * m + j)" if "j < 4" for j
    proof
      show "length (?v j) = 4" by (rule dag_group_item(2) [OF wf _ that]) simp
      have "unat (?nodes ! j) = 4 * m + j" unfolding n using that u [OF that] by simp
      moreover have "mix_words (?v j) = spec_dataset_item (light_words g) (unat (?nodes ! j))"
        by (rule dag_group_item(3) [OF wf _ that]) simp
      ultimately show "mix_words (?v j) = spec_dataset_item (light_words g) (4 * m + j)" by (simp only:)
    qed
    have "zip ?nodes (dag_group T g ?nodes) = map (\<lambda>j. (word_of_nat (4 * m + j), ?v j)) [0..<4]"
      unfolding n using l [unfolded n] by (intro nth_equalityI) simp_all
    moreover have "fold (\<lambda>(node, item) dag. dag(unat node \<mapsto> item))
          (map (\<lambda>j. (word_of_nat (4 * m + j) :: u32, f j)) [0..<4]) dag =
        dag(4 * m \<mapsto> f 0, 4 * m + 1 \<mapsto> f 1, 4 * m + 2 \<mapsto> f 2, 4 * m + 3 \<mapsto> f 3)" for f :: "nat \<Rightarrow> uint4 list"
    proof -
      have "unat (word_of_nat (4 * m + 0) :: u32) = 4 * m + 0" "unat (word_of_nat (4 * m + 1) :: u32) = 4 * m + 1"
        "unat (word_of_nat (4 * m + 2) :: u32) = 4 * m + 2" "unat (word_of_nat (4 * m + 3) :: u32) = 4 * m + 3"
        by (rule u; simp)+
      then show ?thesis unfolding upt_4 by (simp only: list.map fold_simps prod.case add_0_right)
    qed
    moreover have "filled g (4 * m + 4) (dag(4 * m \<mapsto> ?v 0, 4 * m + 1 \<mapsto> ?v 1, 4 * m + 2 \<mapsto> ?v 2, 4 * m + 3 \<mapsto> ?v 3))"
    proof -
      have lim: "4 * m + 4 \<le> node_limit g" using False by (simp add: node_limit_def)
      have "insert (4 * m + 3) (insert (4 * m + 2) (insert (4 * m + 1) (insert (4 * m) {k. k < 4 * m \<and> k < node_limit g}))) =
          {k. k < 4 * m + 4 \<and> k < node_limit g}"
        using lim by auto
      moreover have "dom dag = {k. k < 4 * m \<and> k < node_limit g}"
        "\<And>k v. dag k = Some v \<Longrightarrow> length v = 4 \<and> mix_words v = spec_dataset_item (light_words g) k"
        using dag by (auto simp: filled_def)
      ultimately show ?thesis
        using v [of 0] v [of 1] v [of 2] v [of 3] by (simp add: filled_def)
    qed
    ultimately show ?thesis unfolding e by (simp only: option.inject ex_simps simp_thms)
  qed
qed

lemma dag_kernel_filled:
  assumes wf: "wf_light g" and dag: "filled g n dag" and "n mod 4 = 0" "unat block mod 4 = 0"
    and "n + unat grid * unat block \<le> 2 ^ 32"
  shows "\<exists>dag'. dag_kernel T g grid block (word_of_nat n) dag = Some dag' \<and> filled g (n + unat grid * unat block) dag'"
proof -
  define N k m where "N = unat grid * unat block" and "k = N div 4" and "m = n div 4"
  have k: "N = 4 * k" using assms(4) unfolding N_def k_def by (metis dvd_mult dvd_mult_div_cancel mod_0_imp_dvd)
  have n: "n = 4 * m" using assms(3) by (auto simp: m_def)
  let ?P = "\<lambda>q d. \<exists>dag'. d = Some dag' \<and> filled g (4 * (m + q)) dag'"
  have "?P k (fold (\<lambda>q dag. Option.bind dag (ethash_calculate_dag_item T g (word_of_nat n) q)) [0..<k] (Some dag))"
  proof (rule fold_upt_invariant [where P = ?P])
    show "?P 0 (Some dag)" using dag n by simp
    fix q d assume q: "q < k" and "?P q d"
    then obtain dag' where d: "d = Some dag'" "filled g (4 * (m + q)) dag'" by blast
    have "4 * (m + q) + 4 \<le> 2 ^ 32" using q assms(5) k n unfolding N_def [symmetric] by simp
    moreover have "word_of_nat n + word_of_nat (4 * q) = (word_of_nat (4 * (m + q)) :: u32)"
      using n by (metis distrib_left of_nat_add)
    ultimately have "\<exists>dag''. ethash_calculate_dag_item T g (word_of_nat n) q dag' = Some dag'' \<and>
        filled g (4 * (m + q) + 4) dag''"
      by (rule dag_item_filled [OF wf d(2)])
    then show "?P (Suc q) (Option.bind d (ethash_calculate_dag_item T g (word_of_nat n) q))"
      using d(1) by (auto simp: algebra_simps)
  qed
  moreover have "4 * (m + k) = n + N" using n k by simp
  ultimately show ?thesis using assms(4) by (auto simp: dag_kernel_def N_def k_def)
qed

text \<open>The loop ends before the last, incomplete launch, and it does not wrap around.\<close>

declare full_launches.simps [simp del]

lemma full_launches_filled:
  assumes launch: "\<And>n dag. filled g n dag \<Longrightarrow> n mod 4 = 0 \<Longrightarrow> n + unat run \<le> unat work \<Longrightarrow>
      \<exists>dag'. launch (word_of_nat n) dag = Some dag' \<and> filled g (n + unat run) dag'"
    and "0 < unat run" "unat run mod 4 = 0" "unat run \<le> unat work"
    and "filled g n dag" "n mod 4 = 0" "n \<le> unat work" "unat work - n \<le> fuel"
  shows "\<exists>n' dag'. full_launches fuel launch work run (word_of_nat n) dag = Some (word_of_nat n', dag') \<and>
    filled g n' dag' \<and> n' mod 4 = 0 \<and> n' \<le> unat work \<and> unat work < n' + unat run"
  using assms(5-8)
proof (induction fuel arbitrary: n dag)
  case (Suc fuel)
  have n: "unat (word_of_nat n :: u32) = n"
    using Suc.prems(3) unat_u32_less [of work] by (intro unat_of_nat_u32) simp
  have le: "word_of_nat n \<le> work - run \<longleftrightarrow> n + unat run \<le> unat work"
    using n assms(4) by (auto simp: word_le_nat_alt unat_sub)
  show ?case
  proof (cases "n + unat run \<le> unat work")
    case True
    obtain dag' where d: "launch (word_of_nat n) dag = Some dag'" "filled g (n + unat run) dag'"
      using launch [OF Suc.prems(1,2) True] by blast
    have "(n + unat run) mod 4 = 0" using Suc.prems(2) assms(3) by presburger
    then show ?thesis
      using Suc.IH [OF d(2) _ True] Suc.prems(4) assms(2) True le d(1)
      by (subst full_launches.simps) simp
  next
    case False
    then show ?thesis using Suc.prems le by (subst full_launches.simps) auto
  qed
next
  case 0
  then have "n = unat work" by simp
  then show ?case using 0 assms(2,4)
    by (subst full_launches.simps) (auto simp: word_le_nat_alt unat_sub intro!: exI [of _ "unat work"])
qed

lemma last_launch:
  fixes work base block :: u32
  assumes "base < work" "0 < unat block" "unat work + unat block \<le> 2 ^ 32"
  shows "unat base + unat ((work - base + block - 1) div block) * unat block \<ge> unat work"
    and "unat base + unat ((work - base + block - 1) div block) * unat block < unat work + unat block"
proof -
  define r b where "r = unat work - unat base" and "b = unat block"
  have lt: "unat base < unat work" using assms(1) by (simp add: word_less_nat_alt)
  then have r: "unat (work - base) = r" "0 < r" "unat work = unat base + r"
    by (auto simp: unat_sub_if' r_def)
  have "unat (work - base + block) = r + b" if "r + b < 2 ^ 32"
    using that by (simp add: unat_word_ariths r(1) b_def)
  moreover have "work - base + block - 1 = word_of_nat (r + b - 1)"
  proof -
    have "work - base + block = word_of_nat (r + b)"
      by (simp only: of_nat_add of_nat_unat b_def flip: r(1)) simp
    then show ?thesis using assms(2) r(2) by (simp add: b_def of_nat_diff)
  qed
  moreover have "r + b - 1 < 2 ^ 32" using assms(3) r by (simp add: b_def)
  ultimately have q: "unat ((work - base + block - 1) div block) = (r + b - 1) div b"
    by (simp add: unat_div_distrib unat_of_nat_u32 b_def)
  have b: "0 < b" using assms(2) by (simp add: b_def)
  have "(r + b - 1) div b * b + (r + b - 1) mod b = r + b - 1" "(r + b - 1) mod b < b" using b by simp_all
  then have "r \<le> (r + b - 1) div b * b" "(r + b - 1) div b * b < r + b" using b by linarith+
  then show "unat base + unat ((work - base + block - 1) div block) * unat block \<ge> unat work"
    "unat base + unat ((work - base + block - 1) div block) * unat block < unat work + unat block"
    unfolding q r(3) b_def [symmetric] by simp_all
qed

text \<open>All launches together fill exactly the groups of four up to the one with the last node.\<close>

lemma generate_dag_filled:
  assumes wf: "wf_light g" and size: "unat dag_size = 128 * unat (d_dag_size g)"
    and block: "0 < unat blockSize" "unat blockSize mod 4 = 0"
    and grid: "0 < unat gridSize" "unat gridSize * unat blockSize \<le> 2 * unat (d_dag_size g)"
    and room: "2 * unat (d_dag_size g) + unat blockSize \<le> 2 ^ 32"
  shows "\<exists>dag n. ethash_generate_dag (2 * unat (d_dag_size g)) T g dag_size gridSize blockSize = Some dag \<and>
    filled g n dag \<and> node_limit g \<le> n"
proof -
  define work run where "work = (ucast (dag_size div 64) :: u32)" and "run = gridSize * blockSize"
  have w: "unat work = 2 * unat (d_dag_size g)"
    using size room block(1) by (simp add: work_def unsigned_ucast_eq unat_div_distrib take_bit_nat_eq_self)
  have r: "unat run = unat gridSize * unat blockSize"
    using grid(2) room block(1) by (simp add: run_def unat_word_ariths)
  have r4: "unat run mod 4 = 0" using block(2) by (simp add: r mod_mult_right_eq [of "unat gridSize", symmetric])
  have e: "filled g 0 Map.empty" by (simp add: filled_def)
  have "\<exists>dag'. dag_kernel T g gridSize blockSize (word_of_nat n) dag = Some dag' \<and> filled g (n + unat run) dag'"
    if "filled g n dag" "n mod 4 = 0" "n + unat run \<le> unat work" for n dag
    unfolding r by (rule dag_kernel_filled [OF wf that(1,2) block(2)]) (use that(3) w room in \<open>simp add: r\<close>)
  then obtain n dag where l: "full_launches (2 * unat (d_dag_size g)) (dag_kernel T g gridSize blockSize) work run 0 Map.empty =
      Some (word_of_nat n, dag)" "filled g n dag" "n mod 4 = 0" "n \<le> unat work" "unat work < n + unat run"
    using full_launches_filled [of g run work "dag_kernel T g gridSize blockSize" 0 Map.empty "2 * unat (d_dag_size g)"]
      r r4 e w grid block by auto
  have n: "unat (word_of_nat n :: u32) = n" using l(4) unat_u32_less [of work] by (intro unat_of_nat_u32) simp
  have lim: "node_limit g \<le> m" if "unat work \<le> m" "m mod 4 = 0" for m
    using that unfolding w node_limit_def by presburger
  show ?thesis
  proof (cases "word_of_nat n < work")
    case True
    let ?grid = "(work - word_of_nat n + blockSize - 1) div blockSize"
    note last = last_launch [OF True block(1), unfolded w n, OF room]
    obtain dag' where "dag_kernel T g ?grid blockSize (word_of_nat n) dag = Some dag'"
      "filled g (n + unat ?grid * unat blockSize) dag'"
      using dag_kernel_filled [OF wf l(2,3) block(2), of ?grid T] last room by auto
    moreover have "node_limit g \<le> n + unat ?grid * unat blockSize"
      using last(1) w l(3) block(2) by (intro lim) (simp_all add: mod_add_eq [of n, symmetric] mod_mult_right_eq [of "unat ?grid", symmetric])
    ultimately show ?thesis using l(1) True by (auto simp: ethash_generate_dag_def Let_def work_def [symmetric] run_def [symmetric])
  next
    case False
    then have "n = unat work" using l(4) n by (simp add: word_less_nat_alt)
    then show ?thesis using l(1-3) False lim [of n]
      by (auto simp: ethash_generate_dag_def Let_def work_def [symmetric] run_def [symmetric])
  qed
qed

text \<open>
  With more threads in a launch than nodes the bound of the loop wraps around; if the number of threads
  divides \<open>2\<^sup>3\<^sup>2\<close>, the loop does not end.
\<close>

lemma launches_never_end:
  assumes "unat work < unat run" "unat run * c = 2 ^ 32" "j < c"
  shows "full_launches fuel launch work run (word_of_nat (unat run * j)) dag = None"
  using assms(3)
proof (induction fuel arbitrary: j dag)
  case (Suc fuel)
  have j: "unat run * j + unat run \<le> 2 ^ 32"
    using mult_le_mono2 [of "Suc j" c "unat run"] Suc.prems assms(2) by simp
  have "unat (work - run) = 2 ^ 32 + unat work - unat run" using assms(1) by (simp add: unat_sub_if')
  moreover have "unat (word_of_nat (unat run * j) :: u32) = unat run * j"
    using j assms(1) by (intro unat_of_nat_u32) simp
  ultimately have le: "word_of_nat (unat run * j) \<le> work - run" using j by (simp add: word_le_nat_alt)
  have "\<exists>j' < c. word_of_nat (unat run * j) + run = (word_of_nat (unat run * j') :: u32)"
  proof (cases "Suc j < c")
    case True
    then show ?thesis by (intro exI [of _ "Suc j"]) simp
  next
    case False
    then have "unat run * Suc j = 2 ^ 32" using Suc.prems assms(2) by (metis less_SucE not_less_eq)
    then have "word_of_nat (unat run * j) + run = (word_of_nat (2 ^ 32) :: u32)"
      by (metis add.commute mult_Suc_right of_nat_add of_nat_unat ucast_id)
    then show ?thesis using Suc.prems by (intro exI [of _ 0]) simp
  qed
  then obtain j' where "j' < c" "word_of_nat (unat run * j) + run = (word_of_nat (unat run * j') :: u32)" by blast
  then show ?case using Suc.IH [of j'] le by (subst full_launches.simps) (simp split: bind_splits)
next
  case 0
  have j: "unat run * j + unat run \<le> 2 ^ 32"
    using mult_le_mono2 [of "Suc j" c "unat run"] 0 assms(2) by simp
  have "unat (work - run) = 2 ^ 32 + unat work - unat run" using assms(1) by (simp add: unat_sub_if')
  moreover have "unat (word_of_nat (unat run * j) :: u32) = unat run * j"
    using j assms(1) by (intro unat_of_nat_u32) simp
  ultimately show ?case using j by (subst full_launches.simps) (simp add: word_le_nat_alt)
qed

text \<open>
  C20. The dataset that a CUDA device generates is the dataset of the Ethash specification. Let the device
  hold a light cache, let the number of bytes be that of the number of items, and let the blocks consist of
  groups of four threads, with no more threads in a launch than the dataset has nodes. Then the loop over
  the launches ends, the threads of a group agree on whether they return, and afterwards every node of the
  dataset is the item of the specification for the cache. The threads write the nodes in groups of four:
  for an odd number of items, and the number of items is prime, two nodes behind the end of the dataset,
  for which no memory is allocated, are written as well.
\<close>

theorem generate_dag_correct:
  assumes "wf_light g" "unat dag_size = 128 * unat (d_dag_size g)"
    and "0 < unat blockSize" "unat blockSize mod 4 = 0"
    and "0 < unat gridSize" "unat gridSize * unat blockSize \<le> 2 * unat (d_dag_size g)"
    and "2 * unat (d_dag_size g) + unat blockSize \<le> 2 ^ 32"
  shows "\<exists>dag. ethash_generate_dag (2 * unat (d_dag_size g)) T g dag_size gridSize blockSize = Some dag \<and>
    (\<forall>k < 2 * unat (d_dag_size g). \<exists>v. dag k = Some v \<and> length v = 4 \<and> mix_words v = spec_dataset_item (light_words g) k) \<and>
    dom dag = {k. k < 2 * unat (d_dag_size g) + (if odd (unat (d_dag_size g)) then 2 else 0)}"
proof -
  obtain dag n where dag: "ethash_generate_dag (2 * unat (d_dag_size g)) T g dag_size gridSize blockSize = Some dag"
    "filled g n dag" "node_limit g \<le> n"
    using generate_dag_filled [OF assms] by blast
  have lim: "node_limit g = 2 * unat (d_dag_size g) + (if odd (unat (d_dag_size g)) then 2 else 0)"
    unfolding node_limit_def by (simp; presburger)
  then have d: "dom dag = {k. k < 2 * unat (d_dag_size g) + (if odd (unat (d_dag_size g)) then 2 else 0)}"
    using dag(2,3) by (auto simp: filled_def)
  moreover have "\<exists>v. dag k = Some v \<and> length v = 4 \<and> mix_words v = spec_dataset_item (light_words g) k"
    if "k < 2 * unat (d_dag_size g)" for k
  proof -
    have "k \<in> dom dag" using that d by simp
    then obtain v where "dag k = Some v" by blast
    then show ?thesis using dag(2) by (simp add: filled_def)
  qed
  ultimately show ?thesis using dag(1) by blast
qed

text \<open>Three items over a cache of one item, in launches of one block.\<close>

definition globals_example :: cuda_globals where
  "globals_example =
     \<lparr>d_dag_size = 3, d_dag = [], d_light_size = 1, d_light = [replicate 4 (Uint4 1 2 3 4)], d_header = [], d_target = 0\<rparr>"

theorem generate_dag_correct_witness:
  "\<exists>dag. ethash_generate_dag 6 \<lparr>cuda_arch = 500, cuda_version = 9000\<rparr> globals_example 384 1 4 = Some dag \<and>
     (\<exists>v. dag 5 = Some v \<and> mix_words v = spec_dataset_item (light_words globals_example) 5) \<and> dom dag = {k. k < 8}"
proof -
  have u: "unat (d_dag_size globals_example) = 3" by (simp add: globals_example_def)
  have "wf_light globals_example" by (simp add: wf_light_def globals_example_def)
  then have "\<exists>dag. ethash_generate_dag (2 * unat (d_dag_size globals_example)) \<lparr>cuda_arch = 500, cuda_version = 9000\<rparr>
      globals_example 384 1 4 = Some dag \<and>
    (\<forall>k < 2 * unat (d_dag_size globals_example). \<exists>v. dag k = Some v \<and> length v = 4 \<and>
      mix_words v = spec_dataset_item (light_words globals_example) k) \<and>
    dom dag = {k. k < 2 * unat (d_dag_size globals_example) + (if odd (unat (d_dag_size globals_example)) then 2 else 0)}"
    by (rule generate_dag_correct) (simp_all add: u)
  then obtain dag where d: "ethash_generate_dag 6 \<lparr>cuda_arch = 500, cuda_version = 9000\<rparr> globals_example 384 1 4 = Some dag"
    "\<forall>k < 6. \<exists>v. dag k = Some v \<and> length v = 4 \<and> mix_words v = spec_dataset_item (light_words globals_example) k"
    "dom dag = {k. k < 8}"
    by (auto simp: u)
  have "\<exists>v. dag 5 = Some v \<and> mix_words v = spec_dataset_item (light_words globals_example) 5"
    using d(2) [rule_format, of 5] by auto
  then show ?thesis using d(1,3) by blast
qed

end
