(* ===== verification/Spec2Isabelle.thy ===== *)
theory Spec2Isabelle
  imports Keccak_F800 Extranonce Api_Server Cuda_Miner Cuda_Dag
begin

text \<open>
  A verification library for etcminer, a miner for Ethereum Classic written in C and C++.

  \<^bold>\<open>The program.\<close> A pool address names a server. A client for the protocol of that server receives work
  packages and hands them to the pool manager, which determines the epoch and passes the work to the
  farm. The farm owns the miners, one thread for each device, and gives each of them a segment of the
  nonces. A miner searches its segment on its device and reports candidates to the farm; the farm
  evaluates a candidate with the Ethash library and, if it meets the boundary, gives it back to the
  client for submission. The Ethash library computes Hashimoto over a dataset that is derived from a
  cache, which is derived from the seed of an epoch; its hash function is Keccak. An interface for
  remote control observes and steers the farm and the pool manager.

  \<^bold>\<open>The theories and the sources.\<close> All paths are below \<^verbatim>\<open>src\<close>.

  \<^item> \<^verbatim>\<open>Prelude\<close>, \<^verbatim>\<open>Hash_Types\<close>: words, byte order and the hash unions, which are lists of bytes with their
    views as host words (\<^verbatim>\<open>ethash/include/ethash/hash_types.h\<close>, \<^verbatim>\<open>ethash/lib/ethash/endianness.hpp\<close>).
  \<^item> \<^verbatim>\<open>Keccak_Spec\<close>: Keccak as FIPS 202 defines it, with lanes indexed by coordinates. \<^verbatim>\<open>Keccak_Lanes\<close>,
    \<^verbatim>\<open>Keccak_F1600\<close>, \<^verbatim>\<open>Keccak_F800\<close>, \<^verbatim>\<open>Keccak_Sponge\<close>: the unrolled permutations, the sponge and the digests of
    \<^verbatim>\<open>ethash/lib/keccak\<close>, and their equality with the specification.
  \<^item> \<^verbatim>\<open>Bit_Manipulation\<close>, \<^verbatim>\<open>Primes\<close>: \<^verbatim>\<open>bit_manipulation.h\<close>, \<^verbatim>\<open>kiss99.hpp\<close> and \<^verbatim>\<open>primes.c\<close>.
  \<^item> \<^verbatim>\<open>Ethash_Spec\<close>: the cache, the dataset and Hashimoto as the Ethash specification defines them.
    \<^verbatim>\<open>Ethash_Cache\<close>, \<^verbatim>\<open>Ethash_Dataset\<close>, \<^verbatim>\<open>Ethash\<close>, \<^verbatim>\<open>Ethash_Epoch\<close>, \<^verbatim>\<open>Ethash_Managed\<close>: the routines of
    \<^verbatim>\<open>ethash/lib/ethash/ethash.cpp\<close> and \<^verbatim>\<open>managed.cpp\<close>. The locales \<^verbatim>\<open>hash_function_512\<close>, \<^verbatim>\<open>dataset_lookup\<close>
    and \<^verbatim>\<open>context_cache\<close> state what a routine needs of the function it is given, and are interpreted on
    the routines of the library.
  \<^item> \<^verbatim>\<open>Common_Data\<close>, \<^verbatim>\<open>Fixed_Hash\<close>, \<^verbatim>\<open>Worker\<close>: the files of the same names in \<^verbatim>\<open>libdev\<close>. \<^verbatim>\<open>C_Strings\<close>: the
    conversions of the standard library that the sources use.
  \<^item> \<^verbatim>\<open>Ethash_Aux\<close>, \<^verbatim>\<open>Miner\<close>, \<^verbatim>\<open>Farm\<close>: the files of the same names in \<^verbatim>\<open>libeth\<close>.
  \<^item> \<^verbatim>\<open>Pool_URI\<close>: \<^verbatim>\<open>libpool/PoolURI.cpp\<close>.

  \<^bold>\<open>Conventions.\<close> An integer of \<open>w\<close> bits is a \<open>w word\<close> wherever it can wrap; an \<open>int\<close> whose range the
  lemmas establish is an \<open>int\<close>. An object is a record with the fields of the class, a method is a
  function on it, and a method that can throw also returns the exception, because the assignments made
  before the exception remain. The order of bytes of the host and the features of its processor are the
  fields of a record \<open>host\<close> that the routines take as an argument; the lemmas hold for every host.
  Whatever the sources do not define is an argument: the result of an allocation, the monitors of the
  devices, the floating-point unit (a \<open>float\<close> or \<open>double\<close> is carried as its bits), a shift by the width
  of a word. A pointer that is dereferenced although it is null makes the result None.

  \<^bold>\<open>What is shown.\<close> Hashing: the digests, the cache, the dataset items, Hashimoto, verification and search
  equal their specifications on every host (C1 to C12), the sizes stay in range for all epochs up to
  32639 (C14), and contexts are right under every interleaving of threads (C13, C15, C16). Data:
  conversions are inverse to one another and behave as the numbers they stand for (C17 to C20, C29).
  Threads: the waits of a worker end and a stopped worker is not working (C21). Mining: a paused miner
  has no work (C22), the epoch data is right and in bounds (C23), the nonce segments of the miners are
  disjoint (C24), the accounts add up (C25), the data collection is right (C26), and a solution is
  submitted exactly if it is one (C27), in every state the farm can reach (C28).

  \<^bold>\<open>Bounds.\<close> The recursions that model loops are total functions with their termination proofs. The only
  fuel is the number of steps, four, that \<open>startWorking\<close> waits for its thread; C21 shows that they
  suffice.

  \<^bold>\<open>Not modelled.\<close> The kernels for OpenCL and the vendored header of its C++ binding, the wrappers of the
  monitor libraries, sockets, logging and the text written to the terminal, the formatting of floating
  point numbers, and the release of memory.
\<close>

end
